theory Spec2Isabelle
  imports Complex_Main
begin

section \<open>Python strings\<close>

text \<open>
  Strings are lists of characters. The helpers below are the string methods of Python
  that the sources call: \<^verbatim>\<open>str.split(sep)\<close>, \<^verbatim>\<open>str.strip()\<close>,
  \<^verbatim>\<open>str.split()\<close>, \<^verbatim>\<open>str.startswith\<close>, \<^verbatim>\<open>str.upper()\<close> and the
  \<^verbatim>\<open>%d\<close> conversion of a non-negative integer. Characters are the code points
  below 256; \<^verbatim>\<open>upper\<close> is modelled on the ASCII letters, which is what the keys and
  names of a deck are made of.
\<close>

definition NL :: string where
  "NL = [CHR 0x0A]"

definition is_space :: "char \<Rightarrow> bool" where
  "is_space c = (c = CHR '' '' \<or> c = CHR 0x09 \<or> c = CHR 0x0A \<or> c = CHR 0x0B \<or> c = CHR 0x0C
     \<or> c = CHR 0x0D \<or> c = CHR 0x1C \<or> c = CHR 0x1D \<or> c = CHR 0x1E \<or> c = CHR 0x1F
     \<or> c = CHR 0x85 \<or> c = CHR 0xA0)"

definition py_strip :: "string \<Rightarrow> string" where
  "py_strip s = rev (dropWhile is_space (rev (dropWhile is_space s)))"

fun py_split_sep :: "char \<Rightarrow> string \<Rightarrow> string list" where
  "py_split_sep c [] = [[]]"
| "py_split_sep c (x # xs) =
     (if x = c then [] # py_split_sep c xs
      else (case py_split_sep c xs of
              [] \<Rightarrow> [[x]]
            | y # ys \<Rightarrow> (x # y) # ys))"

fun split_ws_from :: "string \<Rightarrow> string \<Rightarrow> string list" where
  "split_ws_from cur [] = (if cur = [] then [] else [cur])"
| "split_ws_from cur (x # xs) =
     (if is_space x then (if cur = [] then split_ws_from [] xs else cur # split_ws_from [] xs)
      else split_ws_from (cur @ [x]) xs)"

definition py_split_ws :: "string \<Rightarrow> string list" where
  "py_split_ws s = split_ws_from [] s"

definition startswith :: "string \<Rightarrow> string \<Rightarrow> bool" where
  "startswith s p = (take (length p) s = p)"

definition upper_char :: "char \<Rightarrow> char" where
  "upper_char c =
     (let n = (of_char c :: nat) in if 97 \<le> n \<and> n \<le> 122 then char_of (n - 32) else c)"

definition upper :: "string \<Rightarrow> string" where
  "upper s = map upper_char s"

fun str_of_nat :: "nat \<Rightarrow> string" where
  "str_of_nat n =
     (if n < 10 then [char_of (48 + n)]
      else str_of_nat (n div 10) @ [char_of (48 + n mod 10)])"

section \<open>Regions (region.py)\<close>

type_synonym vec3 = "real \<times> real \<times> real"

text \<open>
  Modelled from the spec: the base class \<^verbatim>\<open>GeoObject\<close> (module FLUKA is not among
  the sources). Every entity is "named" and carries the comment lines that precede its
  card; \<^verbatim>\<open>echoName\<close> gives the name by which entities are looked up.
\<close>

record GeoObject =
  name :: string
  comment :: string

definition echoName :: "'a GeoObject_scheme \<Rightarrow> string" where
  "echoName ob = name ob"

text \<open>
  The fields of class \<^verbatim>\<open>Region\<close>. \<^verbatim>\<open>neigh\<close> is the number of neighbour
  regions, an integer count; \<^verbatim>\<open>regDefinition\<close> is the field \<^verbatim>\<open>definition\<close>;
  \<^verbatim>\<open>rCont\<close> is the containment tag (-1, 0, 1).
\<close>

text \<open>
  Modelled from the spec: the lattice linkage of a region (the methods
  \<^verbatim>\<open>assignLat\<close>, \<^verbatim>\<open>assignTrasf\<close>, \<^verbatim>\<open>isLattice\<close>,
  \<^verbatim>\<open>isLinkedToTransform\<close>, \<^verbatim>\<open>echoLatticeName\<close> and \<^verbatim>\<open>echoTransformName\<close>
  that geometry.py calls are not part of region.py). Section 3 of the spec gives a region
  an optional lattice linkage, a lattice name plus a transform name; the two fields
  \<^verbatim>\<open>latName\<close> and \<^verbatim>\<open>regTransfName\<close> hold them, the empty string standing for
  "none" as \<^verbatim>\<open>Usrbin.TransfName\<close> does in scorings.py.
\<close>

record Region = GeoObject +
  neigh :: int
  regDefinition :: string
  material :: string
  rCont :: int
  rCent :: vec3
  rMaxLen :: real
  latName :: string
  regTransfName :: string

definition initCont :: "Region \<Rightarrow> int \<Rightarrow> vec3 \<Rightarrow> real \<Rightarrow> Region" where
  "initCont r c cent len = r\<lparr>rCont := c, rCent := cent, rMaxLen := len\<rparr>"

text \<open>\<^verbatim>\<open>Region.__init__\<close>, with the defaults of \<^verbatim>\<open>initCont\<close>.\<close>

definition newRegion :: "string \<Rightarrow> string \<Rightarrow> Region" where
  "newRegion myName myComment =
     \<lparr>name = myName, comment = myComment, neigh = 5, regDefinition = [],
      material = ''BLACKHOLE'', rCont = 0, rCent = (0, 0, 0), rMaxLen = 0,
      latName = [], regTransfName = []\<rparr>"

definition isNonEmpty :: "Region \<Rightarrow> bool" where
  "isNonEmpty r = (length (regDefinition r) > 0)"

subsection \<open>Region.merge\<close>

text \<open>
  The loop state of \<^verbatim>\<open>merge\<close>: the comment of the surviving region, the merged
  definition built so far and the flag \<^verbatim>\<open>lFirst\<close>.
\<close>

record merge_state =
  mComment :: string
  mergedDef :: string
  lFirst :: bool

definition mergeNote :: "string \<Rightarrow> string \<Rightarrow> nat \<Rightarrow> nat \<Rightarrow> string" where
  "mergeNote newName myName jj ii =
     ''* merging zone '' @ newName @ '':'' @ str_of_nat jj
       @ '' into '' @ myName @ '':'' @ str_of_nat ii"

text \<open>
  The body of the inner loop for one zone \<^verbatim>\<open>newRegZone\<close> of the absorbed region.
  \<^verbatim>\<open>tailMe\<close> (of \<^verbatim>\<open>GeoObject\<close>, not among the sources) is a parameter: it maps the
  current comment and the text to add to the new comment.
\<close>

definition merge_inner ::
  "(string \<Rightarrow> string \<Rightarrow> string) \<Rightarrow> string \<Rightarrow> string \<Rightarrow> string \<Rightarrow> nat \<Rightarrow> string
     \<Rightarrow> merge_state \<Rightarrow> nat \<times> string \<Rightarrow> merge_state" where
  "merge_inner tailMe newName myName spacing ii sMyRegZone st p =
     (let jj = fst p; sNewRegZone = py_strip (snd p) in
      if length sNewRegZone > 0 then
        (let tmpComment = mergeNote newName myName jj ii in
         if lFirst st then
           st\<lparr>mComment := tailMe (mComment st) tmpComment,
              mergedDef := ''| '' @ sMyRegZone @ '' '' @ sNewRegZone,
              lFirst := False\<rparr>
         else
           st\<lparr>mergedDef := mergedDef st @ NL @ tmpComment @ NL @ spacing
                               @ ''| '' @ sMyRegZone @ '' '' @ sNewRegZone\<rparr>)
      else st)"

definition merge_outer ::
  "(string \<Rightarrow> string \<Rightarrow> string) \<Rightarrow> string \<Rightarrow> string \<Rightarrow> string \<Rightarrow> string list
     \<Rightarrow> merge_state \<Rightarrow> nat \<times> string \<Rightarrow> merge_state" where
  "merge_outer tailMe newName myName spacing newRegZones st p =
     (let ii = fst p; sMyRegZone = py_strip (snd p) in
      if length sMyRegZone > 0 then
        foldl (merge_inner tailMe newName myName spacing ii sMyRegZone) st
          (enumerate 1 newRegZones)
      else st)"

definition merge ::
  "(string \<Rightarrow> string \<Rightarrow> string) \<Rightarrow> Region \<Rightarrow> Region \<Rightarrow> string \<Rightarrow> Region" where
  "merge tailMe self newReg spacing =
     (let c1 = tailMe (comment self) (''* --> merged with region '' @ echoName newReg @ '' <--'');
          c2 = (if length (comment newReg) > 0 then tailMe c1 (comment newReg) else c1);
          newRegZones = py_split_sep (CHR ''|'') (regDefinition newReg);
          myRegZones = py_split_sep (CHR ''|'') (regDefinition self);
          st = foldl (merge_outer tailMe (echoName newReg) (echoName self) spacing newRegZones)
                 \<lparr>mComment = c2, mergedDef = [], lFirst = True\<rparr>
                 (enumerate 1 myRegZones)
      in initCont
           (self\<lparr>comment := mComment st, regDefinition := mergedDef st,
                 neigh := neigh self + neigh newReg\<rparr>)
           0 (0, 0, 0) 0)"

subsection \<open>What Region.merge writes\<close>

text \<open>
  \<^verbatim>\<open>merge\<close> loops over the pieces that \<^verbatim>\<open>split("|")\<close> gives of the two definitions,
  stripped, skipping the empty ones. \<^verbatim>\<open>pieceHits\<close> lists these pieces with their
  1-based positions, \<^verbatim>\<open>mergedPieces\<close> pairs every piece of the surviving region with
  every piece of the absorbed one (with the comment line that announces the pair), and
  \<^verbatim>\<open>writePieces\<close> is the text written for such a list: the first pair as
  \<^verbatim>\<open>| piece piece\<close>, every later one on a line of its own after its comment line.
\<close>

definition pieceHits :: "string \<Rightarrow> (nat \<times> string) list" where
  "pieceHits d =
     filter (\<lambda>p. snd p \<noteq> [])
       (map (\<lambda>p. (fst p, py_strip (snd p))) (enumerate 1 (py_split_sep (CHR ''|'') d)))"

definition mergedPieces :: "string \<Rightarrow> string \<Rightarrow> string \<Rightarrow> string \<Rightarrow> (string \<times> string) list" where
  "mergedPieces newName myName dMy dNew =
     concat (map (\<lambda>p. map (\<lambda>q. (mergeNote newName myName (fst q) (fst p), snd p @ '' '' @ snd q))
                          (pieceHits dNew))
                 (pieceHits dMy))"

definition contPieces :: "string \<Rightarrow> (string \<times> string) list \<Rightarrow> string" where
  "contPieces sp cz = concat (map (\<lambda>p. NL @ fst p @ NL @ sp @ ''| '' @ snd p) cz)"

fun writePieces :: "string \<Rightarrow> (string \<times> string) list \<Rightarrow> string" where
  "writePieces sp [] = []"
| "writePieces sp (p # rest) = ''| '' @ snd p @ contPieces sp rest"


text \<open>Proof vocabulary: the pieces written so far, and the stripped non-empty entries of a list.\<close>

definition emitted :: "string \<Rightarrow> merge_state \<Rightarrow> (string \<times> string) list \<Rightarrow> bool" where
  "emitted sp st cz = (lFirst st = (cz = []) \<and> mergedDef st = writePieces sp cz)"

definition hitsOf :: "(nat \<times> string) list \<Rightarrow> (nat \<times> string) list" where
  "hitsOf ps = filter (\<lambda>p. snd p \<noteq> []) (map (\<lambda>p. (fst p, py_strip (snd p))) ps)"


text \<open>Two concrete regions and a concrete \<^verbatim>\<open>tailMe\<close>, used to exercise the theorems.\<close>

definition ex_tailMe :: "string \<Rightarrow> string \<Rightarrow> string" where
  "ex_tailMe c t = c @ NL @ t"

definition ex_surviving :: Region where
  "ex_surviving = (newRegion ''S'' [])\<lparr>regDefinition := ''| +A'' @ NL @ ''      | +B'',
     rCont := 1, rCent := (1, 2, 3), rMaxLen := 4\<rparr>"

definition ex_absorbed :: Region where
  "ex_absorbed = (newRegion ''N'' ''* c'')\<lparr>regDefinition := ''-C | -D'', rCont := -1, neigh := 7\<rparr>"

text \<open>
  A surviving region whose definition holds a comment line between its two zones, and an
  absorbed region of one zone. \<^verbatim>\<open>spacing16\<close> is the default of the argument
  \<^verbatim>\<open>spacing\<close>.
\<close>

definition ex_commented :: Region where
  "ex_commented = (newRegion ''S'' [])\<lparr>regDefinition :=
     ''| +A -B'' @ NL @ ''* second zone'' @ NL @ ''           | +C''\<rparr>"

definition ex_single :: Region where
  "ex_single = (newRegion ''N'' [])\<lparr>regDefinition := ''-E''\<rparr>"

definition spacing16 :: string where
  "spacing16 = replicate 16 (CHR '' '')"

section \<open>The geometry aggregate (geometry.py)\<close>

text \<open>
  How a run can stop: \<^verbatim>\<open>exit(1)\<close> after a diagnostic, or an exception that nothing
  catches. \<^verbatim>\<open>Raised\<close> stands for an uncaught exception whose class depends on data
  that is not modelled.
\<close>

datatype error = Exit | IndexError | AttributeError | TypeError | RecursionError | Raised

text \<open>
  Modelled from the spec: class \<^verbatim>\<open>Body\<close> (body.py is not among the sources). A body is
  a named primitive, opaque but for its identity, its rotate/translate capability and its
  link to a transformation (\<^verbatim>\<open>isLinkedToTransform\<close>, \<^verbatim>\<open>retTransformName\<close>,
  \<^verbatim>\<open>linkTransformName\<close>); the empty string stands for "not linked". The shape fields
  are the ones geometry.py assigns.
\<close>

record Body = GeoObject +
  bType :: string
  P :: vec3
  V :: vec3
  Rs :: "real list"
  bodTransfName :: string

text \<open>
  Modelled from the spec: classes \<^verbatim>\<open>RotDefi\<close> and \<^verbatim>\<open>Transformation\<close>
  (transformation.py is not among the sources). A transformation is a named ordered list
  of elementary rotation or translation steps with a numeric ID. A step is what
  geometry.py constructs: \<^verbatim>\<open>RotDefi(myAx=a,myTh=t)\<close> is \<^verbatim>\<open>Rotation a t\<close> and
  \<^verbatim>\<open>RotDefi(myDD=d)\<close> is \<^verbatim>\<open>Translation d\<close>, holding the arguments as passed.
\<close>

datatype RotDefi = Rotation int real | Translation vec3

record Transformation = GeoObject +
  ID :: int
  RotDefis :: "RotDefi list"

text \<open>Class \<^verbatim>\<open>Usrbin\<close> of scorings.py; \<^verbatim>\<open>binDefinition\<close> is its field \<^verbatim>\<open>definition\<close>.\<close>

record Usrbin = GeoObject +
  binDefinition :: "string list"
  TransfName :: string

text \<open>
  Modelled from the spec: the region-based scoring cards \<^verbatim>\<open>Usryield\<close>,
  \<^verbatim>\<open>Usrbdx\<close>, \<^verbatim>\<open>Usrtrack\<close> and \<^verbatim>\<open>Usrcoll\<close> (their classes are not among the
  sources): named cards of four kinds, which \<^verbatim>\<open>isinstance\<close> tells apart.
\<close>

datatype ScoKind = Usryield | Usrbdx | Usrtrack | Usrcoll

record Scoring = GeoObject +
  scoKind :: ScoKind
  scoDefinition :: "string list"

record Geometry =
  bods :: "Body list"
  regs :: "Region list"
  tras :: "Transformation list"
  bins :: "Usrbin list"
  scos :: "Scoring list"
  title :: string

text \<open>\<^verbatim>\<open>Geometry.__init__\<close>.\<close>

definition newGeometry :: Geometry where
  "newGeometry = \<lparr>bods = [], regs = [], tras = [], bins = [], scos = [], title = []\<rparr>"

definition bodIsLinkedToTransform :: "Body \<Rightarrow> bool" where
  "bodIsLinkedToTransform b = (length (bodTransfName b) > 0)"

definition isLattice :: "Region \<Rightarrow> bool" where
  "isLattice r = (length (latName r) > 0)"

definition regIsLinkedToTransform :: "Region \<Rightarrow> bool" where
  "regIsLinkedToTransform r = (length (regTransfName r) > 0)"

definition binIsLinkedToTransform :: "Usrbin \<Rightarrow> bool" where
  "binIsLinkedToTransform b = (length (TransfName b) > 0)"

subsection \<open>MapContRegs\<close>

record Mapping =
  iRhg :: "nat list"
  jRhg :: "nat list"
  iRgg :: "nat list"
  jRgg :: "nat list"

text \<open>\<^verbatim>\<open>[ ii for ii,mReg in enumerate(regs) if mReg.rCont==c ]\<close>\<close>

definition flaggedRegs :: "int \<Rightarrow> Region list \<Rightarrow> nat list" where
  "flaggedRegs c rs = map fst (filter (\<lambda>p. rCont (snd p) = c) (enumerate 0 rs))"

text \<open>
  \<^verbatim>\<open>[ xs[0] for y in ys ]\<close>: the element is read once per \<^verbatim>\<open>y\<close>, so an empty
  \<^verbatim>\<open>xs\<close> raises IndexError unless \<^verbatim>\<open>ys\<close> is empty too.
\<close>

definition firstForEach :: "nat list \<Rightarrow> 'a list \<Rightarrow> error + nat list" where
  "firstForEach xs ys =
     (if ys = [] then Inr []
      else (case xs of [] \<Rightarrow> Inl IndexError | x # _ \<Rightarrow> Inr (map (\<lambda>_. x) ys)))"

definition MapContRegs ::
  "Geometry \<Rightarrow> Geometry \<Rightarrow> error + (Geometry list \<times> Geometry list \<times> Mapping \<times> string)" where
  "MapContRegs CtainGeo CinedGeo =
     (let iRhgs = flaggedRegs 1 (regs CtainGeo);
          iRggs = flaggedRegs (- 1) (regs CinedGeo)
      in if length iRhgs > 1 \<and> length iRggs > 1 then Inl Exit
         else if length iRhgs \<ge> 1 \<and> length iRggs = 1 then
           (case firstForEach iRggs iRhgs of
              Inl e \<Rightarrow> Inl e
            | Inr gg \<Rightarrow>
                Inr ([CtainGeo], [CinedGeo],
                     \<lparr>iRhg = iRhgs, jRhg = map (\<lambda>_. 0) iRhgs, iRgg = gg, jRgg = map (\<lambda>_. 0) gg\<rparr>,
                     ''oneGrid''))
         else
           (case firstForEach iRhgs iRggs of
              Inl e \<Rightarrow> Inl e
            | Inr hg \<Rightarrow>
                Inr ([CtainGeo], [CinedGeo],
                     \<lparr>iRhg = hg, jRhg = map (\<lambda>_. 0) hg, iRgg = iRggs, jRgg = map (\<lambda>_. 0) iRggs\<rparr>,
                     ''oneHive'')))"

text \<open>Geometries with one flagged container and with one and three flagged contained regions.\<close>

definition ex_flagged :: "string \<Rightarrow> int \<Rightarrow> Region" where
  "ex_flagged n c = (newRegion n [])\<lparr>rCont := c\<rparr>"

definition ex_hive1 :: Geometry where
  "ex_hive1 = newGeometry\<lparr>regs := [ex_flagged ''OUT'' 0, ex_flagged ''CELL'' 1]\<rparr>"

definition ex_grid1 :: Geometry where
  "ex_grid1 = newGeometry\<lparr>regs := [ex_flagged ''OUTER'' (- 1), ex_flagged ''IN'' 0]\<rparr>"

definition ex_grid3 :: Geometry where
  "ex_grid3 = newGeometry\<lparr>regs := [ex_flagged ''G1'' (- 1), ex_flagged ''G2'' (- 1),
                                     ex_flagged ''IN'' 0, ex_flagged ''G3'' (- 1)]\<rparr>"

definition ex_hive3 :: Geometry where
  "ex_hive3 = newGeometry\<lparr>regs := [ex_flagged ''H1'' 1, ex_flagged ''H2'' 1, ex_flagged ''H3'' 1]\<rparr>"

subsection \<open>Geometry.ret\<close>

text \<open>
  What \<^verbatim>\<open>ret\<close> hands back is a pair \<^verbatim>\<open>(myEntry, iEntry)\<close>. \<^verbatim>\<open>myEntry\<close> is
  \<^verbatim>\<open>None\<close>, an entity, or a list of names; \<^verbatim>\<open>iEntry\<close> is an integer or a list whose
  items are again what \<^verbatim>\<open>ret\<close> returned as \<^verbatim>\<open>iEntry\<close>.
\<close>

datatype Entity = EBody Body | EReg Region | ETras Transformation | EBin Usrbin | ESco Scoring

datatype Entry = PyNone | Obj Entity | Names "string list"

datatype Index = Idx int | Idxs "Index list"

text \<open>
  The branches of the \<^verbatim>\<open>if\<close>/\<open>elif\<close> chain on \<^verbatim>\<open>myKey.upper()\<close>, in the order
  of the source. The branches gathered in \<^verbatim>\<open>Direct\<close> make no further call of
  \<^verbatim>\<open>ret\<close>.
\<close>

datatype Direct = BOD | LAT | REG | TRANSF | BININUNIT | BIN | SCO
  | USRYIELD | USRBDX | USRTRACK | USRCOLL

datatype Selector = BODSINREG | Direct Direct
  | TRANSFLINKEDTOBODY | TRANSFLINKEDTOLAT | TRANSFLINKEDTOUSRBIN

definition selectorOf :: "string \<Rightarrow> Selector option" where
  "selectorOf myKey =
     (let k = upper myKey in
      if startswith k ''BODSINREG'' then Some BODSINREG
      else if startswith k ''BOD'' then Some (Direct BOD)
      else if startswith k ''LAT'' then Some (Direct LAT)
      else if startswith k ''REG'' then Some (Direct REG)
      else if startswith k ''TRANSFLINKEDTOBODY'' then Some TRANSFLINKEDTOBODY
      else if startswith k ''TRANSFLINKEDTOLAT'' then Some TRANSFLINKEDTOLAT
      else if startswith k ''TRANSFLINKEDTOUSRBIN'' then Some TRANSFLINKEDTOUSRBIN
      else if startswith k ''TRANSF'' then Some (Direct TRANSF)
      else if startswith k ''BININUNIT'' \<or> startswith k ''USRBININUNIT'' then Some (Direct BININUNIT)
      else if startswith k ''BIN'' \<or> startswith k ''USRBIN'' then Some (Direct BIN)
      else if startswith k ''SCO'' \<or> startswith k ''SCORING'' then Some (Direct SCO)
      else if startswith k ''USRYIELD'' then Some (Direct USRYIELD)
      else if startswith k ''USRBDX'' then Some (Direct USRBDX)
      else if startswith k ''USRTRACK'' then Some (Direct USRTRACK)
      else if startswith k ''USRCOLL'' then Some (Direct USRCOLL)
      else None)"

text \<open>
  \<^verbatim>\<open>for iEntry,myEntry in enumerate(xs): if (test): lFound=True; break\<close> finds the
  first entry that passes the test, with its index.
\<close>

fun findFirst :: "('a \<Rightarrow> bool) \<Rightarrow> nat \<Rightarrow> 'a list \<Rightarrow> (nat \<times> 'a) option" where
  "findFirst t i [] = None"
| "findFirst t i (x # xs) = (if t x then Some (i, x) else findFirst t (Suc i) xs)"

definition retOne :: "('a \<Rightarrow> Entity) \<Rightarrow> ('a \<Rightarrow> bool) \<Rightarrow> 'a list \<Rightarrow> Entry \<times> Index" where
  "retOne wrap t xs =
     (case findFirst t 0 xs of
        None \<Rightarrow> (PyNone, Idx (- 1))
      | Some p \<Rightarrow> (Obj (wrap (snd p)), Idx (int (fst p))))"

text \<open>\<^verbatim>\<open>[ ii for ii in range(n) ]\<close>\<close>

definition allIdx :: "nat \<Rightarrow> Index" where
  "allIdx n = Idxs (map (\<lambda>i. Idx (int i)) [0..<n])"

definition isALL :: "string \<Rightarrow> bool" where
  "isALL myValue = (upper myValue = ''ALL'')"

definition retSco :: "Geometry \<Rightarrow> ScoKind \<Rightarrow> string \<Rightarrow> Entry \<times> Index" where
  "retSco g k myValue =
     (if isALL myValue then
        (Names (map echoName (filter (\<lambda>mySco. scoKind mySco = k) (scos g))), allIdx (length (scos g)))
      else retOne ESco (\<lambda>myEntry. echoName myEntry = myValue \<and> scoKind myEntry = k) (scos g))"

text \<open>
  The branches without a further call of \<^verbatim>\<open>ret\<close>, for a name \<^verbatim>\<open>myValue\<close> (a
  string). In the branch \<^verbatim>\<open>BININUNIT\<close> a string is neither a float nor an int, so the test
  \<^verbatim>\<open>abs(myBin.getUnit()) in myValue\<close> of the first USRBIN raises.
\<close>

fun retDirect :: "Geometry \<Rightarrow> Direct \<Rightarrow> string \<Rightarrow> error + (Entry \<times> Index)" where
  "retDirect g BOD myValue =
     (if isALL myValue then Inr (Names (map echoName (bods g)), allIdx (length (bods g)))
      else Inr (retOne EBody (\<lambda>myEntry. echoName myEntry = myValue) (bods g)))"
| "retDirect g LAT myValue =
     (if isALL myValue then
        Inr (Names (map latName (filter isLattice (regs g))),
             Idxs (map (\<lambda>ii. Idx (int ii)) (filter (\<lambda>ii. isLattice (regs g ! ii)) [0..<length (regs g)])))
      else Inr (retOne EReg (\<lambda>myEntry. latName myEntry = myValue) (regs g)))"
| "retDirect g REG myValue =
     (if isALL myValue then Inr (Names (map echoName (regs g)), allIdx (length (regs g)))
      else Inr (retOne EReg (\<lambda>myEntry. echoName myEntry = myValue) (regs g)))"
| "retDirect g TRANSF myValue =
     (if isALL myValue then Inr (Names (map echoName (tras g)), allIdx (length (tras g)))
      else Inr (retOne ETras (\<lambda>myEntry. echoName myEntry = myValue) (tras g)))"
| "retDirect g BININUNIT myValue =
     (if bins g = [] then Inr (PyNone, Idx (- 1)) else Inl Raised)"
| "retDirect g BIN myValue =
     (if isALL myValue then Inr (Names (map echoName (bins g)), allIdx (length (bins g)))
      else Inr (retOne EBin (\<lambda>myEntry. echoName myEntry = myValue) (bins g)))"
| "retDirect g SCO myValue =
     (if isALL myValue then Inr (Names (map echoName (scos g)), allIdx (length (scos g)))
      else Inr (retOne ESco (\<lambda>myEntry. echoName myEntry = myValue) (scos g)))"
| "retDirect g USRYIELD myValue = Inr (retSco g Usryield myValue)"
| "retDirect g USRBDX myValue = Inr (retSco g Usrbdx myValue)"
| "retDirect g USRTRACK myValue = Inr (retSco g Usrtrack myValue)"
| "retDirect g USRCOLL myValue = Inr (retSco g Usrcoll myValue)"

text \<open>
  \<^verbatim>\<open>str.splitlines()\<close>, and \<^verbatim>\<open>Region.retBodiesInDef\<close> of region.py. Its test
  \<^verbatim>\<open>if (self.isNonEmpty)\<close> reads the method without calling it, which is always true,
  so the loop over the lines always runs.
\<close>

definition is_linebreak :: "char \<Rightarrow> bool" where
  "is_linebreak c = (c = CHR 0x0A \<or> c = CHR 0x0B \<or> c = CHR 0x0C \<or> c = CHR 0x0D
     \<or> c = CHR 0x1C \<or> c = CHR 0x1D \<or> c = CHR 0x1E \<or> c = CHR 0x85)"

fun splitlines_from :: "string \<Rightarrow> string \<Rightarrow> string list" where
  "splitlines_from cur [] = (if cur = [] then [] else [cur])"
| "splitlines_from cur [x] = (if is_linebreak x then [cur] else [cur @ [x]])"
| "splitlines_from cur (x # y # ys) =
     (if x = CHR 0x0D \<and> y = CHR 0x0A then cur # splitlines_from [] ys
      else if is_linebreak x then cur # splitlines_from [] (y # ys)
      else splitlines_from (cur @ [x]) (y # ys))"

definition py_splitlines :: "string \<Rightarrow> string list" where
  "py_splitlines s = splitlines_from [] s"

definition blankSigns :: "string \<Rightarrow> string" where
  "blankSigns s = map (\<lambda>c. if c = CHR ''|'' \<or> c = CHR ''+'' \<or> c = CHR ''-'' then CHR '' '' else c) s"

definition addBodies :: "string list \<Rightarrow> string \<Rightarrow> string list" where
  "addBodies bodiesInDef myLine =
     (if startswith myLine ''*'' then bodiesInDef
      else foldl (\<lambda>acc currBody. let tmpBody = py_strip currBody in
                    if tmpBody \<in> set acc then acc else acc @ [tmpBody])
             bodiesInDef (py_split_ws (py_strip (blankSigns myLine))))"

definition retBodiesInDef :: "Region \<Rightarrow> string list" where
  "retBodiesInDef r = foldl addBodies [] (py_splitlines (regDefinition r))"

text \<open>
  The singular branch of \<^verbatim>\<open>BODSINREG\<close>: a region that is not found is \<^verbatim>\<open>None\<close>,
  and calling its method raises.
\<close>

definition retBodsInReg :: "Geometry \<Rightarrow> string \<Rightarrow> error + (Entry \<times> Index)" where
  "retBodsInReg g myValue =
     (case fst (retOne EReg (\<lambda>myEntry. echoName myEntry = myValue) (regs g)) of
        Obj (EReg myReg) \<Rightarrow>
          (let myEntry = retBodiesInDef myReg in
           Inr (Names myEntry,
                Idxs (map (\<lambda>findBod.
                        snd (if isALL findBod
                             then (Names (map echoName (bods g)), allIdx (length (bods g)))
                             else retOne EBody (\<lambda>b. echoName b = findBod) (bods g)))
                      myEntry)))
      | _ \<Rightarrow> Inl AttributeError)"

text \<open>
  The index that \<^verbatim>\<open>self.ret("transf",tEntry)\<close> returns for a name of a transformation.
\<close>

definition retTransfIndex :: "Geometry \<Rightarrow> string \<Rightarrow> Index" where
  "retTransfIndex g tEntry =
     snd (if isALL tEntry then (Names (map echoName (tras g)), allIdx (length (tras g)))
          else retOne ETras (\<lambda>myEntry. echoName myEntry = tEntry) (tras g))"

text \<open>
  The singular branches of the three \<^verbatim>\<open>TRANSFLINKEDTO...\<close> selectors, given what the
  lookup of the owner returned and the name of its transformation: \<^verbatim>\<open>lFound\<close> is set to
  \<^verbatim>\<open>myEntry is None\<close>, and an owner that is not found stops the run.
\<close>

definition retLinkedOne ::
  "Geometry \<Rightarrow> Entry \<Rightarrow> bool \<Rightarrow> string \<Rightarrow> error + (Entry \<times> Index)" where
  "retLinkedOne g mE linked tName =
     (if mE \<noteq> PyNone then
        (if linked then
           (let r = (if isALL tName then (Names (map echoName (tras g)), allIdx (length (tras g)))
                     else retOne ETras (\<lambda>myEntry. echoName myEntry = tName) (tras g));
                lFound = (fst r = PyNone)
            in if lFound then Inr r else Inr (PyNone, Idx (- 1)))
         else Inr (PyNone, Idx (- 1)))
      else Inl Exit)"

text \<open>
  \<^verbatim>\<open>ret\<close> itself. The parameter \<^verbatim>\<open>setOrder\<close> is \<^verbatim>\<open>list(set(xs))\<close>: a Python set
  iterates in the order of its hash table, which the language does not fix (the hashes of
  strings change from run to run), so the order is a parameter of the model. In the branch
  \<^verbatim>\<open>BODSINREG\<close> with "ALL" the inner call for a region itself named "ALL" calls the same
  branch again without end, and \<^verbatim>\<open>lFound\<close> is never set.
\<close>

definition ret ::
  "(string list \<Rightarrow> string list) \<Rightarrow> Geometry \<Rightarrow> string \<Rightarrow> string \<Rightarrow> error + (Entry \<times> Index)" where
  "ret setOrder g myKey myValue =
     (case selectorOf myKey of
        None \<Rightarrow> Inl Exit
      | Some BODSINREG \<Rightarrow>
          (if isALL myValue then
             foldl (\<lambda>acc findReg.
                      case acc of
                        Inl e \<Rightarrow> Inl e
                      | Inr u \<Rightarrow>
                          (if isALL findReg then Inl RecursionError
                           else (case retBodsInReg g findReg of
                                   Inl e \<Rightarrow> Inl e
                                 | Inr _ \<Rightarrow> Inr u)))
               (Inr (PyNone, Idx (- 1))) (map echoName (regs g))
           else retBodsInReg g myValue)
      | Some (Direct d) \<Rightarrow> retDirect g d myValue
      | Some TRANSFLINKEDTOBODY \<Rightarrow>
          (if isALL myValue then
             (let myEntry = setOrder (map bodTransfName (filter bodIsLinkedToTransform (bods g)))
              in Inr (Names myEntry, Idxs (map (retTransfIndex g) myEntry)))
           else
             (case fst (retOne EBody (\<lambda>b. echoName b = myValue) (bods g)) of
                Obj (EBody mE) \<Rightarrow>
                  retLinkedOne g (Obj (EBody mE)) (bodIsLinkedToTransform mE) (bodTransfName mE)
              | _ \<Rightarrow> retLinkedOne g PyNone False []))
      | Some TRANSFLINKEDTOLAT \<Rightarrow>
          (if isALL myValue then
             (let myEntry = setOrder (map regTransfName
                              (filter (\<lambda>reg. isLattice reg \<and> regIsLinkedToTransform reg) (regs g)))
              in Inr (Names myEntry, Idxs (map (retTransfIndex g) myEntry)))
           else
             (case fst (retOne EReg (\<lambda>r. latName r = myValue) (regs g)) of
                Obj (EReg mE) \<Rightarrow>
                  retLinkedOne g (Obj (EReg mE)) (regIsLinkedToTransform mE) (regTransfName mE)
              | _ \<Rightarrow> retLinkedOne g PyNone False []))
      | Some TRANSFLINKEDTOUSRBIN \<Rightarrow>
          (if isALL myValue then
             (let myEntry = setOrder (map TransfName (filter binIsLinkedToTransform (bins g)))
              in Inr (Names myEntry, Idxs (map (retTransfIndex g) myEntry)))
           else
             (case fst (retOne EBin (\<lambda>b. echoName b = myValue) (bins g)) of
                Obj (EBin mE) \<Rightarrow>
                  retLinkedOne g (Obj (EBin mE)) (binIsLinkedToTransform mE) (TransfName mE)
              | _ \<Rightarrow> retLinkedOne g PyNone False [])))"

subsection \<open>Name lookups, as the specification describes them\<close>

text \<open>
  For a selector of an entity class, \<^verbatim>\<open>collection\<close> is the ordered collection that the
  lookup runs over and \<^verbatim>\<open>matches\<close> says when an entity of it matches a name: by its
  name, a lattice by its lattice name, a scoring card of a given kind by name and kind.
\<close>

fun collection :: "Geometry \<Rightarrow> Direct \<Rightarrow> Entity list" where
  "collection g BOD = map EBody (bods g)"
| "collection g LAT = map EReg (regs g)"
| "collection g REG = map EReg (regs g)"
| "collection g TRANSF = map ETras (tras g)"
| "collection g BININUNIT = map EBin (bins g)"
| "collection g BIN = map EBin (bins g)"
| "collection g SCO = map ESco (scos g)"
| "collection g USRYIELD = map ESco (scos g)"
| "collection g USRBDX = map ESco (scos g)"
| "collection g USRTRACK = map ESco (scos g)"
| "collection g USRCOLL = map ESco (scos g)"

fun subkind :: "Direct \<Rightarrow> ScoKind option" where
  "subkind USRYIELD = Some Usryield"
| "subkind USRBDX = Some Usrbdx"
| "subkind USRTRACK = Some Usrtrack"
| "subkind USRCOLL = Some Usrcoll"
| "subkind d = None"

definition matches :: "Direct \<Rightarrow> string \<Rightarrow> Entity \<Rightarrow> bool" where
  "matches d v e =
     (case e of
        EBody b \<Rightarrow> d = BOD \<and> name b = v
      | EReg r \<Rightarrow> (d = REG \<and> name r = v) \<or> (d = LAT \<and> latName r = v)
      | ETras t \<Rightarrow> d = TRANSF \<and> name t = v
      | EBin b \<Rightarrow> d = BIN \<and> name b = v
      | ESco s \<Rightarrow> name s = v \<and> (d = SCO \<or> Some (scoKind s) = subkind d))"

text \<open>
  The names of the transformations linked to the owners of a derived relation, in the
  order of the owning collection (with repetitions).
\<close>

fun linkedTransfNames :: "Geometry \<Rightarrow> Selector \<Rightarrow> string list" where
  "linkedTransfNames g TRANSFLINKEDTOBODY =
     map bodTransfName (filter bodIsLinkedToTransform (bods g))"
| "linkedTransfNames g TRANSFLINKEDTOLAT =
     map regTransfName (filter (\<lambda>reg. isLattice reg \<and> regIsLinkedToTransform reg) (regs g))"
| "linkedTransfNames g TRANSFLINKEDTOUSRBIN =
     map TransfName (filter binIsLinkedToTransform (bins g))"
| "linkedTransfNames g s = []"

definition isLinkSelector :: "Selector \<Rightarrow> bool" where
  "isLinkSelector s = (s = TRANSFLINKEDTOBODY \<or> s = TRANSFLINKEDTOLAT \<or> s = TRANSFLINKEDTOUSRBIN)"

text \<open>
  \<^verbatim>\<open>indexOfTransf g n i\<close>: \<^verbatim>\<open>i\<close> is the index of the first transformation named
  \<^verbatim>\<open>n\<close>, or -1 when there is none.
\<close>

definition indexOfTransf :: "Geometry \<Rightarrow> string \<Rightarrow> Index \<Rightarrow> bool" where
  "indexOfTransf g n ix =
     ((ix = Idx (- 1) \<and> n \<notin> set (map name (tras g)))
      \<or> (\<exists>i < length (tras g). ix = Idx (int i) \<and> name (tras g ! i) = n
            \<and> n \<notin> set (map name (take i (tras g)))))"

text \<open>Concrete geometries and two iteration orders of a set of names.\<close>

definition ex_body :: "string \<Rightarrow> string \<Rightarrow> Body" where
  "ex_body n t = \<lparr>name = n, comment = [], bType = ''RPP'', P = (0, 0, 0), V = (0, 0, 1),
                  Rs = [], bodTransfName = t\<rparr>"

definition ex_tras :: "string \<Rightarrow> int \<Rightarrow> Transformation" where
  "ex_tras n i = \<lparr>name = n, comment = [], ID = i, RotDefis = []\<rparr>"

definition ex_sco :: "string \<Rightarrow> ScoKind \<Rightarrow> Scoring" where
  "ex_sco n k = \<lparr>name = n, comment = [], scoKind = k, scoDefinition = []\<rparr>"

definition ex_geo :: Geometry where
  "ex_geo = \<lparr>bods = [ex_body ''B1'' ''T1'', ex_body ''B2'' ''T2'', ex_body ''B3'' ''T1'',
                     ex_body ''B4'' []],
            regs = [(newRegion ''R1'' [])\<lparr>regDefinition := ''+B1 -B2''\<rparr>],
            tras = [ex_tras ''T1'' 1, ex_tras ''T2'' 2],
            bins = [],
            scos = [ex_sco ''Y1'' Usryield, ex_sco ''X1'' Usrbdx, ex_sco ''Y2'' Usryield],
            title = ''example''\<rparr>"

definition firstSeenOrder :: "string list \<Rightarrow> string list" where
  "firstSeenOrder xs = rev (remdups (rev xs))"

definition lastSeenOrder :: "string list \<Rightarrow> string list" where
  "lastSeenOrder xs = remdups xs"

subsection \<open>The zones of a region, as the specification describes them\<close>

text \<open>
  The glossary of the specification: a zone is one union term of a region's boolean
  expression. A line of a definition that starts with \<^verbatim>\<open>*\<close> is a comment (so
  \<^verbatim>\<open>Region.retBodiesInDef\<close> and the parser take it) and is no part of the expression.
  \<^verbatim>\<open>spec_zones\<close> lists the non-empty union terms of a definition, comment lines left
  out; \<^verbatim>\<open>spec_cross_product\<close> is the cross product that the specification asks of a
  merge: every zone of the surviving region concatenated (one blank between) with every
  zone of the absorbed one.
\<close>

definition exprLines :: "string \<Rightarrow> string list" where
  "exprLines d = filter (\<lambda>l. \<not> startswith l ''*'') (py_splitlines d)"

definition spec_zones :: "string \<Rightarrow> string list" where
  "spec_zones d =
     filter (\<lambda>z. z \<noteq> [])
       (map py_strip (py_split_sep (CHR ''|'') (concat (map (\<lambda>l. l @ NL) (exprLines d)))))"

definition spec_cross_product :: "string \<Rightarrow> string \<Rightarrow> string list" where
  "spec_cross_product dMy dNew =
     concat (map (\<lambda>a. map (\<lambda>b. a @ '' '' @ b) (spec_zones dNew)) (spec_zones dMy))"

subsection \<open>The preprocessor of Geometry.fromInp\<close>

text \<open>
  The state that the block "PRE-PROCESSOR" of \<^verbatim>\<open>fromInp\<close> keeps between lines: the
  names defined so far, the stack \<^verbatim>\<open>lReads\<close> of visibility flags and the stack
  \<^verbatim>\<open>lElse\<close> that records, per open block, whether a branch has matched.
\<close>

record PreProc =
  defineFlags :: "string list"
  lReads :: "bool list"
  lElse :: "bool list"

definition initPreProc :: PreProc where
  "initPreProc = \<lparr>defineFlags = [], lReads = [True], lElse = []\<rparr>"

text \<open>\<^verbatim>\<open>data[1]\<close>, \<^verbatim>\<open>xs[-1]\<close>, \<^verbatim>\<open>xs[-1]=v\<close> and \<^verbatim>\<open>xs.pop()\<close>; each raises IndexError out of range.\<close>

definition second :: "'a list \<Rightarrow> error + 'a" where
  "second data = (case data of _ # x # _ \<Rightarrow> Inr x | _ \<Rightarrow> Inl IndexError)"

definition getLast :: "'a list \<Rightarrow> error + 'a" where
  "getLast xs = (if xs = [] then Inl IndexError else Inr (last xs))"

definition setLast :: "'a list \<Rightarrow> 'a \<Rightarrow> error + 'a list" where
  "setLast xs v = (if xs = [] then Inl IndexError else Inr (butlast xs @ [v]))"

definition pop :: "'a list \<Rightarrow> error + 'a list" where
  "pop xs = (if xs = [] then Inl IndexError else Inr (butlast xs))"

text \<open>
  One turn of the loop over the lines, up to and including
  \<^verbatim>\<open>if (not all(lReads)): continue\<close>. The result is the new state and whether the line
  goes on to the section parser; a directive never does.
\<close>

definition preproc :: "PreProc \<Rightarrow> string \<Rightarrow> error + (PreProc \<times> bool)" where
  "preproc st tmpLine =
     (let data = py_split_ws tmpLine in
      if startswith tmpLine ''#define'' then
        (if length data > 2 then Inl Exit
         else (case second data of
                 Inl e \<Rightarrow> Inl e
               | Inr nm \<Rightarrow>
                   Inr (if nm \<notin> set (defineFlags st)
                        then st\<lparr>defineFlags := defineFlags st @ [nm]\<rparr> else st, False)))
      else if startswith tmpLine ''#if'' then
        (case second data of
           Inl e \<Rightarrow> Inl e
         | Inr nm \<Rightarrow>
             Inr (st\<lparr>lReads := lReads st @ [nm \<in> set (defineFlags st)],
                     lElse := lElse st @ [nm \<in> set (defineFlags st)]\<rparr>, False))
      else if startswith tmpLine ''#elif'' then
        (case second data of
           Inl e \<Rightarrow> Inl e
         | Inr nm \<Rightarrow>
             (case setLast (lReads st) (nm \<in> set (defineFlags st)) of
                Inl e \<Rightarrow> Inl e
              | Inr rs \<Rightarrow>
                  (case getLast (lElse st) of
                     Inl e \<Rightarrow> Inl e
                   | Inr b \<Rightarrow>
                       (case setLast (lElse st) (b \<or> nm \<in> set (defineFlags st)) of
                          Inl e \<Rightarrow> Inl e
                        | Inr es \<Rightarrow> Inr (st\<lparr>lReads := rs, lElse := es\<rparr>, False)))))
      else if startswith tmpLine ''#else'' then
        (case getLast (lElse st) of
           Inl e \<Rightarrow> Inl e
         | Inr b \<Rightarrow>
             (case setLast (lReads st) (\<not> b) of
                Inl e \<Rightarrow> Inl e
              | Inr rs \<Rightarrow> Inr (st\<lparr>lReads := rs\<rparr>, False)))
      else if startswith tmpLine ''#end'' then
        (case pop (lReads st) of
           Inl e \<Rightarrow> Inl e
         | Inr rs \<Rightarrow>
             (case pop (lElse st) of
                Inl e \<Rightarrow> Inl e
              | Inr es \<Rightarrow> Inr (st\<lparr>lReads := rs, lElse := es\<rparr>, False)))
      else Inr (st, list_all (\<lambda>b. b) (lReads st)))"

text \<open>
  The lines that reach the section parser, in order (as long as the section parser
  itself does not stop the run).
\<close>

fun activeLines :: "PreProc \<Rightarrow> string list \<Rightarrow> error + string list" where
  "activeLines st [] = Inr []"
| "activeLines st (tmpLine # rest) =
     (case preproc st tmpLine of
        Inl e \<Rightarrow> Inl e
      | Inr p \<Rightarrow>
          (case activeLines (fst p) rest of
             Inl e \<Rightarrow> Inl e
           | Inr ls \<Rightarrow> Inr (if snd p then tmpLine # ls else ls)))"

definition isDirective :: "string \<Rightarrow> bool" where
  "isDirective tmpLine =
     (startswith tmpLine ''#define'' \<or> startswith tmpLine ''#if'' \<or> startswith tmpLine ''#elif''
      \<or> startswith tmpLine ''#else'' \<or> startswith tmpLine ''#end'')"

text \<open>A preprocessor state inside an open block whose first branch did not match.\<close>

definition ex_pre :: PreProc where
  "ex_pre = \<lparr>defineFlags = [''A''], lReads = [True, False], lElse = [False]\<rparr>"

subsection \<open>Geometry.solidTrasform\<close>

text \<open>
  What \<^verbatim>\<open>solidTrasform\<close> uses of the modules that are not among the sources, as
  parameters: \<^verbatim>\<open>Body.rotate\<close> by a matrix, \<^verbatim>\<open>Body.traslate\<close>, the constructor
  \<^verbatim>\<open>RotMat(myAng,myAxis,lDegs)\<close>, \<^verbatim>\<open>RotMat.GetGimbalAngles\<close>, \<^verbatim>\<open>RotMat.inv\<close>,
  \<^verbatim>\<open>Usrbin.move(dd,axes=["X","Y","Z"],lAbs=False)\<close> and \<^verbatim>\<open>GeoObject.headMe\<close> (from
  the current comment and the text to the new comment). \<^verbatim>\<open>'m\<close> is the type of rotation
  matrices. \<^verbatim>\<open>setOrder\<close> is the order in which a set of names iterates.
\<close>

record 'm Externals =
  bodyRotate :: "'m \<Rightarrow> Body \<Rightarrow> Body"
  bodyTraslate :: "vec3 \<Rightarrow> Body \<Rightarrow> Body"
  newRotMat :: "real \<Rightarrow> int \<Rightarrow> bool \<Rightarrow> 'm"
  gimbalAngles :: "'m \<Rightarrow> real list"
  matInv :: "'m \<Rightarrow> 'm"
  binMove :: "vec3 \<Rightarrow> Usrbin \<Rightarrow> Usrbin"
  headMe :: "string \<Rightarrow> string \<Rightarrow> string"
  setOrder :: "string list \<Rightarrow> string list"

text \<open>
  The rotation asked of \<^verbatim>\<open>solidTrasform\<close> by \<^verbatim>\<open>myTheta\<close> and \<^verbatim>\<open>myAxis\<close>: none,
  one angle about one axis, or a list of angles and a list of axes.
\<close>

datatype Angles = NoTheta | Theta real int | Thetas "real list" "int list"

definition vneg :: "vec3 \<Rightarrow> vec3" where
  "vneg d = (- fst d, - fst (snd d), - snd (snd d))"

text \<open>
  Modelled from the spec: \<^verbatim>\<open>Transformation.__init__\<close>, \<^verbatim>\<open>AddRotDefi\<close> and
  \<^verbatim>\<open>AddRotDefis\<close> (transformation.py is not among the sources). Section 4.4: the new
  steps are prepended to the step list of the transformation (\<^verbatim>\<open>iAdd=0\<close>) or appended
  (\<^verbatim>\<open>iAdd=-1\<close>, wrap mode), and the recorded card reads translation first, rotation
  second. A step is added at position \<^verbatim>\<open>iAdd\<close> of the list, -1 meaning its end, and a
  list of steps is added one step at a time: prepending the list that \<^verbatim>\<open>solidTrasform\<close>
  builds, rotation then translation, leaves the translation first.
\<close>

definition newTransformation :: "int \<Rightarrow> string \<Rightarrow> Transformation" where
  "newTransformation myID myName = \<lparr>name = myName, comment = [], ID = myID, RotDefis = []\<rparr>"

definition AddRotDefi :: "int \<Rightarrow> Transformation \<Rightarrow> RotDefi \<Rightarrow> Transformation" where
  "AddRotDefi iAdd t newRotDefi =
     (if iAdd = - 1 then t\<lparr>RotDefis := RotDefis t @ [newRotDefi]\<rparr>
      else t\<lparr>RotDefis := take (nat iAdd) (RotDefis t) @ [newRotDefi] @ drop (nat iAdd) (RotDefis t)\<rparr>)"

definition AddRotDefis :: "RotDefi list \<Rightarrow> int \<Rightarrow> Transformation \<Rightarrow> Transformation" where
  "AddRotDefis newRotDefis iAdd t = foldl (AddRotDefi iAdd) t newRotDefis"

text \<open>
  The first loop of each of the three parts (bodies, LATTICEs, USRBINs): an entity that
  is linked to a transformation has the name collected in \<^verbatim>\<open>tTrasfs\<close> (once), one that
  is not is linked to \<^verbatim>\<open>Tname\<close> and sets \<^verbatim>\<open>lCreate\<close>. The state is the list of
  entities seen so far (updated), \<^verbatim>\<open>tTrasfs\<close> and \<^verbatim>\<open>lCreate\<close>. For the USRBINs,
  \<^verbatim>\<open>traslOnly\<close> is \<^verbatim>\<open>Some dd\<close> when \<^verbatim>\<open>lTraslOnly\<close> holds (only the translation
  \<^verbatim>\<open>dd\<close> was given) and \<^verbatim>\<open>None\<close> otherwise: a USRBIN that is not linked is then
  moved by \<^verbatim>\<open>dd\<close>.
\<close>

definition collect :: "string list \<Rightarrow> string \<Rightarrow> string list" where
  "collect tTrasfs myTname = (if myTname \<notin> set tTrasfs then tTrasfs @ [myTname] else tTrasfs)"

definition linkBod ::
  "string \<Rightarrow> Body list \<times> string list \<times> bool \<Rightarrow> Body \<Rightarrow> Body list \<times> string list \<times> bool" where
  "linkBod Tname s myBod =
     (if bodIsLinkedToTransform myBod
      then (fst s @ [myBod], collect (fst (snd s)) (bodTransfName myBod), snd (snd s))
      else (fst s @ [myBod\<lparr>bodTransfName := Tname\<rparr>], fst (snd s), True))"

definition linkReg ::
  "string \<Rightarrow> Region list \<times> string list \<times> bool \<Rightarrow> Region \<Rightarrow> Region list \<times> string list \<times> bool" where
  "linkReg Tname s myReg =
     (if isLattice myReg then
        (if regIsLinkedToTransform myReg
         then (fst s @ [myReg], collect (fst (snd s)) (regTransfName myReg), snd (snd s))
         else (fst s @ [myReg\<lparr>regTransfName := Tname\<rparr>], fst (snd s), True))
      else (fst s @ [myReg], snd s))"

definition linkBin ::
  "'m Externals \<Rightarrow> string \<Rightarrow> vec3 option \<Rightarrow> Usrbin list \<times> string list \<times> bool \<Rightarrow> Usrbin
     \<Rightarrow> Usrbin list \<times> string list \<times> bool" where
  "linkBin ext Tname traslOnly s myBin =
     (case (if binIsLinkedToTransform myBin then None else traslOnly) of
        Some dd \<Rightarrow> (fst s @ [binMove ext dd myBin], snd s)
      | None \<Rightarrow>
          (if binIsLinkedToTransform myBin
           then (fst s @ [myBin], collect (fst (snd s)) (TransfName myBin), snd (snd s))
           else (fst s @ [myBin\<lparr>TransfName := Tname\<rparr>], fst (snd s), True)))"

text \<open>
  "current transformation alone": when \<^verbatim>\<open>lCreate\<close> is set and no transformation is
  named \<^verbatim>\<open>Tname\<close>, one is added and its name joins \<^verbatim>\<open>tTrasfs\<close>.
\<close>

definition createTransf :: "Geometry \<Rightarrow> string \<Rightarrow> bool \<Rightarrow> string list \<Rightarrow> Geometry \<times> string list" where
  "createTransf g Tname lCreate tTrasfs =
     (if lCreate then
        (case retDirect g TRANSF Tname of
           Inr (PyNone, _) \<Rightarrow>
             (g\<lparr>tras := tras g @ [newTransformation (int (length (tras g)) + 1) Tname]\<rparr>,
              tTrasfs @ [Tname])
         | _ \<Rightarrow> (g, tTrasfs))
      else (g, tTrasfs))"

text \<open>
  \<^verbatim>\<open>myTras,iEntry=self.ret("transf",name)\<close> followed by a method call that changes
  \<^verbatim>\<open>myTras\<close> in place: when the lookup gives \<^verbatim>\<open>None\<close> (or a list of names) the call
  raises.
\<close>

definition withTransf ::
  "Geometry \<Rightarrow> string \<Rightarrow> (Transformation \<Rightarrow> Transformation) \<Rightarrow> error + Geometry" where
  "withTransf g myTrasName f =
     (case retDirect g TRANSF myTrasName of
        Inr (Obj (ETras myTras), Idx iEntry) \<Rightarrow> Inr (g\<lparr>tras := (tras g)[nat iEntry := f myTras]\<rparr>)
      | _ \<Rightarrow> Inl AttributeError)"

fun withTransfs ::
  "Geometry \<Rightarrow> string list \<Rightarrow> (Transformation \<Rightarrow> Transformation) \<Rightarrow> error + Geometry" where
  "withTransfs g [] f = Inr g"
| "withTransfs g (myTrasName # rest) f =
     (case withTransf g myTrasName f of
        Inl e \<Rightarrow> Inl e
      | Inr g' \<Rightarrow> withTransfs g' rest f)"

text \<open>
  The rest of a part, after its first loop: create the transformation if needed, add the
  steps to every transformation of \<^verbatim>\<open>tTrasfs\<close> (\<^verbatim>\<open>wrap\<close> holds the inverse steps that
  the LATTICE part appends in wrap mode), and head the comment.
\<close>

definition recordSteps ::
  "'m Externals \<Rightarrow> Geometry \<Rightarrow> string \<Rightarrow> bool \<Rightarrow> string list \<Rightarrow> RotDefi list
     \<Rightarrow> RotDefi list option \<Rightarrow> string option \<Rightarrow> error + Geometry" where
  "recordSteps ext g Tname lCreate tTrasfs ROTDEFIlist wrap myComment =
     (let c = createTransf g Tname lCreate tTrasfs in
      case withTransfs (fst c) (snd c)
             (\<lambda>myTras. let t1 = AddRotDefis ROTDEFIlist 0 myTras in
                        (case wrap of
                           None \<Rightarrow> t1
                         | Some ROTDEFIlistINV \<Rightarrow> AddRotDefis (rev ROTDEFIlistINV) (- 1) t1)) of
        Inl e \<Rightarrow> Inl e
      | Inr g1 \<Rightarrow>
          (case myComment of
             None \<Rightarrow> Inr g1
           | Some c \<Rightarrow>
               (if lCreate then withTransf g1 Tname (\<lambda>myEntry. myEntry\<lparr>comment := headMe ext (comment myEntry) c\<rparr>)
                else Inr g1)))"

definition bodiesPart ::
  "'m Externals \<Rightarrow> Geometry \<Rightarrow> string \<Rightarrow> RotDefi list \<Rightarrow> string option \<Rightarrow> error + Geometry" where
  "bodiesPart ext g myName ROTDEFIlist myComment =
     (let Tname = myName @ ''_bdy'';
          s = foldl (linkBod Tname) ([], [], False) (bods g)
      in recordSteps ext (g\<lparr>bods := fst s\<rparr>) Tname (snd (snd s)) (fst (snd s)) ROTDEFIlist None myComment)"

definition latticePart ::
  "'m Externals \<Rightarrow> Geometry \<Rightarrow> string \<Rightarrow> RotDefi list \<Rightarrow> RotDefi list \<Rightarrow> bool \<Rightarrow> string option
     \<Rightarrow> error + Geometry" where
  "latticePart ext g myName ROTDEFIlist ROTDEFIlistINV lWrapGeo myComment =
     (let Tname = myName @ ''_lat'';
          s = foldl (linkReg Tname) ([], [], False) (regs g)
      in recordSteps ext (g\<lparr>regs := fst s\<rparr>) Tname (snd (snd s)) (fst (snd s)) ROTDEFIlist
           (if lWrapGeo then Some ROTDEFIlistINV else None) myComment)"

definition usrbinPart ::
  "'m Externals \<Rightarrow> Geometry \<Rightarrow> string \<Rightarrow> RotDefi list \<Rightarrow> vec3 option \<Rightarrow> string option
     \<Rightarrow> error + Geometry" where
  "usrbinPart ext g myName ROTDEFIlist traslOnly myComment =
     (let Tname = myName @ ''_bin'';
          s = foldl (linkBin ext Tname traslOnly) ([], [], False) (bins g)
      in recordSteps ext (g\<lparr>bins := fst s\<rparr>) Tname (snd (snd s)) (fst (snd s)) ROTDEFIlist None myComment)"

text \<open>
  The block under \<^verbatim>\<open>if (len(ROTDEFIlist)>0)\<close>: the bodies (in geometry-directive mode
  only), the LATTICEs, and the USRBINs unless \<^verbatim>\<open>lOnlyGeo\<close>.
\<close>

definition addTransformation ::
  "'m Externals \<Rightarrow> Geometry \<Rightarrow> RotDefi list \<Rightarrow> RotDefi list \<Rightarrow> vec3 option \<Rightarrow> bool
     \<Rightarrow> bool \<Rightarrow> bool \<Rightarrow> string \<Rightarrow> string option \<Rightarrow> error + Geometry" where
  "addTransformation ext g ROTDEFIlist ROTDEFIlistINV traslOnly lGeoDirs lOnlyGeo lWrapGeo
       myName myComment =
     (case (if lGeoDirs then bodiesPart ext g myName ROTDEFIlist myComment else Inr g) of
        Inl e \<Rightarrow> Inl e
      | Inr g1 \<Rightarrow>
          (case latticePart ext g1 myName ROTDEFIlist ROTDEFIlistINV lWrapGeo myComment of
             Inl e \<Rightarrow> Inl e
           | Inr g2 \<Rightarrow>
               (if \<not> lOnlyGeo
                then usrbinPart ext g2 myName ROTDEFIlist traslOnly myComment
                else Inr g2)))"

text \<open>
  The call \<^verbatim>\<open>self.solidTrasform(myTheta=myT,myAxis=myAx,lDegs=...,lGeoDirs=...,
  lOnlyGeo=...,lWrapGeo=...)\<close> that the method makes of itself for each angle of a list:
  one angle, no translation, no matrix, the default name and no comment.
\<close>

definition solidAngle ::
  "'m Externals \<Rightarrow> Geometry \<Rightarrow> real \<Rightarrow> int \<Rightarrow> bool \<Rightarrow> bool \<Rightarrow> bool \<Rightarrow> bool \<Rightarrow> error + Geometry" where
  "solidAngle ext g myTheta myAxis lDegs lGeoDirs lOnlyGeo lWrapGeo =
     (if myTheta \<noteq> 0 then
        (let g1 = (if \<not> lGeoDirs
                   then g\<lparr>bods := map (bodyRotate ext (newRotMat ext myTheta myAxis lDegs)) (bods g)\<rparr>
                   else g)
         in addTransformation ext g1 [Rotation myAxis myTheta]
              (if lWrapGeo then [Rotation myAxis (- myTheta)] else [])
              None lGeoDirs lOnlyGeo lWrapGeo ''ToFinPos'' None)
      else Inr g)"

fun solidAngles ::
  "'m Externals \<Rightarrow> Geometry \<Rightarrow> (real \<times> int) list \<Rightarrow> bool \<Rightarrow> bool \<Rightarrow> bool \<Rightarrow> bool \<Rightarrow> error + Geometry" where
  "solidAngles ext g [] lDegs lGeoDirs lOnlyGeo lWrapGeo = Inr g"
| "solidAngles ext g (p # rest) lDegs lGeoDirs lOnlyGeo lWrapGeo =
     (case solidAngle ext g (fst p) (snd p) lDegs lGeoDirs lOnlyGeo lWrapGeo of
        Inl e \<Rightarrow> Inl e
      | Inr g' \<Rightarrow> solidAngles ext g' rest lDegs lGeoDirs lOnlyGeo lWrapGeo)"

text \<open>
  The first half of \<^verbatim>\<open>solidTrasform\<close>: the rotation, by matrix or by angle(s). It gives
  the geometry with its bodies rotated (unless in geometry-directive mode) and the lists
  \<^verbatim>\<open>ROTDEFIlist\<close> and \<^verbatim>\<open>ROTDEFIlistINV\<close>.
\<close>

definition gimbalSteps :: "real list \<Rightarrow> bool \<Rightarrow> RotDefi list \<times> RotDefi list" where
  "gimbalSteps thetas lWrapGeo =
     (let hits = filter (\<lambda>p. snd p \<noteq> 0) (enumerate 1 thetas) in
      (map (\<lambda>p. Rotation (int (fst p)) (snd p)) hits,
       if lWrapGeo then map (\<lambda>p. Rotation (int (fst p)) (- snd p)) hits else []))"

definition rotationPart ::
  "'m Externals \<Rightarrow> Geometry \<Rightarrow> 'm option \<Rightarrow> Angles \<Rightarrow> bool \<Rightarrow> bool \<Rightarrow> bool \<Rightarrow> bool
     \<Rightarrow> error + (Geometry \<times> RotDefi list \<times> RotDefi list)" where
  "rotationPart ext g myMat ang lDegs lGeoDirs lOnlyGeo lWrapGeo =
     (case myMat of
        Some M \<Rightarrow>
          Inr (if \<not> lGeoDirs then g\<lparr>bods := map (bodyRotate ext M) (bods g)\<rparr> else g,
               gimbalSteps (gimbalAngles ext M) lWrapGeo)
      | None \<Rightarrow>
          (case ang of
             NoTheta \<Rightarrow> Inr (g, [], [])
           | Thetas myTheta myAxis \<Rightarrow>
               (if length myTheta \<noteq> length myAxis then Inl Exit
                else (case solidAngles ext g (zip myTheta myAxis) lDegs lGeoDirs lOnlyGeo lWrapGeo of
                        Inl e \<Rightarrow> Inl e
                      | Inr g' \<Rightarrow> Inr (g', [], [])))
           | Theta myTheta myAxis \<Rightarrow>
               (if myTheta \<noteq> 0 then
                  Inr (if \<not> lGeoDirs
                       then g\<lparr>bods := map (bodyRotate ext (newRotMat ext myTheta myAxis lDegs)) (bods g)\<rparr>
                       else g,
                       [Rotation myAxis myTheta],
                       if lWrapGeo then [Rotation myAxis (- myTheta)] else [])
                else Inr (g, [], []))))"

definition solidTrasform ::
  "'m Externals \<Rightarrow> Geometry \<Rightarrow> vec3 option \<Rightarrow> 'm option \<Rightarrow> Angles \<Rightarrow> bool \<Rightarrow> bool \<Rightarrow> bool
     \<Rightarrow> bool \<Rightarrow> string \<Rightarrow> string option \<Rightarrow> error + Geometry" where
  "solidTrasform ext g dd myMat ang lDegs lGeoDirs lOnlyGeo lWrapGeo myName myComment =
     (if myMat = None \<and> ang = NoTheta \<and> dd = None then Inr g
      else
        (case rotationPart ext g myMat ang lDegs lGeoDirs lOnlyGeo lWrapGeo of
           Inl e \<Rightarrow> Inl e
         | Inr r \<Rightarrow>
             (let g1 = fst r;
                  g2 = (case dd of
                          None \<Rightarrow> g1
                        | Some d \<Rightarrow> if \<not> lGeoDirs then g1\<lparr>bods := map (bodyTraslate ext d) (bods g1)\<rparr>
                                    else g1);
                  ROTDEFIlist = fst (snd r) @ (case dd of None \<Rightarrow> [] | Some d \<Rightarrow> [Translation (vneg d)]);
                  ROTDEFIlistINV = snd (snd r)
                     @ (case dd of None \<Rightarrow> [] | Some d \<Rightarrow> if lWrapGeo then [Translation d] else [])
              in if length ROTDEFIlist > 0
                 then addTransformation ext g2 ROTDEFIlist ROTDEFIlistINV
                        (if myMat = None \<and> ang = NoTheta then dd else None)
                        lGeoDirs lOnlyGeo lWrapGeo myName myComment
                 else Inr g2)))"

text \<open>
  Example externals, in which the only rotation matrix is the identity (type
  \<^verbatim>\<open>unit\<close>), and the geometry of the specification's example: bodies B1 and B2 and a
  region R1 that refers to both; the same with a USRBIN.
\<close>

definition vadd :: "vec3 \<Rightarrow> vec3 \<Rightarrow> vec3" where
  "vadd a b = (fst a + fst b, fst (snd a) + fst (snd b), snd (snd a) + snd (snd b))"

definition ex_ext :: "unit Externals" where
  "ex_ext = \<lparr>bodyRotate = (\<lambda>M b. b),
             bodyTraslate = (\<lambda>d b. b\<lparr>P := vadd (P b) d\<rparr>),
             newRotMat = (\<lambda>a x l. ()),
             gimbalAngles = (\<lambda>M. [0, 0, 0]),
             matInv = (\<lambda>M. ()),
             binMove = (\<lambda>d b. b\<lparr>comment := comment b @ ''* moved''\<rparr>),
             headMe = (\<lambda>c t. t @ NL @ c),
             setOrder = firstSeenOrder\<rparr>"

definition ex_geoB :: Geometry where
  "ex_geoB = \<lparr>bods = [ex_body ''B1'' [], ex_body ''B2'' []],
             regs = [(newRegion ''R1'' [])\<lparr>regDefinition := ''+B1 -B2''\<rparr>],
             tras = [], bins = [], scos = [], title = ''example''\<rparr>"

definition ex_bin :: Usrbin where
  "ex_bin = \<lparr>name = ''EneDep'', comment = [], binDefinition = [], TransfName = []\<rparr>"

definition ex_geoU :: Geometry where
  "ex_geoU = ex_geoB\<lparr>bins := [ex_bin]\<rparr>"

subsection \<open>Vocabulary for the cards that solidTrasform records\<close>

text \<open>
  \<^verbatim>\<open>cardsNamed\<close> lists the transformations of a geometry that carry a given name.
  A transform link \<^verbatim>\<open>resolves\<close> when \<^verbatim>\<open>ret("transf",name)\<close> finds a transformation
  for it: a transformation of that name exists, and the name does not read "ALL".
  \<^verbatim>\<open>linksResolve\<close>: every link that \<^verbatim>\<open>solidTrasform\<close> follows resolves, that is the
  links of the bodies, of the LATTICE regions, and of the USRBINs unless
  \<^verbatim>\<open>lOnlyGeo\<close>. \<^verbatim>\<open>relinkBod\<close>, \<^verbatim>\<open>relinkReg\<close> and \<^verbatim>\<open>relinkBin\<close> are what the
  first loop of each part does to one entity, and \<^verbatim>\<open>collects\<close> the names it gathers.
\<close>

definition cardsNamed :: "Geometry \<Rightarrow> string \<Rightarrow> Transformation list" where
  "cardsNamed g T = filter (\<lambda>t. name t = T) (tras g)"

definition resolves :: "Geometry \<Rightarrow> string \<Rightarrow> bool" where
  "resolves g n = (\<not> isALL n \<and> n \<in> set (map name (tras g)))"

definition bodLinks :: "Geometry \<Rightarrow> string list" where
  "bodLinks g = map bodTransfName (filter bodIsLinkedToTransform (bods g))"

definition latLinks :: "Geometry \<Rightarrow> string list" where
  "latLinks g = map regTransfName (filter (\<lambda>r. isLattice r \<and> regIsLinkedToTransform r) (regs g))"

definition binLinks :: "Geometry \<Rightarrow> string list" where
  "binLinks g = map TransfName (filter binIsLinkedToTransform (bins g))"

definition linksResolve :: "Geometry \<Rightarrow> bool \<Rightarrow> bool" where
  "linksResolve g lOnlyGeo =
     (list_all (resolves g) (bodLinks g) \<and> list_all (resolves g) (latLinks g)
      \<and> (lOnlyGeo \<or> list_all (resolves g) (binLinks g)))"

definition relinkBod :: "string \<Rightarrow> Body \<Rightarrow> Body" where
  "relinkBod T b = (if bodIsLinkedToTransform b then b else b\<lparr>bodTransfName := T\<rparr>)"

definition relinkReg :: "string \<Rightarrow> Region \<Rightarrow> Region" where
  "relinkReg T r = (if isLattice r \<and> \<not> regIsLinkedToTransform r then r\<lparr>regTransfName := T\<rparr> else r)"

definition relinkBin :: "string \<Rightarrow> Usrbin \<Rightarrow> Usrbin" where
  "relinkBin T b = (if binIsLinkedToTransform b then b else b\<lparr>TransfName := T\<rparr>)"

definition collects :: "string list \<Rightarrow> string list \<Rightarrow> string list" where
  "collects tTrasfs ns = foldl collect tTrasfs ns"

text \<open>
  Proof vocabulary. \<^verbatim>\<open>keeps\<close>: what an update of one transformation in place leaves
  as it is, when the update keeps the name. \<^verbatim>\<open>grows\<close>: the same, when transformations
  may have been added.
\<close>

definition keeps :: "Geometry \<Rightarrow> Geometry \<Rightarrow> bool" where
  "keeps g g' = (bods g' = bods g \<and> regs g' = regs g \<and> bins g' = bins g
                 \<and> map name (tras g') = map name (tras g))"

definition grows :: "Geometry \<Rightarrow> Geometry \<Rightarrow> bool" where
  "grows g g' = (bods g' = bods g \<and> regs g' = regs g \<and> bins g' = bins g
                 \<and> set (map name (tras g)) \<subseteq> set (map name (tras g')))"

text \<open>
  A geometry in which one body is linked to an existing transformation T0 (which has a
  step already), another is not linked, a USRBIN is linked to T0 too and another USRBIN is
  not linked.
\<close>

definition ex_geoM :: Geometry where
  "ex_geoM = \<lparr>bods = [ex_body ''B1'' ''T0'', ex_body ''B2'' []],
             regs = [(newRegion ''R1'' [])\<lparr>regDefinition := ''+B1 -B2''\<rparr>],
             tras = [\<lparr>name = ''T0'', comment = [], ID = 1, RotDefis = [Rotation 1 30]\<rparr>],
             bins = [ex_bin\<lparr>TransfName := ''T0''\<rparr>, ex_bin\<lparr>name := ''Dose''\<rparr>],
             scos = [], title = ''example''\<rparr>"

subsection \<open>Geometry.BuildGriddedGeo\<close>

text \<open>
  Modelled from the spec: the placements of module grid (not among the sources). A
  placement is a 3-D point plus a rotation, given as a list of angles with a list of axes
  or as a matrix; \<^verbatim>\<open>myLoc.ret("POINT")\<close>, \<^verbatim>\<open>"ANGLE"\<close>, \<^verbatim>\<open>"AXIS"\<close> and
  \<^verbatim>\<open>"MATRIX"\<close> read its parts, and a grid is the ordered sequence of placements, of
  which \<^verbatim>\<open>myGrid.ret(what="LOC",iEl=k)\<close> is the k-th.
\<close>

record 'm Location =
  POINT :: vec3
  ANGLE :: "real list"
  AXIS :: "int list"
  MATRIX :: 'm

definition gridLoc :: "'m Location list \<Rightarrow> int \<Rightarrow> error + 'm Location" where
  "gridLoc myGrid iEl =
     (if 0 \<le> iEl \<and> iEl < int (length myGrid) then Inr (myGrid ! nat iEl) else Inl IndexError)"

definition namesOf :: "error + (Entry \<times> Index) \<Rightarrow> string list" where
  "namesOf r = (case r of Inr (Names ns, _) \<Rightarrow> ns | _ \<Rightarrow> [])"

text \<open>
  \<^verbatim>\<open>ActualCopy\<close> and \<^verbatim>\<open>LatticeCopy\<close>, called with a prototype and
  \<^verbatim>\<open>lTrigScoring\<close> only. Popping, from the last index down, every transformation whose
  name fails the test leaves the others in their order.
\<close>

definition ActualCopy :: "'m Externals \<Rightarrow> Geometry \<Rightarrow> bool \<Rightarrow> Geometry" where
  "ActualCopy ext myGeo lTrigScoring =
     (let bodTrasfNames = namesOf (ret (setOrder ext) myGeo ''TRANSFLINKEDTOBODY'' ''ALL'');
          myTras = (if lTrigScoring then tras myGeo
                    else filter (\<lambda>myT. echoName myT \<in> set bodTrasfNames) (tras myGeo))
      in \<lparr>bods = bods myGeo, regs = regs myGeo, tras = myTras,
          bins = (if lTrigScoring then bins myGeo else []),
          scos = (if lTrigScoring then scos myGeo else []),
          title = title myGeo\<rparr>)"

definition LatticeCopy :: "'m Externals \<Rightarrow> Geometry \<Rightarrow> bool \<Rightarrow> Geometry" where
  "LatticeCopy ext myGeo lTrigScoring =
     (let myReg = (newRegion ''LATREG'' [])\<lparr>latName := ''LATREG'', material := ''VACUUM''\<rparr>;
          binTrasfNames = namesOf (ret (setOrder ext) myGeo ''TRANSFLINKEDTOUSRBIN'' ''ALL'');
          myTras = (if lTrigScoring then tras myGeo
                    else filter (\<lambda>myT. echoName myT \<notin> set binTrasfNames) (tras myGeo))
      in \<lparr>bods = [], regs = [myReg], tras = myTras,
          bins = (if lTrigScoring then bins myGeo else []),
          scos = (if lTrigScoring then scos myGeo else []),
          title = ''LATTICE of '' @ title myGeo\<rparr>)"

text \<open>\<^verbatim>\<open>flagRegs\<close> for a list of region names.\<close>

definition flagReg :: "int \<Rightarrow> vec3 \<Rightarrow> Geometry \<Rightarrow> string \<Rightarrow> error + Geometry" where
  "flagReg c cent g whichReg =
     (case retDirect g REG whichReg of
        Inr (Obj (EReg outReg), Idx iReg) \<Rightarrow>
          Inr (g\<lparr>regs := (regs g)[nat iReg := initCont outReg c cent 0]\<rparr>)
      | _ \<Rightarrow> Inl AttributeError)"

fun flagEach :: "int \<Rightarrow> vec3 \<Rightarrow> Geometry \<Rightarrow> string list \<Rightarrow> error + Geometry" where
  "flagEach c cent g [] = Inr g"
| "flagEach c cent g (whichReg # rest) =
     (case flagReg c cent g whichReg of
        Inl e \<Rightarrow> Inl e
      | Inr g' \<Rightarrow> flagEach c cent g' rest)"

definition flagRegs :: "Geometry \<Rightarrow> string list \<Rightarrow> int \<Rightarrow> vec3 \<Rightarrow> error + Geometry" where
  "flagRegs g whichRegs c cent =
     flagEach c cent g
       (if ''ALL'' \<in> set (map upper whichRegs) then map echoName (regs g) else whichRegs)"

text \<open>
  "move clone to requested location/orientation": the calls of \<^verbatim>\<open>solidTrasform\<close> for
  the placement \<^verbatim>\<open>iLoc\<close>. \<^verbatim>\<open>seen\<close> is \<^verbatim>\<open>protoSeen[myProtoList[iLoc]]\<close>, the
  placement at which the prototype was used first (read in lattice mode only).
\<close>

definition bindG :: "error + Geometry \<Rightarrow> (Geometry \<Rightarrow> error + Geometry) \<Rightarrow> error + Geometry" where
  "bindG r f = (case r of Inl e \<Rightarrow> Inl e | Inr g \<Rightarrow> f g)"

definition moveClone ::
  "'m Externals \<Rightarrow> 'm Location list \<Rightarrow> bool \<Rightarrow> bool \<Rightarrow> nat \<Rightarrow> int \<Rightarrow> 'm Location \<Rightarrow> Geometry
     \<Rightarrow> error + Geometry" where
  "moveClone ext myGrid lLattice lGeoDirs iLoc seen myLoc myGeo =
     (if length (ANGLE myLoc) > 0 then
        bindG
          (if lLattice \<and> int iLoc \<noteq> seen then
             (case gridLoc myGrid seen of
                Inl e \<Rightarrow> Inl e
              | Inr protoLoc \<Rightarrow>
                  bindG (solidTrasform ext myGeo (Some (vneg (POINT protoLoc))) None NoTheta
                           True lGeoDirs True False ''ToFinPos'' None)
                    (\<lambda>g1. solidTrasform ext g1 None None
                            (Thetas (map uminus (rev (ANGLE protoLoc))) (rev (AXIS protoLoc)))
                            True lGeoDirs True False ''ToFinPos'' None))
           else Inr myGeo)
          (\<lambda>g2. solidTrasform ext g2 (Some (POINT myLoc)) None (Thetas (ANGLE myLoc) (AXIS myLoc))
                  True lGeoDirs False False ''ToFinPos'' None)
      else
        bindG
          (if lLattice \<and> int iLoc \<noteq> seen then
             (case gridLoc myGrid (int iLoc) of
                Inl e \<Rightarrow> Inl e
              | Inr protoLoc \<Rightarrow>
                  bindG (solidTrasform ext myGeo (Some (vneg (POINT protoLoc))) None NoTheta
                           True lGeoDirs False False ''ToFinPos'' None)
                    (\<lambda>g1. solidTrasform ext g1 None (Some (matInv ext (MATRIX protoLoc))) NoTheta
                            True lGeoDirs True False ''ToFinPos'' None))
           else Inr myGeo)
          (\<lambda>g2. solidTrasform ext g2 (Some (POINT myLoc)) (Some (MATRIX myLoc)) NoTheta
                  True lGeoDirs False False ''ToFinPos'' None))"

text \<open>
  One turn of the loop over the placements, up to the flagging of the regions: the clone
  (a full copy at the first use of the prototype, or when not in lattice mode; the
  LATTICE stand-in otherwise), its move and its flags. The result is the new
  \<^verbatim>\<open>protoSeen\<close> and the geometry of the placement.
\<close>

definition listGet :: "'a list \<Rightarrow> nat \<Rightarrow> error + 'a" where
  "listGet xs i = (if i < length xs then Inr (xs ! i) else Inl IndexError)"

definition placePrototype ::
  "'m Externals \<Rightarrow> 'm Location list \<Rightarrow> string list \<Rightarrow> (string \<rightharpoonup> Geometry) \<Rightarrow> string list
     \<Rightarrow> bool \<Rightarrow> bool list \<Rightarrow> bool \<Rightarrow> (string \<rightharpoonup> int) \<Rightarrow> nat
     \<Rightarrow> error + ((string \<rightharpoonup> int) \<times> Geometry)" where
  "placePrototype ext myGrid myProtoList myProtoGeos osRegNames lLattice lTrigScoring lGeoDirs
       protoSeen iLoc =
     (case listGet myProtoList iLoc of
        Inl e \<Rightarrow> Inl e
      | Inr key \<Rightarrow>
          (case myProtoGeos key of
             None \<Rightarrow> Inl Exit
           | Some proto \<Rightarrow>
               (case listGet lTrigScoring iLoc of
                  Inl e \<Rightarrow> Inl e
                | Inr trig \<Rightarrow>
                    (let first = (\<not> lLattice \<or> protoSeen key = Some (- 1));
                         myGeo = (if first then ActualCopy ext proto trig
                                  else LatticeCopy ext proto trig);
                         protoSeen' = (if first \<and> lLattice then protoSeen(key \<mapsto> int iLoc)
                                       else protoSeen);
                         seen = (case protoSeen' key of None \<Rightarrow> - 1 | Some k \<Rightarrow> k);
                         myLoc = myGrid ! iLoc
                     in case bindG (moveClone ext myGrid lLattice lGeoDirs iLoc seen myLoc myGeo)
                               (\<lambda>g. if \<not> lLattice \<or> int iLoc = seen
                                     then flagRegs g osRegNames (- 1) (POINT myLoc)
                                     else flagRegs g [''LATREG''] (- 1) (POINT myLoc)) of
                          Inl e \<Rightarrow> Inl e
                        | Inr g \<Rightarrow> Inr (protoSeen', g)))))"

text \<open>
  The loop. \<^verbatim>\<open>relabel\<close> stands for the last steps of a turn, \<^verbatim>\<open>myGeo.rename(baseName)\<close>
  and \<^verbatim>\<open>myGeo.headMe(...)\<close>, which rest on helpers of module FLUKA that are not among
  the sources; it is a parameter.
\<close>

fun griddedLoop ::
  "'m Externals \<Rightarrow> (nat \<Rightarrow> Geometry \<Rightarrow> error + Geometry) \<Rightarrow> 'm Location list \<Rightarrow> string list
     \<Rightarrow> (string \<rightharpoonup> Geometry) \<Rightarrow> string list \<Rightarrow> bool \<Rightarrow> bool list \<Rightarrow> bool
     \<Rightarrow> (string \<rightharpoonup> int) \<Rightarrow> nat list \<Rightarrow> error + Geometry list" where
  "griddedLoop ext relabel myGrid myProtoList myProtoGeos osRegNames lLattice lTrigScoring lGeoDirs
       protoSeen [] = Inr []"
| "griddedLoop ext relabel myGrid myProtoList myProtoGeos osRegNames lLattice lTrigScoring lGeoDirs
       protoSeen (iLoc # rest) =
     (case placePrototype ext myGrid myProtoList myProtoGeos osRegNames lLattice lTrigScoring
             lGeoDirs protoSeen iLoc of
        Inl e \<Rightarrow> Inl e
      | Inr p \<Rightarrow>
          (case relabel iLoc (snd p) of
             Inl e \<Rightarrow> Inl e
           | Inr myGeo \<Rightarrow>
               (case griddedLoop ext relabel myGrid myProtoList myProtoGeos osRegNames lLattice
                       lTrigScoring lGeoDirs (fst p) rest of
                  Inl e \<Rightarrow> Inl e
                | Inr myGeos \<Rightarrow> Inr (myGeo # myGeos))))"

definition BuildGriddedGeo ::
  "'m Externals \<Rightarrow> (nat \<Rightarrow> Geometry \<Rightarrow> error + Geometry) \<Rightarrow> 'm Location list \<Rightarrow> string list
     \<Rightarrow> (string \<rightharpoonup> Geometry) \<Rightarrow> string list \<Rightarrow> bool \<Rightarrow> bool list \<Rightarrow> bool
     \<Rightarrow> error + Geometry list" where
  "BuildGriddedGeo ext relabel myGrid myProtoList myProtoGeos osRegNames lLattice lTrigScoring
       lGeoDirs =
     griddedLoop ext relabel myGrid myProtoList myProtoGeos osRegNames lLattice lTrigScoring lGeoDirs
       (\<lambda>key. if key \<in> dom myProtoGeos then Some (- 1) else None) [0..<length myGrid]"

text \<open>
  Two placements of one prototype, the second offset by (5,0,0) from the first, without
  rotation: once given by matrices (the identity), once by an angle of zero about axis 3.
\<close>

definition ex_protos :: "string \<rightharpoonup> Geometry" where
  "ex_protos = [''P'' \<mapsto> ex_geoB]"

definition ex_gridM :: "unit Location list" where
  "ex_gridM = [\<lparr>POINT = (1, 0, 0), ANGLE = [], AXIS = [], MATRIX = ()\<rparr>,
              \<lparr>POINT = (6, 0, 0), ANGLE = [], AXIS = [], MATRIX = ()\<rparr>]"

definition ex_gridA :: "unit Location list" where
  "ex_gridA = [\<lparr>POINT = (1, 0, 0), ANGLE = [0], AXIS = [3], MATRIX = ()\<rparr>,
              \<lparr>POINT = (6, 0, 0), ANGLE = [0], AXIS = [3], MATRIX = ()\<rparr>]"

definition ex_relabel :: "nat \<Rightarrow> Geometry \<Rightarrow> error + Geometry" where
  "ex_relabel iLoc g = Inr g"

definition ex_standin :: "RotDefi list \<Rightarrow> vec3 \<Rightarrow> Geometry" where
  "ex_standin steps cent =
     \<lparr>bods = [],
      regs = [(newRegion ''LATREG'' [])\<lparr>latName := ''LATREG'', material := ''VACUUM'',
                 regTransfName := ''ToFinPos_lat'', rCont := - 1, rCent := cent\<rparr>],
      tras = [\<lparr>name = ''ToFinPos_lat'', comment = [], ID = 1, RotDefis = steps\<rparr>],
      bins = [], scos = [], title = ''LATTICE of example''\<rparr>"

text \<open>The sum of the translation steps of a chain (its net translation when no step rotates).\<close>

fun netTranslation :: "RotDefi list \<Rightarrow> vec3" where
  "netTranslation [] = (0, 0, 0)"
| "netTranslation (Translation d # rest) = vadd d (netTranslation rest)"
| "netTranslation (Rotation a t # rest) = netTranslation rest"

section \<open>Properties of Region.merge\<close>

lemma writePieces_snoc:
  "cz \<noteq> [] \<Longrightarrow> writePieces sp (cz @ [p]) = writePieces sp cz @ NL @ fst p @ NL @ sp @ ''| '' @ snd p"
  by (cases cz) (simp_all add: contPieces_def)

lemma merge_inner_emitted:
  assumes "emitted sp st cz"
  shows "emitted sp (merge_inner tailMe nn mn sp ii a st q)
           (cz @ (if py_strip (snd q) \<noteq> [] then [(mergeNote nn mn (fst q) ii, a @ '' '' @ py_strip (snd q))] else []))"
proof (cases "py_strip (snd q) = []")
  case True
  with assms show ?thesis by (simp add: merge_inner_def)
next
  case False
  show ?thesis
  proof (cases "lFirst st")
    case True
    with assms have "cz = []" by (simp add: emitted_def)
    with True False show ?thesis
      by (simp add: merge_inner_def emitted_def Let_def contPieces_def)
  next
    case nf: False
    with assms have ne: "cz \<noteq> []" and md: "mergedDef st = writePieces sp cz"
      by (simp_all add: emitted_def)
    from nf False ne md show ?thesis
      by (simp add: merge_inner_def emitted_def Let_def writePieces_snoc)
  qed
qed

lemma hitsOf_Cons:
  "hitsOf (q # ps) = (if py_strip (snd q) \<noteq> [] then [(fst q, py_strip (snd q))] else []) @ hitsOf ps"
  by (simp add: hitsOf_def)

lemma inner_loop_emitted:
  "emitted sp st cz \<Longrightarrow>
   emitted sp (foldl (merge_inner tailMe nn mn sp ii a) st ps)
     (cz @ map (\<lambda>q. (mergeNote nn mn (fst q) ii, a @ '' '' @ snd q)) (hitsOf ps))"
proof (induction ps arbitrary: st cz)
  case Nil
  then show ?case by (simp add: hitsOf_def)
next
  case (Cons q ps)
  from merge_inner_emitted [OF Cons.prems, of tailMe nn mn ii a q]
  have "emitted sp (merge_inner tailMe nn mn sp ii a st q)
          (cz @ (if py_strip (snd q) \<noteq> [] then [(mergeNote nn mn (fst q) ii, a @ '' '' @ py_strip (snd q))] else []))" .
  from Cons.IH [OF this] show ?case
    by (cases "py_strip (snd q) = []") (simp_all add: hitsOf_Cons)
qed

lemma merge_outer_emitted:
  assumes "emitted sp st cz"
  shows "emitted sp (merge_outer tailMe nn mn sp zs st p)
           (cz @ (if py_strip (snd p) \<noteq> []
                  then map (\<lambda>q. (mergeNote nn mn (fst q) (fst p), py_strip (snd p) @ '' '' @ snd q))
                         (hitsOf (enumerate 1 zs))
                  else []))"
  using assms inner_loop_emitted [OF assms, of tailMe nn mn "fst p" "py_strip (snd p)" "enumerate 1 zs"]
  by (simp add: merge_outer_def Let_def)

lemma outer_loop_emitted:
  "emitted sp st cz \<Longrightarrow>
   emitted sp (foldl (merge_outer tailMe nn mn sp zs) st ps)
     (cz @ concat (map (\<lambda>p. map (\<lambda>q. (mergeNote nn mn (fst q) (fst p), snd p @ '' '' @ snd q))
                                (hitsOf (enumerate 1 zs)))
                       (hitsOf ps)))"
proof (induction ps arbitrary: st cz)
  case Nil
  then show ?case by (simp add: hitsOf_def)
next
  case (Cons p ps)
  from Cons.IH [OF merge_outer_emitted [OF Cons.prems, of tailMe nn mn zs p]]
  show ?case by (cases "py_strip (snd p) = []") (simp_all add: hitsOf_Cons)
qed

lemma pieceHits_hitsOf: "pieceHits d = hitsOf (enumerate 1 (py_split_sep (CHR ''|'') d))"
  by (simp add: pieceHits_def hitsOf_def)

lemma map_snd_hitsOf: "map snd (hitsOf ps) = filter (\<lambda>z. z \<noteq> []) (map py_strip (map snd ps))"
  by (induction ps) (simp_all add: hitsOf_def)

lemma mergedDef_outer_loop:
  "mergedDef (foldl (merge_outer tailMe nn mn sp (py_split_sep (CHR ''|'') dNew))
                \<lparr>mComment = c, mergedDef = [], lFirst = True\<rparr>
                (enumerate (Suc 0) (py_split_sep (CHR ''|'') dMy)))
     = writePieces sp (mergedPieces nn mn dMy dNew)"
proof -
  have "emitted sp \<lparr>mComment = c, mergedDef = [], lFirst = True\<rparr> []"
    by (simp add: emitted_def)
  from outer_loop_emitted [OF this, of tailMe nn mn
         "py_split_sep (CHR ''|'') dNew" "enumerate 1 (py_split_sep (CHR ''|'') dMy)"]
  show ?thesis
    by (simp add: emitted_def mergedPieces_def pieceHits_hitsOf)
qed

text \<open>
  The definition that \<^verbatim>\<open>merge\<close> leaves, for any two regions: the text of the pairs of
  pieces, in the order of the two loops (surviving region outermost).
\<close>

lemma mergedDef_merge:
  "regDefinition (merge tailMe self newReg sp)
     = writePieces sp (mergedPieces (echoName newReg) (echoName self) (regDefinition self) (regDefinition newReg))"
  by (simp add: merge_def Let_def initCont_def mergedDef_outer_loop)

text \<open>
  On two regions without comment lines in their definitions the zones after the merge are
  the cross product, and the neighbour count is the sum.
\<close>

lemma merge_cross_product_example:
  "spec_zones (regDefinition (merge ex_tailMe ex_surviving ex_absorbed spacing16))
     = [''+A -C'', ''+A -D'', ''+B -C'', ''+B -D'']
   \<and> spec_cross_product (regDefinition ex_surviving) (regDefinition ex_absorbed)
     = [''+A -C'', ''+A -D'', ''+B -C'', ''+B -D'']
   \<and> neigh (merge ex_tailMe ex_surviving ex_absorbed spacing16) = 12"
  by code_simp

text \<open>
  Claim C3 asks that \<^verbatim>\<open>Region.merge\<close> leave in the surviving region the cross product
  of the non-empty zones of the two regions, each zone of the result being the
  concatenation of its two source zones, and the sum of the two neighbour counts. The code
  at a surviving region of two zones \<^verbatim>\<open>+A -B\<close> and \<^verbatim>\<open>+C\<close> with a comment line between
  them, merged with a region of the one zone \<^verbatim>\<open>-E\<close>: the piece that \<^verbatim>\<open>split("|")\<close>
  gives for the first zone ends with the comment line, so the absorbed zone is written onto
  the comment line. The first zone of the result is still \<^verbatim>\<open>+A -B\<close>, not
  \<^verbatim>\<open>+A -B -E\<close>: the zones of the result are not the cross product. The neighbour count
  is the sum.
\<close>

theorem merge_writes_zone_on_comment_line:
  "regDefinition (merge ex_tailMe ex_commented ex_single spacing16)
     = ''| +A -B'' @ NL @ ''* second zone -E'' @ NL @ ''* merging zone N:1 into S:3'' @ NL
         @ ''                | +C -E''
   \<and> spec_zones (regDefinition (merge ex_tailMe ex_commented ex_single spacing16))
     = [''+A -B'', ''+C -E'']
   \<and> spec_cross_product (regDefinition ex_commented) (regDefinition ex_single)
     = [''+A -B -E'', ''+C -E'']
   \<and> neigh (merge ex_tailMe ex_commented ex_single spacing16) = 10"
  by code_simp

text \<open>
  \<^verbatim>\<open>merge\<close> writes such comment lines itself: a region that has absorbed one region and
  then absorbs another loses the second absorbed zone in all its zones but the last.
\<close>

lemma merge_twice_loses_zones:
  "spec_zones (regDefinition
       (merge ex_tailMe (merge ex_tailMe ex_surviving ex_absorbed spacing16) ex_single spacing16))
     = [''+A -C'', ''+A -D'', ''+B -C'', ''+B -D -E'']
   \<and> spec_cross_product
       (regDefinition (merge ex_tailMe ex_surviving ex_absorbed spacing16)) (regDefinition ex_single)
     = [''+A -C -E'', ''+A -D -E'', ''+B -C -E'', ''+B -D -E'']"
  by code_simp

text \<open>
  Claim C9. After \<^verbatim>\<open>Region.merge\<close> the containment state of the surviving region is
  reset, whatever the two regions were: the containment tag is 0, the centre is the
  origin and the maximum length is 0. (\<^verbatim>\<open>merge\<close> ends with \<^verbatim>\<open>self.initCont()\<close>;
  the default centre is one shared array, which no code of the sources changes in place.)
\<close>

theorem merge_resets_containment:
  "rCont (merge tailMe self newReg sp) = 0
   \<and> rCent (merge tailMe self newReg sp) = (0, 0, 0)
   \<and> rMaxLen (merge tailMe self newReg sp) = 0"
  by (simp add: merge_def Let_def initCont_def)


section \<open>Properties of MapContRegs\<close>

lemma firstForEach_Cons: "firstForEach (x # xs) ys = Inr (replicate (length ys) x)"
  by (cases ys) (simp_all add: firstForEach_def map_replicate_const)

lemma firstForEach_Nil2: "firstForEach xs [] = Inr []"
  by (simp add: firstForEach_def)

text \<open>
  Claim C4, as the code has it. With m regions tagged +1 in the container geometry and
  n regions tagged -1 in the contained geometry, \<^verbatim>\<open>MapContRegs\<close> stops the run when
  m > 1 and n > 1; when n = 1 and m \<ge> 1 it returns map type "oneGrid" with m pairs that
  all share the index of the single contained region; when m = 1 and n is not 1 it
  returns map type "oneHive" with n pairs that all share the index of the single
  container region. (One container against one contained region is "oneGrid", the branch
  tested first.)
\<close>

theorem MapContRegs_cardinality:
  "(length (flaggedRegs 1 (regs C)) > 1 \<and> length (flaggedRegs (- 1) (regs D)) > 1
      \<longrightarrow> MapContRegs C D = Inl Exit)
   \<and> (length (flaggedRegs 1 (regs C)) \<ge> 1 \<and> flaggedRegs (- 1) (regs D) = [k]
      \<longrightarrow> MapContRegs C D =
            Inr ([C], [D],
                 \<lparr>iRhg = flaggedRegs 1 (regs C),
                  jRhg = replicate (length (flaggedRegs 1 (regs C))) 0,
                  iRgg = replicate (length (flaggedRegs 1 (regs C))) k,
                  jRgg = replicate (length (flaggedRegs 1 (regs C))) 0\<rparr>,
                 ''oneGrid''))
   \<and> (flaggedRegs 1 (regs C) = [h] \<and> length (flaggedRegs (- 1) (regs D)) \<noteq> 1
      \<longrightarrow> MapContRegs C D =
            Inr ([C], [D],
                 \<lparr>iRhg = replicate (length (flaggedRegs (- 1) (regs D))) h,
                  jRhg = replicate (length (flaggedRegs (- 1) (regs D))) 0,
                  iRgg = flaggedRegs (- 1) (regs D),
                  jRgg = replicate (length (flaggedRegs (- 1) (regs D))) 0\<rparr>,
                 ''oneHive''))"
proof (intro conjI impI)
  assume "length (flaggedRegs 1 (regs C)) > 1 \<and> length (flaggedRegs (- 1) (regs D)) > 1"
  then show "MapContRegs C D = Inl Exit"
    by (simp add: MapContRegs_def Let_def)
next
  assume a: "length (flaggedRegs 1 (regs C)) \<ge> 1 \<and> flaggedRegs (- 1) (regs D) = [k]"
  then show "MapContRegs C D =
            Inr ([C], [D],
                 \<lparr>iRhg = flaggedRegs 1 (regs C),
                  jRhg = replicate (length (flaggedRegs 1 (regs C))) 0,
                  iRgg = replicate (length (flaggedRegs 1 (regs C))) k,
                  jRgg = replicate (length (flaggedRegs 1 (regs C))) 0\<rparr>,
                 ''oneGrid'')"
    by (simp add: MapContRegs_def Let_def firstForEach_Cons map_replicate_const)
next
  assume a: "flaggedRegs 1 (regs C) = [h] \<and> length (flaggedRegs (- 1) (regs D)) \<noteq> 1"
  then show "MapContRegs C D =
            Inr ([C], [D],
                 \<lparr>iRhg = replicate (length (flaggedRegs (- 1) (regs D))) h,
                  jRhg = replicate (length (flaggedRegs (- 1) (regs D))) 0,
                  iRgg = flaggedRegs (- 1) (regs D),
                  jRgg = replicate (length (flaggedRegs (- 1) (regs D))) 0\<rparr>,
                 ''oneHive'')"
    by (simp add: MapContRegs_def Let_def firstForEach_Cons map_replicate_const)
qed

lemma ex_flags:
  "flaggedRegs 1 (regs ex_hive1) = [1]" "flaggedRegs 1 (regs ex_hive3) = [0, 1, 2]"
  "flaggedRegs (- 1) (regs ex_grid1) = [0]" "flaggedRegs (- 1) (regs ex_grid3) = [0, 1, 3]"
  by (simp_all add: flaggedRegs_def ex_hive1_def ex_hive3_def ex_grid1_def ex_grid3_def
        newGeometry_def ex_flagged_def newRegion_def enumerate_eq_zip upt_rec)

theorem MapContRegs_cardinality_witness:
  "MapContRegs ex_hive3 ex_grid3 = Inl Exit
   \<and> MapContRegs ex_hive3 ex_grid1 =
       Inr ([ex_hive3], [ex_grid1],
            \<lparr>iRhg = [0, 1, 2], jRhg = [0, 0, 0], iRgg = [0, 0, 0], jRgg = [0, 0, 0]\<rparr>, ''oneGrid'')
   \<and> MapContRegs ex_hive1 ex_grid3 =
       Inr ([ex_hive1], [ex_grid3],
            \<lparr>iRhg = [1, 1, 1], jRhg = [0, 0, 0], iRgg = [0, 1, 3], jRgg = [0, 0, 0]\<rparr>, ''oneHive'')"
  using MapContRegs_cardinality [of ex_hive3 ex_grid3 0 0]
        MapContRegs_cardinality [of ex_hive3 ex_grid1 0 0]
        MapContRegs_cardinality [of ex_hive1 ex_grid3 0 1]
  by (simp add: ex_flags numeral_3_eq_3)

text \<open>
  The claim as stated asks for "oneHive" whenever m = 1; with one container and one
  contained region the code answers "oneGrid".
\<close>

theorem MapContRegs_one_to_one_counterexample:
  "flaggedRegs 1 (regs ex_hive1) = [1]
   \<and> flaggedRegs (- 1) (regs ex_grid1) = [0]
   \<and> MapContRegs ex_hive1 ex_grid1 =
       Inr ([ex_hive1], [ex_grid1], \<lparr>iRhg = [1], jRhg = [0], iRgg = [0], jRgg = [0]\<rparr>, ''oneGrid'')
   \<and> MapContRegs ex_hive1 ex_grid1 \<noteq>
       Inr ([ex_hive1], [ex_grid1], \<lparr>iRhg = [1], jRhg = [0], iRgg = [0], jRgg = [0]\<rparr>, ''oneHive'')"
  by (simp add: ex_flags MapContRegs_def Let_def firstForEach_def)


section \<open>Properties of Geometry.ret\<close>

lemma findFirst_None: "(\<forall>x \<in> set xs. \<not> t x) \<Longrightarrow> findFirst t k xs = None"
  by (induction xs arbitrary: k) simp_all

lemma findFirst_Some:
  "i < length xs \<Longrightarrow> t (xs ! i) \<Longrightarrow> (\<forall>j < i. \<not> t (xs ! j))
     \<Longrightarrow> findFirst t k xs = Some (k + i, xs ! i)"
proof (induction xs arbitrary: k i)
  case Nil
  then show ?case by simp
next
  case (Cons x xs)
  show ?case
  proof (cases i)
    case 0
    with Cons.prems show ?thesis by simp
  next
    case (Suc i')
    from Cons.prems Suc have nx: "\<not> t x" by auto
    from Cons.prems Suc have "i' < length xs" "t (xs ! i')" "\<forall>j < i'. \<not> t (xs ! j)"
      by auto
    from Cons.IH [OF this, of "Suc k"] nx Suc show ?thesis by simp
  qed
qed

lemma retOne_none:
  assumes "\<forall>e \<in> set (map wrap xs). \<not> M e" and "\<And>x. M (wrap x) = t x"
  shows "retOne wrap t xs = (PyNone, Idx (- 1))"
proof -
  from assms have "\<forall>x \<in> set xs. \<not> t x" by auto
  then show ?thesis by (simp add: retOne_def findFirst_None)
qed

lemma retOne_some:
  assumes "i < length (map wrap xs)" and "M (map wrap xs ! i)"
    and "\<forall>j < i. \<not> M (map wrap xs ! j)" and "\<And>x. M (wrap x) = t x"
  shows "retOne wrap t xs = (Obj (map wrap xs ! i), Idx (int i))"
proof -
  from assms have "i < length xs" "t (xs ! i)" "\<forall>j < i. \<not> t (xs ! j)" by auto
  from findFirst_Some [OF this, of 0] assms(1) show ?thesis by (simp add: retOne_def)
qed

lemma retSco_none:
  assumes "\<not> isALL v" and "\<forall>s \<in> set (scos g). \<not> (name s = v \<and> scoKind s = k)"
  shows "retSco g k v = (PyNone, Idx (- 1))"
  using assms by (simp add: retSco_def retOne_def findFirst_None echoName_def)

lemma retSco_some:
  assumes "\<not> isALL v" and "i < length (scos g)"
    and "name (scos g ! i) = v \<and> scoKind (scos g ! i) = k"
    and "\<forall>j < i. \<not> (name (scos g ! j) = v \<and> scoKind (scos g ! j) = k)"
  shows "retSco g k v = (Obj (ESco (scos g ! i)), Idx (int i))"
  using assms(1)
    findFirst_Some [of i "scos g" "\<lambda>s. echoName s = v \<and> scoKind s = k" 0] assms(2-4)
  by (simp add: retSco_def retOne_def echoName_def)

lemma retDirect_none:
  assumes "d \<noteq> BININUNIT" and "\<not> isALL v" and "\<forall>e \<in> set (collection g d). \<not> matches d v e"
  shows "retDirect g d v = Inr (PyNone, Idx (- 1))"
proof (cases d)
  case BOD
  with assms show ?thesis
    by (simp add: echoName_def retOne_none [where M = "matches BOD v"] matches_def)
next
  case LAT
  with assms show ?thesis
    by (simp add: echoName_def retOne_none [where M = "matches LAT v"] matches_def)
next
  case REG
  with assms show ?thesis
    by (simp add: echoName_def retOne_none [where M = "matches REG v"] matches_def)
next
  case TRANSF
  with assms show ?thesis
    by (simp add: echoName_def retOne_none [where M = "matches TRANSF v"] matches_def)
next
  case BININUNIT
  with assms show ?thesis by simp
next
  case BIN
  with assms show ?thesis
    by (simp add: echoName_def retOne_none [where M = "matches BIN v"] matches_def)
next
  case SCO
  with assms show ?thesis
    by (simp add: echoName_def retOne_none [where M = "matches SCO v"] matches_def)
next
  case USRYIELD
  with assms retSco_none [of v g Usryield] show ?thesis
    by (auto simp: matches_def)
next
  case USRBDX
  with assms retSco_none [of v g Usrbdx] show ?thesis
    by (auto simp: matches_def)
next
  case USRTRACK
  with assms retSco_none [of v g Usrtrack] show ?thesis
    by (auto simp: matches_def)
next
  case USRCOLL
  with assms retSco_none [of v g Usrcoll] show ?thesis
    by (auto simp: matches_def)
qed

lemma retDirect_some:
  assumes "d \<noteq> BININUNIT" and "\<not> isALL v" and "i < length (collection g d)"
    and "matches d v (collection g d ! i)" and "\<forall>j < i. \<not> matches d v (collection g d ! j)"
  shows "retDirect g d v = Inr (Obj (collection g d ! i), Idx (int i))"
proof (cases d)
  case BOD
  with assms show ?thesis
    using retOne_some [where M = "matches BOD v" and wrap = EBody and xs = "bods g" and i = i
                          and t = "\<lambda>b. echoName b = v"]
    by (simp add: echoName_def matches_def)
next
  case LAT
  with assms show ?thesis
    using retOne_some [where M = "matches LAT v" and wrap = EReg and xs = "regs g" and i = i
                          and t = "\<lambda>r. latName r = v"]
    by (simp add: echoName_def matches_def)
next
  case REG
  with assms show ?thesis
    using retOne_some [where M = "matches REG v" and wrap = EReg and xs = "regs g" and i = i
                          and t = "\<lambda>b. echoName b = v"]
    by (simp add: echoName_def matches_def)
next
  case TRANSF
  with assms show ?thesis
    using retOne_some [where M = "matches TRANSF v" and wrap = ETras and xs = "tras g" and i = i
                          and t = "\<lambda>b. echoName b = v"]
    by (simp add: echoName_def matches_def)
next
  case BININUNIT
  with assms show ?thesis by simp
next
  case BIN
  with assms show ?thesis
    using retOne_some [where M = "matches BIN v" and wrap = EBin and xs = "bins g" and i = i
                          and t = "\<lambda>b. echoName b = v"]
    by (simp add: echoName_def matches_def)
next
  case SCO
  with assms show ?thesis
    using retOne_some [where M = "matches SCO v" and wrap = ESco and xs = "scos g" and i = i
                          and t = "\<lambda>b. echoName b = v"]
    by (simp add: echoName_def matches_def)
next
  case USRYIELD
  with assms retSco_some [of v i g Usryield] show ?thesis
    by (auto simp: matches_def)
next
  case USRBDX
  with assms retSco_some [of v i g Usrbdx] show ?thesis
    by (auto simp: matches_def)
next
  case USRTRACK
  with assms retSco_some [of v i g Usrtrack] show ?thesis
    by (auto simp: matches_def)
next
  case USRCOLL
  with assms retSco_some [of v i g Usrcoll] show ?thesis
    by (auto simp: matches_def)
qed


lemma ret_Direct: "selectorOf myKey = Some (Direct d) \<Longrightarrow> ret so g myKey myValue = retDirect g d myValue"
  by (simp add: ret_def)

lemma retOne_absent:
  "\<forall>x \<in> set xs. \<not> t x \<Longrightarrow> fst (retOne wrap t xs) = PyNone"
  by (simp add: retOne_def findFirst_None)

text \<open>
  Claim C5, as the code has it. For a name that is not "ALL" and a selector of an entity
  class (bodies, lattices, regions, transformations, USRBINs, scorings and the four scoring
  kinds), \<^verbatim>\<open>ret\<close> returns the sentinel \<^verbatim>\<open>(None, -1)\<close> when no entity of the
  collection matches the name, and the first matching entity together with its index when
  one matches. For the three selectors of a transformation linked to a body, a lattice
  or a USRBIN, a name that no owner carries stops the run (\<^verbatim>\<open>exit(1)\<close> after "cannot
  find ...").
\<close>

theorem ret_singular_lookup:
  assumes "\<not> isALL myValue"
  shows "(selectorOf myKey = Some (Direct d) \<and> d \<noteq> BININUNIT \<longrightarrow>
            ((\<forall>e \<in> set (collection g d). \<not> matches d myValue e)
                \<longrightarrow> ret so g myKey myValue = Inr (PyNone, Idx (- 1)))
            \<and> (\<forall>i. i < length (collection g d) \<and> matches d myValue (collection g d ! i)
                     \<and> (\<forall>j < i. \<not> matches d myValue (collection g d ! j))
                \<longrightarrow> ret so g myKey myValue = Inr (Obj (collection g d ! i), Idx (int i))))
         \<and> (selectorOf myKey = Some TRANSFLINKEDTOBODY \<and> myValue \<notin> set (map name (bods g))
              \<longrightarrow> ret so g myKey myValue = Inl Exit)
         \<and> (selectorOf myKey = Some TRANSFLINKEDTOLAT \<and> myValue \<notin> set (map latName (regs g))
              \<longrightarrow> ret so g myKey myValue = Inl Exit)
         \<and> (selectorOf myKey = Some TRANSFLINKEDTOUSRBIN \<and> myValue \<notin> set (map name (bins g))
              \<longrightarrow> ret so g myKey myValue = Inl Exit)"
proof (intro conjI impI allI)
  assume "selectorOf myKey = Some (Direct d) \<and> d \<noteq> BININUNIT"
    and "\<forall>e \<in> set (collection g d). \<not> matches d myValue e"
  with assms show "ret so g myKey myValue = Inr (PyNone, Idx (- 1))"
    by (simp add: ret_Direct retDirect_none)
next
  fix i
  assume "selectorOf myKey = Some (Direct d) \<and> d \<noteq> BININUNIT"
    and "i < length (collection g d) \<and> matches d myValue (collection g d ! i)
           \<and> (\<forall>j < i. \<not> matches d myValue (collection g d ! j))"
  with assms show "ret so g myKey myValue = Inr (Obj (collection g d ! i), Idx (int i))"
    by (simp add: ret_Direct retDirect_some)
next
  assume a: "selectorOf myKey = Some TRANSFLINKEDTOBODY \<and> myValue \<notin> set (map name (bods g))"
  then have "fst (retOne EBody (\<lambda>b. echoName b = myValue) (bods g)) = PyNone"
    by (intro retOne_absent) (auto simp: echoName_def)
  with a assms show "ret so g myKey myValue = Inl Exit"
    by (simp add: ret_def retLinkedOne_def)
next
  assume a: "selectorOf myKey = Some TRANSFLINKEDTOLAT \<and> myValue \<notin> set (map latName (regs g))"
  then have "fst (retOne EReg (\<lambda>r. latName r = myValue) (regs g)) = PyNone"
    by (intro retOne_absent) auto
  with a assms show "ret so g myKey myValue = Inl Exit"
    by (simp add: ret_def retLinkedOne_def)
next
  assume a: "selectorOf myKey = Some TRANSFLINKEDTOUSRBIN \<and> myValue \<notin> set (map name (bins g))"
  then have "fst (retOne EBin (\<lambda>b. echoName b = myValue) (bins g)) = PyNone"
    by (intro retOne_absent) (auto simp: echoName_def)
  with a assms show "ret so g myKey myValue = Inl Exit"
    by (simp add: ret_def retLinkedOne_def)
qed

lemma string_simps:
  "upper ''ALL'' = ''ALL''" "upper ''body'' = ''BODY''" "upper ''B2'' = ''B2''" "upper ''B9'' = ''B9''"
  "upper ''L9'' = ''L9''" "upper ''U9'' = ''U9''" "upper ''usryield'' = ''USRYIELD''"
  "upper ''TRANSFLINKEDTOBODY'' = ''TRANSFLINKEDTOBODY''"
  "upper ''TRANSFLINKEDTOLAT'' = ''TRANSFLINKEDTOLAT''"
  "upper ''TRANSFLINKEDTOUSRBIN'' = ''TRANSFLINKEDTOUSRBIN''"
  "upper ''T1'' = ''T1''" "upper ''T2'' = ''T2''"
  by code_simp+

lemma ex_selectors:
  "selectorOf ''body'' = Some (Direct BOD)"
  "selectorOf ''usryield'' = Some (Direct USRYIELD)"
  "selectorOf ''TRANSFLINKEDTOBODY'' = Some TRANSFLINKEDTOBODY"
  "selectorOf ''TRANSFLINKEDTOLAT'' = Some TRANSFLINKEDTOLAT"
  "selectorOf ''TRANSFLINKEDTOUSRBIN'' = Some TRANSFLINKEDTOUSRBIN"
  by (simp_all add: selectorOf_def string_simps startswith_def)

lemma ex_notALL: "\<not> isALL ''B2''" "\<not> isALL ''B9''" "\<not> isALL ''L9''" "\<not> isALL ''U9''" "isALL ''ALL''"
  by (simp_all add: isALL_def string_simps)

theorem ret_singular_lookup_witness:
  "ret firstSeenOrder ex_geo ''body'' ''B9'' = Inr (PyNone, Idx (- 1))
   \<and> ret firstSeenOrder ex_geo ''body'' ''B2'' = Inr (Obj (EBody (ex_body ''B2'' ''T2'')), Idx 1)
   \<and> ret firstSeenOrder ex_geo ''TRANSFLINKEDTOBODY'' ''B9'' = Inl Exit
   \<and> ret firstSeenOrder ex_geo ''TRANSFLINKEDTOLAT'' ''L9'' = Inl Exit
   \<and> ret firstSeenOrder ex_geo ''TRANSFLINKEDTOUSRBIN'' ''U9'' = Inl Exit"
proof -
  have c: "collection ex_geo BOD = [EBody (ex_body ''B1'' ''T1''), EBody (ex_body ''B2'' ''T2''),
             EBody (ex_body ''B3'' ''T1''), EBody (ex_body ''B4'' [])]"
    by (simp add: ex_geo_def)
  have h: "selectorOf ''body'' = Some (Direct BOD) \<and> BOD \<noteq> BININUNIT"
    by (simp add: ex_selectors)
  have m9: "\<forall>e \<in> set (collection ex_geo BOD). \<not> matches BOD ''B9'' e"
    unfolding c by (simp add: matches_def ex_body_def)
  have m2: "1 < length (collection ex_geo BOD) \<and> matches BOD ''B2'' (collection ex_geo BOD ! 1)
              \<and> (\<forall>j < 1. \<not> matches BOD ''B2'' (collection ex_geo BOD ! j))"
    unfolding c by (simp add: matches_def ex_body_def)
  have 1: "ret firstSeenOrder ex_geo ''body'' ''B9'' = Inr (PyNone, Idx (- 1))"
    using ret_singular_lookup [OF ex_notALL(2), of "''body''" BOD ex_geo firstSeenOrder] h m9
    by blast
  have "ret firstSeenOrder ex_geo ''body'' ''B2''
          = Inr (Obj (collection ex_geo BOD ! 1), Idx (int 1))"
    using ret_singular_lookup [OF ex_notALL(1), of "''body''" BOD ex_geo firstSeenOrder] h m2
    by blast
  then have 2: "ret firstSeenOrder ex_geo ''body'' ''B2''
                  = Inr (Obj (EBody (ex_body ''B2'' ''T2'')), Idx 1)"
    unfolding c by simp
  have n3: "selectorOf ''TRANSFLINKEDTOBODY'' = Some TRANSFLINKEDTOBODY
              \<and> ''B9'' \<notin> set (map name (bods ex_geo))"
    by (simp add: ex_selectors ex_geo_def ex_body_def)
  have 3: "ret firstSeenOrder ex_geo ''TRANSFLINKEDTOBODY'' ''B9'' = Inl Exit"
    using ret_singular_lookup [OF ex_notALL(2), of "''TRANSFLINKEDTOBODY''" BOD ex_geo firstSeenOrder] n3
    by blast
  have n4: "selectorOf ''TRANSFLINKEDTOLAT'' = Some TRANSFLINKEDTOLAT
              \<and> ''L9'' \<notin> set (map latName (regs ex_geo))"
    by (simp add: ex_selectors ex_geo_def newRegion_def)
  have 4: "ret firstSeenOrder ex_geo ''TRANSFLINKEDTOLAT'' ''L9'' = Inl Exit"
    using ret_singular_lookup [OF ex_notALL(3), of "''TRANSFLINKEDTOLAT''" BOD ex_geo firstSeenOrder] n4
    by blast
  have n5: "selectorOf ''TRANSFLINKEDTOUSRBIN'' = Some TRANSFLINKEDTOUSRBIN
              \<and> ''U9'' \<notin> set (map name (bins ex_geo))"
    by (simp add: ex_selectors ex_geo_def)
  have 5: "ret firstSeenOrder ex_geo ''TRANSFLINKEDTOUSRBIN'' ''U9'' = Inl Exit"
    using ret_singular_lookup [OF ex_notALL(4), of "''TRANSFLINKEDTOUSRBIN''" BOD ex_geo firstSeenOrder] n5
    by blast
  from 1 2 3 4 5 show ?thesis by simp
qed

text \<open>
  The claim as stated promises the sentinel for a never-inserted name under every
  selector; under \<^verbatim>\<open>TRANSFLINKEDTOBODY\<close> the run stops instead.
\<close>

theorem ret_linked_unknown_owner_counterexample:
  "''B9'' \<notin> set (map name (bods ex_geo))
   \<and> ret firstSeenOrder ex_geo ''TRANSFLINKEDTOBODY'' ''B9'' = Inl Exit
   \<and> ret firstSeenOrder ex_geo ''TRANSFLINKEDTOBODY'' ''B9'' \<noteq> Inr (PyNone, Idx (- 1))"
  by (simp add: ret_def ex_selectors ex_notALL ex_geo_def ex_body_def retOne_def retLinkedOne_def
        echoName_def)


lemma findFirst_result:
  "findFirst t k xs = Some (i, x) \<Longrightarrow>
     k \<le> i \<and> i - k < length xs \<and> x = xs ! (i - k) \<and> t x \<and> (\<forall>y \<in> set (take (i - k) xs). \<not> t y)"
proof (induction xs arbitrary: k)
  case Nil
  then show ?case by simp
next
  case (Cons a xs)
  show ?case
  proof (cases "t a")
    case True
    with Cons.prems show ?thesis by simp
  next
    case False
    with Cons.prems have "findFirst t (Suc k) xs = Some (i, x)" by simp
    from Cons.IH [OF this] have ih: "Suc k \<le> i" "i - Suc k < length xs" "x = xs ! (i - Suc k)" "t x"
      "\<forall>y \<in> set (take (i - Suc k) xs). \<not> t y" by blast+
    from ih(1) have e: "i - k = Suc (i - Suc k)" by simp
    from ih False show ?thesis by (simp add: e)
  qed
qed

lemma findFirst_None_iff: "findFirst t k xs = None \<Longrightarrow> \<forall>x \<in> set xs. \<not> t x"
  by (induction xs arbitrary: k) (simp_all split: if_splits)

lemma indexOfTransf_ret:
  assumes "\<not> isALL n"
  shows "indexOfTransf g n (retTransfIndex g n)"
proof (cases "findFirst (\<lambda>myEntry. echoName myEntry = n) 0 (tras g)")
  case None
  from findFirst_None_iff [OF this] have "n \<notin> set (map name (tras g))"
    by (auto simp: echoName_def)
  with assms None show ?thesis
    by (simp add: indexOfTransf_def retTransfIndex_def retOne_def)
next
  case (Some p)
  obtain i x where p: "p = (i, x)" by (cases p)
  from findFirst_result [OF Some [unfolded p]]
  have r: "i < length (tras g)" "x = tras g ! i" "echoName x = n"
    "\<forall>y \<in> set (take i (tras g)). \<not> echoName y = n" by auto
  from r(4) have "n \<notin> set (map name (take i (tras g)))" by (auto simp: echoName_def)
  with r assms Some p show ?thesis
    by (auto simp: indexOfTransf_def retTransfIndex_def retOne_def echoName_def)
qed

lemma retTransfIndex_ALL: "isALL n \<Longrightarrow> retTransfIndex g n = allIdx (length (tras g))"
  by (simp add: retTransfIndex_def)

lemma ret_linked_all:
  assumes "selectorOf myKey = Some s" and "isLinkSelector s" and "isALL myValue"
  shows "ret so g myKey myValue
           = Inr (Names (so (linkedTransfNames g s)),
                  Idxs (map (retTransfIndex g) (so (linkedTransfNames g s))))"
  using assms by (auto simp: ret_def isLinkSelector_def Let_def)

text \<open>
  Claim C6, as the code has it. The names come out of \<^verbatim>\<open>list(set(...))\<close>, so whatever
  order the set iterates in (any duplicate-free enumeration \<^verbatim>\<open>so\<close>), the "ALL" form of
  the three derived relation lookups returns each linked transformation name exactly once,
  and the index list gives, position by position, what \<^verbatim>\<open>ret("transf",name)\<close> gives
  for the name: the index of the first transformation with that name, or -1 when there is
  none, and for a name that itself reads "ALL" (in any letter case) the list of the indices
  of all transformations.
\<close>

theorem ret_all_linked_transforms:
  assumes "\<forall>xs. distinct (so xs) \<and> set (so xs) = set xs"
    and "selectorOf myKey = Some s" and "isLinkSelector s" and "isALL myValue"
  shows "\<exists>ns ixs. ret so g myKey myValue = Inr (Names ns, Idxs ixs)
           \<and> distinct ns \<and> set ns = set (linkedTransfNames g s)
           \<and> length ixs = length ns
           \<and> (\<forall>k < length ns.
                 (\<not> isALL (ns ! k) \<longrightarrow> indexOfTransf g (ns ! k) (ixs ! k))
                 \<and> (isALL (ns ! k) \<longrightarrow> ixs ! k = allIdx (length (tras g))))"
proof (intro exI conjI)
  show "ret so g myKey myValue
          = Inr (Names (so (linkedTransfNames g s)),
                 Idxs (map (retTransfIndex g) (so (linkedTransfNames g s))))"
    by (rule ret_linked_all [OF assms(2-4)])
  from assms(1) show "distinct (so (linkedTransfNames g s))" by simp
  from assms(1) show "set (so (linkedTransfNames g s)) = set (linkedTransfNames g s)" by simp
  show "length (map (retTransfIndex g) (so (linkedTransfNames g s))) = length (so (linkedTransfNames g s))"
    by simp
  show "\<forall>k < length (so (linkedTransfNames g s)).
          (\<not> isALL (so (linkedTransfNames g s) ! k)
             \<longrightarrow> indexOfTransf g (so (linkedTransfNames g s) ! k)
                   (map (retTransfIndex g) (so (linkedTransfNames g s)) ! k))
          \<and> (isALL (so (linkedTransfNames g s) ! k)
             \<longrightarrow> map (retTransfIndex g) (so (linkedTransfNames g s)) ! k = allIdx (length (tras g)))"
    by (simp add: indexOfTransf_ret retTransfIndex_ALL)
qed

lemma lastSeenOrder_enumerates: "\<forall>xs. distinct (lastSeenOrder xs) \<and> set (lastSeenOrder xs) = set xs"
  by (simp add: lastSeenOrder_def)

lemma firstSeenOrder_enumerates: "\<forall>xs. distinct (firstSeenOrder xs) \<and> set (firstSeenOrder xs) = set xs"
  by (simp add: firstSeenOrder_def)

lemma ex_linked:
  "map bodTransfName (filter bodIsLinkedToTransform (bods ex_geo)) = [''T1'', ''T2'', ''T1'']"
  by (simp add: ex_geo_def ex_body_def bodIsLinkedToTransform_def)

lemma ex_ret_linked:
  "ret lastSeenOrder ex_geo ''TRANSFLINKEDTOBODY'' ''ALL''
     = Inr (Names [''T2'', ''T1''], Idxs [Idx 1, Idx 0])"
proof -
  have s: "selectorOf ''TRANSFLINKEDTOBODY'' = Some TRANSFLINKEDTOBODY"
    by (simp add: selectorOf_def string_simps startswith_def)
  have i: "retTransfIndex ex_geo ''T1'' = Idx 0" "retTransfIndex ex_geo ''T2'' = Idx 1"
    by (simp_all add: retTransfIndex_def isALL_def string_simps retOne_def ex_geo_def ex_tras_def
          echoName_def)
  have a: "isALL ''ALL''" by (simp add: isALL_def string_simps)
  show ?thesis
    by (simp add: ret_linked_all [OF s _ a] isLinkSelector_def ex_linked lastSeenOrder_def i)
qed

theorem ret_all_linked_transforms_witness:
  "\<exists>ns ixs. ret lastSeenOrder ex_geo ''TRANSFLINKEDTOBODY'' ''ALL'' = Inr (Names ns, Idxs ixs)
           \<and> distinct ns \<and> set ns = set (linkedTransfNames ex_geo TRANSFLINKEDTOBODY)
           \<and> length ixs = length ns
           \<and> (\<forall>k < length ns.
                 (\<not> isALL (ns ! k) \<longrightarrow> indexOfTransf ex_geo (ns ! k) (ixs ! k))
                 \<and> (isALL (ns ! k) \<longrightarrow> ixs ! k = allIdx (length (tras ex_geo))))"
proof -
  have s: "selectorOf ''TRANSFLINKEDTOBODY'' = Some TRANSFLINKEDTOBODY"
    by (simp add: selectorOf_def string_simps startswith_def)
  have l: "isLinkSelector TRANSFLINKEDTOBODY" by (simp add: isLinkSelector_def)
  have a: "isALL ''ALL''" by (simp add: isALL_def string_simps)
  from ret_all_linked_transforms [OF lastSeenOrder_enumerates s l a, of ex_geo]
  show ?thesis .
qed

text \<open>
  A body linked to a transformation named "all": its position in the index list holds the
  list of all indices.
\<close>

lemma ret_all_linked_named_all:
  "ret firstSeenOrder
     (ex_geo\<lparr>bods := [ex_body ''B1'' ''all'', ex_body ''B2'' ''T1''],
             tras := [ex_tras ''T1'' 1, ex_tras ''all'' 2]\<rparr>)
     ''TRANSFLINKEDTOBODY'' ''ALL''
   = Inr (Names [''all'', ''T1''], Idxs [Idxs [Idx 0, Idx 1], Idx 0])"
  by code_simp

text \<open>
  The claim as stated asks for the order of first occurrence. Bodies linked to T1, T2, T1
  are first seen in the order T1, T2; a set that iterates T2 before T1 makes the lookup
  return T2 first.
\<close>

theorem ret_all_linked_order_counterexample:
  "linkedTransfNames ex_geo TRANSFLINKEDTOBODY = [''T1'', ''T2'', ''T1'']
   \<and> lastSeenOrder [''T1'', ''T2'', ''T1''] = [''T2'', ''T1'']
   \<and> ret lastSeenOrder ex_geo ''TRANSFLINKEDTOBODY'' ''ALL''
       = Inr (Names [''T2'', ''T1''], Idxs [Idx 1, Idx 0])
   \<and> ret lastSeenOrder ex_geo ''TRANSFLINKEDTOBODY'' ''ALL''
       \<noteq> Inr (Names [''T1'', ''T2''], Idxs [Idx 0, Idx 1])"
  by (simp add: ex_linked ex_ret_linked lastSeenOrder_def)

text \<open>
  Claim C10. When the scoring collection holds at least one card that is not of the
  queried kind, the "ALL" lookup of a scoring kind (USRYIELD, USRBDX, USRTRACK, USRCOLL)
  returns the names of the cards of that kind only, but every index 0..len(scos)-1 of
  the whole collection: the name list is strictly shorter than the index list.
\<close>

theorem ret_all_scoring_subkind:
  assumes "selectorOf myKey = Some (Direct d)" and "subkind d = Some k" and "isALL myValue"
    and "\<exists>mySco \<in> set (scos g). scoKind mySco \<noteq> k"
  shows "ret so g myKey myValue
           = Inr (Names (map name (filter (\<lambda>mySco. scoKind mySco = k) (scos g))),
                  Idxs (map (\<lambda>ii. Idx (int ii)) [0..<length (scos g)]))
         \<and> length (filter (\<lambda>mySco. scoKind mySco = k) (scos g)) < length (scos g)"
proof
  have n: "map echoName (filter (\<lambda>mySco. scoKind mySco = k) (scos g))
             = map name (filter (\<lambda>mySco. scoKind mySco = k) (scos g))"
    by (simp add: echoName_def)
  from assms(2) have "retDirect g d myValue = Inr (retSco g k myValue)"
    by (cases d) simp_all
  with assms(1,3) n show "ret so g myKey myValue
           = Inr (Names (map name (filter (\<lambda>mySco. scoKind mySco = k) (scos g))),
                  Idxs (map (\<lambda>ii. Idx (int ii)) [0..<length (scos g)]))"
    by (simp add: ret_def retSco_def allIdx_def)
  from assms(4) show "length (filter (\<lambda>mySco. scoKind mySco = k) (scos g)) < length (scos g)"
    by (auto intro: length_filter_less)
qed

theorem ret_all_scoring_subkind_witness:
  "ret firstSeenOrder ex_geo ''usryield'' ''ALL''
     = Inr (Names [''Y1'', ''Y2''], Idxs [Idx 0, Idx 1, Idx 2])
   \<and> length [''Y1'', ''Y2''] < length (scos ex_geo)"
proof -
  have s: "selectorOf ''usryield'' = Some (Direct USRYIELD)"
    by (simp add: selectorOf_def string_simps startswith_def)
  have a: "isALL ''ALL''" by (simp add: isALL_def string_simps)
  have k: "subkind USRYIELD = Some Usryield" by simp
  have e: "\<exists>mySco \<in> set (scos ex_geo). scoKind mySco \<noteq> Usryield"
    by (simp add: ex_geo_def ex_sco_def)
  from ret_all_scoring_subkind [OF s k a e, of firstSeenOrder]
  show ?thesis by (simp add: ex_geo_def ex_sco_def upt_rec)
qed


section \<open>Properties of the preprocessor\<close>

lemma startswith_take:
  assumes "startswith l p" and "n \<le> length p"
  shows "take n l = take n p"
proof -
  from assms(1) have "take (length p) l = p" by (simp add: startswith_def)
  then have "take n (take (length p) l) = take n p" by simp
  with assms(2) show ?thesis by (simp add: min_def)
qed

lemma sw_define: "startswith l ''#define'' \<Longrightarrow> take 3 l = ''#de''"
  using startswith_take [of l "''#define''" 3] by simp

lemma sw_if: "startswith l ''#if'' \<Longrightarrow> take 3 l = ''#if''"
  using startswith_take [of l "''#if''" 3] by simp

lemma sw_elif: "startswith l ''#elif'' \<Longrightarrow> take 3 l = ''#el''"
  using startswith_take [of l "''#elif''" 3] by simp

lemma sw_else: "startswith l ''#else'' \<Longrightarrow> take 4 l = ''#els''"
  using startswith_take [of l "''#else''" 4] by simp

lemma sw_else3: "startswith l ''#else'' \<Longrightarrow> take 3 l = ''#el''"
  using startswith_take [of l "''#else''" 3] by simp

lemma sw_elif4: "startswith l ''#elif'' \<Longrightarrow> take 4 l = ''#eli''"
  using startswith_take [of l "''#elif''" 4] by simp

lemma sw_end: "startswith l ''#end'' \<Longrightarrow> take 3 l = ''#en''"
  using startswith_take [of l "''#end''" 3] by simp

lemma if_not_define: "startswith l ''#if'' \<Longrightarrow> \<not> startswith l ''#define''"
  using sw_define [of l] sw_if [of l] by auto

lemma elif_not_others:
  "startswith l ''#elif'' \<Longrightarrow> \<not> startswith l ''#define'' \<and> \<not> startswith l ''#if''"
  using sw_define [of l] sw_if [of l] sw_elif [of l] by auto

lemma else_not_others:
  "startswith l ''#else'' \<Longrightarrow>
     \<not> startswith l ''#define'' \<and> \<not> startswith l ''#if'' \<and> \<not> startswith l ''#elif''"
  using sw_define [of l] sw_if [of l] sw_else3 [of l] sw_else [of l] sw_elif4 [of l] by auto

lemma end_not_others:
  "startswith l ''#end'' \<Longrightarrow>
     \<not> startswith l ''#define'' \<and> \<not> startswith l ''#if'' \<and> \<not> startswith l ''#elif''
     \<and> \<not> startswith l ''#else''"
  using sw_define [of l] sw_if [of l] sw_else3 [of l] sw_elif [of l] sw_end [of l] by auto

text \<open>
  Claim C8. While parsing, a line that is not a directive goes on to the section parser
  exactly when every entry of the stack \<^verbatim>\<open>lReads\<close> is true, and leaves the state as it
  is. \<^verbatim>\<open>#define NAME\<close> adds NAME to the flags (once); \<^verbatim>\<open>#if NAME\<close> pushes the test
  "NAME is a flag" on both stacks; \<^verbatim>\<open>#elif NAME\<close> replaces the top of \<^verbatim>\<open>lReads\<close> with
  that test and ors it into the top of \<^verbatim>\<open>lElse\<close>, which so records whether a branch of
  the block has matched; \<^verbatim>\<open>#else\<close> replaces the top of \<^verbatim>\<open>lReads\<close> with the negation
  of that record; \<^verbatim>\<open>#end\<close> pops one entry of each stack. No directive line goes on to
  the section parser.
\<close>

theorem preprocessor_step:
  "(\<not> isDirective l \<longrightarrow> preproc st l = Inr (st, list_all (\<lambda>b. b) (lReads st)))
   \<and> (startswith l ''#define'' \<and> py_split_ws l = [d, nm] \<longrightarrow>
        preproc st l =
          Inr (st\<lparr>defineFlags := (if nm \<in> set (defineFlags st) then defineFlags st
                                    else defineFlags st @ [nm])\<rparr>, False))
   \<and> (startswith l ''#if'' \<and> py_split_ws l = d # nm # toks \<longrightarrow>
        preproc st l =
          Inr (st\<lparr>lReads := lReads st @ [nm \<in> set (defineFlags st)],
                  lElse := lElse st @ [nm \<in> set (defineFlags st)]\<rparr>, False))
   \<and> (startswith l ''#elif'' \<and> py_split_ws l = d # nm # toks
        \<and> lReads st = rs @ [r] \<and> lElse st = es @ [e] \<longrightarrow>
        preproc st l =
          Inr (st\<lparr>lReads := rs @ [nm \<in> set (defineFlags st)],
                  lElse := es @ [e \<or> nm \<in> set (defineFlags st)]\<rparr>, False))
   \<and> (startswith l ''#else'' \<and> lReads st = rs @ [r] \<and> lElse st = es @ [e] \<longrightarrow>
        preproc st l = Inr (st\<lparr>lReads := rs @ [\<not> e]\<rparr>, False))
   \<and> (startswith l ''#end'' \<and> lReads st = rs @ [r] \<and> lElse st = es @ [e] \<longrightarrow>
        preproc st l = Inr (st\<lparr>lReads := rs, lElse := es\<rparr>, False))"
proof (intro conjI impI)
  assume "\<not> isDirective l"
  then show "preproc st l = Inr (st, list_all (\<lambda>b. b) (lReads st))"
    by (simp add: isDirective_def preproc_def Let_def)
next
  assume "startswith l ''#define'' \<and> py_split_ws l = [d, nm]"
  then show "preproc st l =
          Inr (st\<lparr>defineFlags := (if nm \<in> set (defineFlags st) then defineFlags st
                                    else defineFlags st @ [nm])\<rparr>, False)"
    by (simp add: preproc_def Let_def second_def)
next
  assume a: "startswith l ''#if'' \<and> py_split_ws l = d # nm # toks"
  with if_not_define [of l] show "preproc st l =
          Inr (st\<lparr>lReads := lReads st @ [nm \<in> set (defineFlags st)],
                  lElse := lElse st @ [nm \<in> set (defineFlags st)]\<rparr>, False)"
    by (simp add: preproc_def Let_def second_def)
next
  assume a: "startswith l ''#elif'' \<and> py_split_ws l = d # nm # toks
        \<and> lReads st = rs @ [r] \<and> lElse st = es @ [e]"
  with elif_not_others [of l] show "preproc st l =
          Inr (st\<lparr>lReads := rs @ [nm \<in> set (defineFlags st)],
                  lElse := es @ [e \<or> nm \<in> set (defineFlags st)]\<rparr>, False)"
    by (simp add: preproc_def Let_def second_def setLast_def getLast_def)
next
  assume a: "startswith l ''#else'' \<and> lReads st = rs @ [r] \<and> lElse st = es @ [e]"
  with else_not_others [of l] show "preproc st l = Inr (st\<lparr>lReads := rs @ [\<not> e]\<rparr>, False)"
    by (simp add: preproc_def Let_def setLast_def getLast_def)
next
  assume a: "startswith l ''#end'' \<and> lReads st = rs @ [r] \<and> lElse st = es @ [e]"
  with end_not_others [of l] show "preproc st l = Inr (st\<lparr>lReads := rs, lElse := es\<rparr>, False)"
    by (simp add: preproc_def Let_def pop_def)
qed


theorem preprocessor_step_witness:
  "preproc initPreProc ''BODY1'' = Inr (initPreProc, True)
   \<and> preproc ex_pre ''BODY1'' = Inr (ex_pre, False)
   \<and> preproc initPreProc ''#define A'' = Inr (initPreProc\<lparr>defineFlags := [''A'']\<rparr>, False)
   \<and> preproc ex_pre ''#if A''
       = Inr (ex_pre\<lparr>lReads := [True, False, True], lElse := [False, True]\<rparr>, False)
   \<and> preproc ex_pre ''#elif A'' = Inr (ex_pre\<lparr>lReads := [True, True], lElse := [True]\<rparr>, False)
   \<and> preproc ex_pre ''#else'' = Inr (ex_pre\<lparr>lReads := [True, True]\<rparr>, False)
   \<and> preproc ex_pre ''#endif'' = Inr (ex_pre\<lparr>lReads := [True], lElse := []\<rparr>, False)"
proof -
  have nd: "\<not> isDirective ''BODY1''"
    by (simp add: isDirective_def startswith_def)
  have 1: "preproc initPreProc ''BODY1'' = Inr (initPreProc, True)"
    using preprocessor_step [where l = "''BODY1''" and st = initPreProc] nd
    by (simp add: initPreProc_def)
  have 2: "preproc ex_pre ''BODY1'' = Inr (ex_pre, False)"
    using preprocessor_step [where l = "''BODY1''" and st = ex_pre] nd
    by (simp add: ex_pre_def)
  have h3: "startswith ''#define A'' ''#define'' \<and> py_split_ws ''#define A'' = [''#define'', ''A'']"
    by (simp add: startswith_def py_split_ws_def is_space_def)
  have 3: "preproc initPreProc ''#define A'' = Inr (initPreProc\<lparr>defineFlags := [''A'']\<rparr>, False)"
    using preprocessor_step [where l = "''#define A''" and st = initPreProc and d = "''#define''" and nm = "''A''"] h3
    by (simp add: initPreProc_def)
  have h4: "startswith ''#if A'' ''#if'' \<and> py_split_ws ''#if A'' = ''#if'' # ''A'' # []"
    by (simp add: startswith_def py_split_ws_def is_space_def)
  have 4: "preproc ex_pre ''#if A''
             = Inr (ex_pre\<lparr>lReads := [True, False, True], lElse := [False, True]\<rparr>, False)"
    using preprocessor_step [where l = "''#if A''" and st = ex_pre and d = "''#if''" and nm = "''A''" and toks = "[]"] h4
    by (simp add: ex_pre_def)
  have h5: "startswith ''#elif A'' ''#elif'' \<and> py_split_ws ''#elif A'' = ''#elif'' # ''A'' # []
              \<and> lReads ex_pre = [True] @ [False] \<and> lElse ex_pre = [] @ [False]"
    by (simp add: startswith_def py_split_ws_def is_space_def ex_pre_def)
  have "preproc ex_pre ''#elif A''
          = Inr (ex_pre\<lparr>lReads := [True] @ [''A'' \<in> set (defineFlags ex_pre)],
                         lElse := [] @ [False \<or> ''A'' \<in> set (defineFlags ex_pre)]\<rparr>, False)"
    using preprocessor_step [where l = "''#elif A''" and st = ex_pre and d = "''#elif''" and nm = "''A''"
        and toks = "[]" and rs = "[True]" and r = False and es = "[]" and e = False] h5
    by blast
  then have 5: "preproc ex_pre ''#elif A'' = Inr (ex_pre\<lparr>lReads := [True, True], lElse := [True]\<rparr>, False)"
    by (simp add: ex_pre_def)
  have h6: "startswith ''#else'' ''#else'' \<and> lReads ex_pre = [True] @ [False] \<and> lElse ex_pre = [] @ [False]"
    by (simp add: startswith_def ex_pre_def)
  have "preproc ex_pre ''#else'' = Inr (ex_pre\<lparr>lReads := [True] @ [\<not> False]\<rparr>, False)"
    using preprocessor_step [where l = "''#else''" and st = ex_pre and rs = "[True]" and r = False
        and es = "[]" and e = False] h6
    by blast
  then have 6: "preproc ex_pre ''#else'' = Inr (ex_pre\<lparr>lReads := [True, True]\<rparr>, False)"
    by simp
  have h7: "startswith ''#endif'' ''#end'' \<and> lReads ex_pre = [True] @ [False] \<and> lElse ex_pre = [] @ [False]"
    by (simp add: startswith_def ex_pre_def)
  have 7: "preproc ex_pre ''#endif'' = Inr (ex_pre\<lparr>lReads := [True], lElse := []\<rparr>, False)"
    using preprocessor_step [where l = "''#endif''" and st = ex_pre and rs = "[True]" and r = False
        and es = "[]" and e = False] h7
    by blast
  from 1 2 3 4 5 6 7 show ?thesis by simp
qed

lemma activeLines_example:
  "activeLines initPreProc
     [''#define A'', ''#if B'', ''x'', ''#elif A'', ''y'', ''#else'', ''z'', ''#endif'', ''w'']
   = Inr [''y'', ''w'']"
  by (simp add: preproc_def initPreProc_def startswith_def py_split_ws_def is_space_def second_def
        setLast_def getLast_def pop_def Let_def)


section \<open>Properties of Geometry.solidTrasform\<close>

text \<open>
  The call that \<^verbatim>\<open>solidTrasform\<close> makes of itself for one angle of a list is
  \<^verbatim>\<open>solidAngle\<close>.
\<close>

lemma solidTrasform_one_angle:
  "solidTrasform ext g None None (Theta myT myAx) lDegs lGeoDirs lOnlyGeo lWrapGeo ''ToFinPos'' None
     = solidAngle ext g myT myAx lDegs lGeoDirs lOnlyGeo lWrapGeo"
  by (simp add: solidTrasform_def rotationPart_def solidAngle_def Let_def)

lemma length_upper: "length (upper s) = length s"
  by (simp add: upper_def)

lemma not_isALL_suffix4: "length sfx = 4 \<Longrightarrow> \<not> isALL (myName @ sfx)"
proof
  assume l: "length sfx = 4" and "isALL (myName @ sfx)"
  then have "length (upper (myName @ sfx)) = length ''ALL''" by (simp add: isALL_def)
  with l show False by (simp add: length_upper)
qed

lemma linkBod_all_unlinked:
  "\<forall>b \<in> set bs. \<not> bodIsLinkedToTransform b \<Longrightarrow>
     foldl (linkBod T) (acc, tt, lc) bs
       = (acc @ map (\<lambda>b. b\<lparr>bodTransfName := T\<rparr>) bs, tt, lc \<or> bs \<noteq> [])"
  by (induction bs arbitrary: acc lc) (simp_all add: linkBod_def)

lemma linkReg_no_lattice:
  "\<forall>r \<in> set rs. \<not> isLattice r \<Longrightarrow> foldl (linkReg T) (acc, tt, lc) rs = (acc @ rs, tt, lc)"
  by (induction rs arbitrary: acc) (simp_all add: linkReg_def)

lemma retDirect_TRANSF_absent:
  assumes "\<not> isALL T" and "T \<notin> set (map name (tras g))"
  shows "retDirect g TRANSF T = Inr (PyNone, Idx (- 1))"
proof -
  from assms(2) have "\<forall>t \<in> set (tras g). \<not> echoName t = T" by (auto simp: echoName_def)
  with assms(1) show ?thesis by (simp add: retOne_def findFirst_None)
qed

lemma retDirect_TRANSF_last:
  assumes "\<not> isALL T" and "T \<notin> set (map name ts)" and "name t = T" and "tras g = ts @ [t]"
  shows "retDirect g TRANSF T = Inr (Obj (ETras t), Idx (int (length ts)))"
proof -
  have "name (ts ! j) \<noteq> T" if "j < length ts" for j
  proof -
    from that have "name (ts ! j) \<in> set (map name ts)" by simp
    with assms(2) show ?thesis by auto
  qed
  then have "findFirst (\<lambda>x. echoName x = T) 0 (ts @ [t]) = Some (0 + length ts, (ts @ [t]) ! length ts)"
    using assms(3) by (intro findFirst_Some) (auto simp: echoName_def nth_append)
  with assms(1,4) show ?thesis by (simp add: retOne_def)
qed

lemma withTransf_last:
  assumes "\<not> isALL T" and "T \<notin> set (map name ts)" and "name t = T" and "tras g = ts @ [t]"
  shows "withTransf g T f = Inr (g\<lparr>tras := ts @ [f t]\<rparr>)"
  using retDirect_TRANSF_last [OF assms] assms(4) by (simp add: withTransf_def)

lemma AddRotDefis_prepend:
  "AddRotDefis steps 0 t = t\<lparr>RotDefis := rev steps @ RotDefis t\<rparr>"
proof (induction steps arbitrary: t)
  case Nil
  then show ?case by (simp add: AddRotDefis_def)
next
  case (Cons s steps)
  have "AddRotDefis (s # steps) 0 t = AddRotDefis steps 0 (AddRotDefi 0 t s)"
    by (simp add: AddRotDefis_def)
  also have "\<dots> = (AddRotDefi 0 t s)\<lparr>RotDefis := rev steps @ RotDefis (AddRotDefi 0 t s)\<rparr>"
    by (rule Cons.IH)
  finally show ?case by (simp add: AddRotDefi_def)
qed

lemma AddRotDefis_append:
  "AddRotDefis steps (- 1) t = t\<lparr>RotDefis := RotDefis t @ steps\<rparr>"
proof (induction steps arbitrary: t)
  case Nil
  then show ?case by (simp add: AddRotDefis_def)
next
  case (Cons s steps)
  have "AddRotDefis (s # steps) (- 1) t = AddRotDefis steps (- 1) (AddRotDefi (- 1) t s)"
    by (simp add: AddRotDefis_def)
  also have "\<dots> = (AddRotDefi (- 1) t s)\<lparr>RotDefis := RotDefis (AddRotDefi (- 1) t s) @ steps\<rparr>"
    by (rule Cons.IH)
  finally show ?case by (simp add: AddRotDefi_def)
qed

text \<open>A part that finds nothing to link and nothing linked leaves the geometry as it is.\<close>

lemma recordSteps_nothing:
  "recordSteps ext g T False [] L w c = Inr g"
  by (simp add: recordSteps_def createTransf_def split: option.splits)

lemma latticePart_no_lattice:
  assumes "\<forall>r \<in> set (regs g). \<not> isLattice r"
  shows "latticePart ext g myName L I w c = Inr g"
  using linkReg_no_lattice [OF assms, of "myName @ ''_lat''" "[]" "[]" False]
  by (simp add: latticePart_def Let_def recordSteps_nothing)

lemma usrbinPart_no_bins:
  assumes "bins g = []"
  shows "usrbinPart ext g myName L tr c = Inr g"
  using assms by (simp add: usrbinPart_def Let_def recordSteps_nothing)

lemma recordSteps_create:
  assumes "\<not> isALL T" and "T \<notin> set (map name (tras g))"
  shows "recordSteps ext g T True [] L None c
           = Inr (g\<lparr>tras := tras g @
                   [\<lparr>name = T, comment = (case c of None \<Rightarrow> [] | Some cmt \<Rightarrow> headMe ext [] cmt),
                     ID = int (length (tras g)) + 1, RotDefis = rev L\<rparr>]\<rparr>)"
proof -
  let ?new = "newTransformation (int (length (tras g)) + 1) T"
  let ?g1 = "g\<lparr>tras := tras g @ [?new]\<rparr>"
  have c1: "createTransf g T True [] = (?g1, [T])"
    using retDirect_TRANSF_absent [OF assms] by (simp add: createTransf_def)
  have w1: "withTransf ?g1 T f = Inr (?g1\<lparr>tras := tras g @ [f ?new]\<rparr>)" for f
    by (rule withTransf_last [OF assms]) (simp_all add: newTransformation_def)
  have w2: "withTransf (g\<lparr>tras := tras g @ [t]\<rparr>) T f = Inr (g\<lparr>tras := tras g @ [f t]\<rparr>)"
    if "name t = T" for f t
    using withTransf_last [OF assms that, of "g\<lparr>tras := tras g @ [t]\<rparr>" f] by simp
  have e1: "withTransfs ?g1 [T] f = Inr (?g1\<lparr>tras := tras g @ [f ?new]\<rparr>)" for f
    by (simp add: w1)
  show ?thesis
  proof (cases c)
    case None
    then have "recordSteps ext g T True [] L None c
                 = Inr (?g1\<lparr>tras := tras g @ [AddRotDefis L 0 ?new]\<rparr>)"
      by (simp add: recordSteps_def c1 w1)
    then show ?thesis
      using None by (simp add: AddRotDefis_prepend newTransformation_def)
  next
    case (Some cmt)
    have n: "name (AddRotDefis L 0 ?new) = T"
      by (simp add: AddRotDefis_prepend newTransformation_def)
    from Some have "recordSteps ext g T True [] L None c
                 = Inr (g\<lparr>tras := tras g @ [(AddRotDefis L 0 ?new)
                              \<lparr>comment := headMe ext (comment (AddRotDefis L 0 ?new)) cmt\<rparr>]\<rparr>)"
      by (simp add: recordSteps_def c1 w1 w2 [OF n])
    then show ?thesis
      using Some by (simp add: AddRotDefis_prepend newTransformation_def)
  qed
qed

lemma bodiesPart_fresh:
  assumes "bods g \<noteq> []" and "\<forall>b \<in> set (bods g). \<not> bodIsLinkedToTransform b"
    and "myName @ ''_bdy'' \<notin> set (map name (tras g))"
  shows "bodiesPart ext g myName L c
           = Inr (g\<lparr>bods := map (\<lambda>b. b\<lparr>bodTransfName := myName @ ''_bdy''\<rparr>) (bods g),
                    tras := tras g @
                      [\<lparr>name = myName @ ''_bdy'',
                        comment = (case c of None \<Rightarrow> [] | Some cmt \<Rightarrow> headMe ext [] cmt),
                        ID = int (length (tras g)) + 1, RotDefis = rev L\<rparr>]\<rparr>)"
proof -
  have na: "\<not> isALL (myName @ ''_bdy'')" by (rule not_isALL_suffix4) simp
  let ?g' = "g\<lparr>bods := map (\<lambda>b. b\<lparr>bodTransfName := myName @ ''_bdy''\<rparr>) (bods g)\<rparr>"
  from assms(3) have a3: "myName @ ''_bdy'' \<notin> set (map name (tras ?g'))" by simp
  from recordSteps_create [OF na a3, of ext L c]
    linkBod_all_unlinked [OF assms(2), of "myName @ ''_bdy''" "[]" "[]" False] assms(1)
  show ?thesis by (simp add: bodiesPart_def Let_def)
qed


lemma solidTrasform_geoDirs_fresh:
  assumes "th \<noteq> 0" and "bods g \<noteq> []" and "\<forall>b \<in> set (bods g). \<not> bodIsLinkedToTransform b"
    and "myName @ ''_bdy'' \<notin> set (map name (tras g))"
    and "\<forall>r \<in> set (regs g). \<not> isLattice r" and "lOnlyGeo \<or> bins g = []"
  shows "solidTrasform ext g (Some d) None (Theta th ax) lDegs True lOnlyGeo lWrapGeo myName c
           = Inr (g\<lparr>bods := map (\<lambda>b. b\<lparr>bodTransfName := myName @ ''_bdy''\<rparr>) (bods g),
                    tras := tras g @
                      [\<lparr>name = myName @ ''_bdy'',
                        comment = (case c of None \<Rightarrow> [] | Some cmt \<Rightarrow> headMe ext [] cmt),
                        ID = int (length (tras g)) + 1,
                        RotDefis = [Translation (vneg d), Rotation ax th]\<rparr>]\<rparr>)"
proof -
  let ?L = "[Rotation ax th, Translation (vneg d)]"
  let ?g1 = "g\<lparr>bods := map (\<lambda>b. b\<lparr>bodTransfName := myName @ ''_bdy''\<rparr>) (bods g),
                    tras := tras g @
                      [\<lparr>name = myName @ ''_bdy'',
                        comment = (case c of None \<Rightarrow> [] | Some cmt \<Rightarrow> headMe ext [] cmt),
                        ID = int (length (tras g)) + 1,
                        RotDefis = [Translation (vneg d), Rotation ax th]\<rparr>]\<rparr>"
  have b: "bodiesPart ext g myName ?L c = Inr ?g1"
    using bodiesPart_fresh [OF assms(2-4), of ext ?L c] by simp
  from assms(5) have "\<forall>r \<in> set (regs ?g1). \<not> isLattice r" by simp
  then have l: "latticePart ext ?g1 myName ?L I lWrapGeo c = Inr ?g1" for I
    by (rule latticePart_no_lattice)
  have u: "usrbinPart ext ?g1 myName ?L None c = Inr ?g1" if "bins g = []"
    by (rule usrbinPart_no_bins) (simp add: that)
  have "addTransformation ext g ?L I None True lOnlyGeo lWrapGeo myName c = Inr ?g1" for I
    using assms(6) u by (auto simp: addTransformation_def b l)
  with assms(1) show ?thesis
    by (simp add: solidTrasform_def rotationPart_def)
qed

text \<open>
  The general case: bodies, LATTICE regions and USRBINs may be linked to transformations
  already. The lemmas below follow the cards named \<^verbatim>\<open>T\<close> through the lookups and the
  updates in place of the three parts.
\<close>

lemma filter_update_other:
  "i < length xs \<Longrightarrow> \<not> Q (xs ! i) \<Longrightarrow> \<not> Q y \<Longrightarrow> filter Q (xs[i := y]) = filter Q xs"
proof (induction xs arbitrary: i)
  case Nil
  then show ?case by simp
next
  case (Cons x xs)
  then show ?case by (cases i) simp_all
qed

lemma filter_update_single:
  "i < length xs \<Longrightarrow> Q (xs ! i) \<Longrightarrow> Q y \<Longrightarrow> filter Q xs = [t]
     \<Longrightarrow> xs ! i = t \<and> filter Q (xs[i := y]) = [y]"
proof (induction xs arbitrary: i)
  case Nil
  then show ?case by simp
next
  case (Cons x xs)
  show ?case
  proof (cases i)
    case 0
    with Cons.prems show ?thesis by simp
  next
    case (Suc j)
    with Cons.prems have j: "j < length xs" "Q (xs ! j)" by simp_all
    show ?thesis
    proof (cases "Q x")
      case True
      with Cons.prems have "filter Q xs = []" by simp
      then have "\<forall>z \<in> set xs. \<not> Q z" by (simp add: filter_empty_conv)
      with j show ?thesis by auto
    next
      case False
      with Cons.prems have "filter Q xs = [t]" by simp
      from Cons.IH [OF j Cons.prems(3) this] False Suc show ?thesis by simp
    qed
  qed
qed

lemma withTransf_resolves:
  assumes "resolves g n"
  shows "\<exists>i < length (tras g). name (tras g ! i) = n
           \<and> withTransf g n f = Inr (g\<lparr>tras := (tras g)[i := f (tras g ! i)]\<rparr>)"
proof (cases "findFirst (\<lambda>myEntry. echoName myEntry = n) 0 (tras g)")
  case None
  from findFirst_None_iff [OF this] have "n \<notin> set (map name (tras g))"
    by (auto simp: echoName_def)
  with assms show ?thesis by (simp add: resolves_def)
next
  case (Some p)
  obtain i x where p: "p = (i, x)" by (cases p)
  from findFirst_result [OF Some [unfolded p]]
  have r: "i < length (tras g)" "x = tras g ! i" "echoName x = n" by auto
  from assms have na: "\<not> isALL n" by (simp add: resolves_def)
  from na Some p r have "withTransf g n f = Inr (g\<lparr>tras := (tras g)[i := f (tras g ! i)]\<rparr>)"
    by (simp add: withTransf_def retOne_def)
  with r show ?thesis by (auto simp: echoName_def)
qed

lemma keeps_refl: "keeps g g" by (simp add: keeps_def)

lemma keeps_trans: "keeps g g1 \<Longrightarrow> keeps g1 g2 \<Longrightarrow> keeps g g2" by (simp add: keeps_def)

lemma keeps_resolves: "keeps g g' \<Longrightarrow> resolves g n \<Longrightarrow> resolves g' n"
  by (simp add: keeps_def resolves_def)

lemma withTransf_keeps:
  assumes "resolves g n" and "\<And>t. name (f t) = name t"
  shows "\<exists>g'. withTransf g n f = Inr g' \<and> keeps g g'
           \<and> (\<forall>T. T \<noteq> n \<longrightarrow> cardsNamed g' T = cardsNamed g T)
           \<and> (\<forall>t. cardsNamed g n = [t] \<longrightarrow> cardsNamed g' n = [f t])"
proof -
  from withTransf_resolves [OF assms(1), of f] obtain i where
    i: "i < length (tras g)" "name (tras g ! i) = n"
    and w: "withTransf g n f = Inr (g\<lparr>tras := (tras g)[i := f (tras g ! i)]\<rparr>)" by blast
  let ?g' = "g\<lparr>tras := (tras g)[i := f (tras g ! i)]\<rparr>"
  have "map name ((tras g)[i := f (tras g ! i)]) = (map name (tras g))[i := name (tras g ! i)]"
    by (simp add: map_update assms(2))
  also have "\<dots> = map name (tras g)" using i(1) by (simp add: list_update_same_conv)
  finally have k: "keeps g ?g'" by (simp add: keeps_def)
  have o: "cardsNamed ?g' T = cardsNamed g T" if "T \<noteq> n" for T
    using that i by (simp add: cardsNamed_def filter_update_other assms(2))
  have s: "cardsNamed ?g' n = [f t]" if "cardsNamed g n = [t]" for t
    using filter_update_single [of i "tras g" "\<lambda>t. name t = n" "f (tras g ! i)" t] that i
    by (auto simp: cardsNamed_def assms(2))
  from w k o s show ?thesis by simp
qed

lemma withTransfs_keeps:
  assumes "\<And>t. name (f t) = name t"
  shows "list_all (resolves g) ns \<Longrightarrow>
     \<exists>g'. withTransfs g ns f = Inr g' \<and> keeps g g'
           \<and> (\<forall>T. T \<notin> set ns \<longrightarrow> cardsNamed g' T = cardsNamed g T)
           \<and> (\<forall>T t. T \<in> set ns \<longrightarrow> distinct ns \<longrightarrow> cardsNamed g T = [t] \<longrightarrow> cardsNamed g' T = [f t])"
proof (induction ns arbitrary: g)
  case Nil
  then show ?case by (simp add: keeps_refl)
next
  case (Cons n ns)
  from Cons.prems have rn: "resolves g n" and rest: "list_all (resolves g) ns" by simp_all
  from withTransf_keeps [OF rn assms] obtain g1 where
    w: "withTransf g n f = Inr g1" and k1: "keeps g g1"
    and o1: "\<And>T. T \<noteq> n \<Longrightarrow> cardsNamed g1 T = cardsNamed g T"
    and s1: "\<And>t. cardsNamed g n = [t] \<Longrightarrow> cardsNamed g1 n = [f t]" by blast
  from rest k1 have "list_all (resolves g1) ns"
    by (simp add: list_all_iff keeps_resolves)
  from Cons.IH [OF this] obtain g2 where
    w2: "withTransfs g1 ns f = Inr g2" and k2: "keeps g1 g2"
    and o2: "\<And>T. T \<notin> set ns \<Longrightarrow> cardsNamed g2 T = cardsNamed g1 T"
    and s2: "\<And>T t. T \<in> set ns \<Longrightarrow> distinct ns \<Longrightarrow> cardsNamed g1 T = [t] \<Longrightarrow> cardsNamed g2 T = [f t]"
    by blast
  have a: "withTransfs g (n # ns) f = Inr g2" using w w2 by simp
  have b: "keeps g g2" using k1 k2 by (rule keeps_trans)
  have c: "cardsNamed g2 T = cardsNamed g T" if "T \<notin> set (n # ns)" for T
    using that o1 [of T] o2 [of T] by simp
  have d: "cardsNamed g2 T = [f t]"
    if "T \<in> set (n # ns)" "distinct (n # ns)" "cardsNamed g T = [t]" for T t
  proof (cases "T = n")
    case True
    with that(2) have "T \<notin> set ns" by simp
    from o2 [OF this] s1 [of t] that(3) True show ?thesis by simp
  next
    case False
    with that have "T \<in> set ns" "distinct ns" "cardsNamed g1 T = [t]"
      using o1 [of T] by simp_all
    then show ?thesis by (rule s2)
  qed
  from a b c d show ?case by blast
qed


lemma grows_refl: "grows g g" by (simp add: grows_def)

lemma keeps_grows: "keeps g g' \<Longrightarrow> grows g g'" by (simp add: keeps_def grows_def)

lemma grows_trans: "grows g g1 \<Longrightarrow> grows g1 g2 \<Longrightarrow> grows g g2" by (auto simp: grows_def)

lemma grows_resolves: "grows g g' \<Longrightarrow> resolves g n \<Longrightarrow> resolves g' n"
  by (auto simp: grows_def resolves_def)

lemma grows_resolves_all: "grows g g' \<Longrightarrow> list_all (resolves g) ns \<Longrightarrow> list_all (resolves g') ns"
  by (simp add: list_all_iff grows_resolves)

lemma set_collects: "set (collects tt ns) = set tt \<union> set ns"
  by (induction ns arbitrary: tt) (auto simp: collects_def collect_def)

lemma distinct_collects: "distinct tt \<Longrightarrow> distinct (collects tt ns)"
  by (induction ns arbitrary: tt) (auto simp: collects_def collect_def)

lemma linkBod_fold:
  "foldl (linkBod T) (acc, tt, lc) bs
     = (acc @ map (relinkBod T) bs,
        collects tt (map bodTransfName (filter bodIsLinkedToTransform bs)),
        lc \<or> (\<exists>b \<in> set bs. \<not> bodIsLinkedToTransform b))"
  by (induction bs arbitrary: acc tt lc) (auto simp: linkBod_def relinkBod_def collects_def)

lemma linkReg_fold:
  "foldl (linkReg T) (acc, tt, lc) rs
     = (acc @ map (relinkReg T) rs,
        collects tt (map regTransfName (filter (\<lambda>r. isLattice r \<and> regIsLinkedToTransform r) rs)),
        lc \<or> (\<exists>r \<in> set rs. isLattice r \<and> \<not> regIsLinkedToTransform r))"
  by (induction rs arbitrary: acc tt lc) (auto simp: linkReg_def relinkReg_def collects_def)

lemma linkBin_fold:
  "foldl (linkBin ext T None) (acc, tt, lc) bs
     = (acc @ map (relinkBin T) bs,
        collects tt (map TransfName (filter binIsLinkedToTransform bs)),
        lc \<or> (\<exists>b \<in> set bs. \<not> binIsLinkedToTransform b))"
  by (induction bs arbitrary: acc tt lc) (auto simp: linkBin_def relinkBin_def collects_def)

lemma createTransf_grows:
  assumes "\<not> isALL Tn" and "list_all (resolves g) ns"
  shows "\<exists>gc nc. createTransf g Tn lc ns = (gc, nc) \<and> grows g gc
           \<and> list_all (resolves gc) nc \<and> (lc \<longrightarrow> resolves gc Tn)
           \<and> set nc \<subseteq> insert Tn (set ns)
           \<and> (\<forall>T. T \<noteq> Tn \<longrightarrow> cardsNamed gc T = cardsNamed g T)
           \<and> (lc \<longrightarrow> Tn \<notin> set (map name (tras g)) \<longrightarrow>
                nc = ns @ [Tn]
                \<and> cardsNamed gc Tn = [newTransformation (int (length (tras g)) + 1) Tn])"
proof (cases "lc \<and> Tn \<notin> set (map name (tras g))")
  case True
  let ?new = "newTransformation (int (length (tras g)) + 1) Tn"
  let ?gc = "g\<lparr>tras := tras g @ [?new]\<rparr>"
  from True have c: "createTransf g Tn lc ns = (?gc, ns @ [Tn])"
    using retDirect_TRANSF_absent [OF assms(1), of g] by (simp add: createTransf_def)
  have gr: "grows g ?gc" by (auto simp: grows_def)
  have r: "resolves ?gc Tn" using assms(1) by (simp add: resolves_def newTransformation_def)
  from grows_resolves_all [OF gr assms(2)] r have ra: "list_all (resolves ?gc) (ns @ [Tn])" by simp
  have o: "cardsNamed ?gc T = cardsNamed g T" if "T \<noteq> Tn" for T
    using that by (auto simp: cardsNamed_def newTransformation_def)
  from True have "filter (\<lambda>t. name t = Tn) (tras g) = []"
    by (auto simp: filter_empty_conv)
  then have s: "cardsNamed ?gc Tn = [?new]" by (simp add: cardsNamed_def newTransformation_def)
  from c gr r ra o s show ?thesis by auto
next
  case False
  have c: "createTransf g Tn lc ns = (g, ns)"
  proof (cases lc)
    case lc: True
    with False have "Tn \<in> set (map name (tras g))" by simp
    with assms(1) have "resolves g Tn" by (simp add: resolves_def)
    from withTransf_resolves [OF this, of id] obtain i where
      "withTransf g Tn id = Inr (g\<lparr>tras := (tras g)[i := id (tras g ! i)]\<rparr>)" by blast
    then have "\<exists>t ix. retDirect g TRANSF Tn = Inr (Obj t, ix)"
      by (auto simp: withTransf_def split: sum.splits prod.splits Entry.splits)
    then show ?thesis by (auto simp: createTransf_def)
  next
    case lc: False
    then show ?thesis by (simp add: createTransf_def)
  qed
  have r: "lc \<longrightarrow> resolves g Tn" using False assms(1) by (auto simp: resolves_def)
  from c r assms(2) False show ?thesis by (auto simp: grows_refl)
qed

lemma name_AddRotDefis: "name (AddRotDefis L i t) = name t"
proof (induction L arbitrary: t)
  case Nil
  then show ?case by (simp add: AddRotDefis_def)
next
  case (Cons s L)
  have "AddRotDefis (s # L) i t = AddRotDefis L i (AddRotDefi i t s)"
    by (simp add: AddRotDefis_def)
  with Cons.IH [of "AddRotDefi i t s"] show ?case by (simp add: AddRotDefi_def)
qed

lemma recordSteps_grows:
  assumes "\<not> isALL Tn" and "list_all (resolves g) ns"
  shows "\<exists>g'. recordSteps ext g Tn lc ns L wrap c = Inr g' \<and> grows g g'
           \<and> (\<forall>T. T \<noteq> Tn \<longrightarrow> T \<notin> set ns \<longrightarrow> cardsNamed g' T = cardsNamed g T)
           \<and> (lc \<longrightarrow> Tn \<notin> set (map name (tras g)) \<longrightarrow> distinct ns \<longrightarrow> wrap = None
                \<longrightarrow> map RotDefis (cardsNamed g' Tn) = [rev L])"
proof -
  let ?f = "\<lambda>myTras. let t1 = AddRotDefis L 0 myTras in
                        (case wrap of
                           None \<Rightarrow> t1
                         | Some ROTDEFIlistINV \<Rightarrow> AddRotDefis (rev ROTDEFIlistINV) (- 1) t1)"
  let ?new = "newTransformation (int (length (tras g)) + 1) Tn"
  have nf: "name (?f t) = name t" for t
    by (simp add: Let_def name_AddRotDefis split: option.splits)
  from createTransf_grows [OF assms, of lc] obtain gc nc where
    c: "createTransf g Tn lc ns = (gc, nc)" and gr: "grows g gc"
    and ra: "list_all (resolves gc) nc" and r: "lc \<longrightarrow> resolves gc Tn"
    and sub: "set nc \<subseteq> insert Tn (set ns)"
    and o: "\<And>T. T \<noteq> Tn \<Longrightarrow> cardsNamed gc T = cardsNamed g T"
    and s: "lc \<longrightarrow> Tn \<notin> set (map name (tras g)) \<longrightarrow>
              nc = ns @ [Tn] \<and> cardsNamed gc Tn = [?new]"
    by blast
  from withTransfs_keeps [of ?f gc nc, OF nf ra] obtain g1 where
    w: "withTransfs gc nc ?f = Inr g1" and k1: "keeps gc g1"
    and o1: "\<And>T. T \<notin> set nc \<Longrightarrow> cardsNamed g1 T = cardsNamed gc T"
    and s1: "\<And>T t. T \<in> set nc \<Longrightarrow> distinct nc \<Longrightarrow> cardsNamed gc T = [t] \<Longrightarrow> cardsNamed g1 T = [?f t]"
    by blast
  have g1: "grows g g1" using gr keeps_grows [OF k1] by (rule grows_trans)
  have other1: "cardsNamed g1 T = cardsNamed g T" if "T \<noteq> Tn" "T \<notin> set ns" for T
  proof -
    from that sub have "T \<notin> set nc" by auto
    from o1 [OF this] o [OF that(1)] show ?thesis by simp
  qed
  have card1: "cardsNamed g1 Tn = [?f ?new]"
    if "lc" "Tn \<notin> set (map name (tras g))" "distinct ns"
  proof -
    from s that have nc: "nc = ns @ [Tn]" and cn: "cardsNamed gc Tn = [?new]" by simp_all
    from assms(2) that(2) have "Tn \<notin> set ns"
      by (auto simp: list_all_iff resolves_def)
    with that(3) nc have "distinct nc" "Tn \<in> set nc" by simp_all
    from s1 [OF this(2) this(1) cn] show ?thesis .
  qed
  have rd: "RotDefis (?f ?new) = rev L" if "wrap = None"
    using that by (simp add: AddRotDefis_prepend newTransformation_def)
  show ?thesis
  proof (cases "lc \<and> c \<noteq> None")
    case False
    then have "recordSteps ext g Tn lc ns L wrap c = Inr g1"
      by (auto simp: recordSteps_def c w split: option.splits)
    with g1 other1 card1 rd show ?thesis by auto
  next
    case True
    then obtain cmt where cm: "c = Some cmt" and lc: lc by auto
    let ?h = "\<lambda>myEntry :: Transformation. myEntry\<lparr>comment := headMe ext (comment myEntry) cmt\<rparr>"
    from r lc keeps_resolves [OF k1] have "resolves g1 Tn" by simp
    from withTransf_keeps [of g1 Tn ?h, OF this] obtain g2 where
      w2: "withTransf g1 Tn ?h = Inr g2" and k2: "keeps g1 g2"
      and o2: "\<And>T. T \<noteq> Tn \<Longrightarrow> cardsNamed g2 T = cardsNamed g1 T"
      and s2: "\<And>t. cardsNamed g1 Tn = [t] \<Longrightarrow> cardsNamed g2 Tn = [?h t]"
      by auto
    have e: "recordSteps ext g Tn lc ns L wrap c = Inr g2"
      using cm lc c w w2 by (simp add: recordSteps_def)
    have g2: "grows g g2" using g1 keeps_grows [OF k2] by (rule grows_trans)
    have other2: "cardsNamed g2 T = cardsNamed g T" if "T \<noteq> Tn" "T \<notin> set ns" for T
      using o2 [OF that(1)] other1 [OF that] by simp
    have card2: "map RotDefis (cardsNamed g2 Tn) = [rev L]"
      if "lc" "Tn \<notin> set (map name (tras g))" "distinct ns" "wrap = None"
      using s2 [OF card1 [OF that(1-3)]] rd [OF that(4)] by simp
    from e g2 other2 card2 show ?thesis by auto
  qed
qed


lemma resolves_tras: "tras g' = tras g \<Longrightarrow> resolves g' n = resolves g n"
  by (simp add: resolves_def)

lemma cardsNamed_tras: "tras g' = tras g \<Longrightarrow> cardsNamed g' T = cardsNamed g T"
  by (simp add: cardsNamed_def)

lemma resolves_collects:
  "list_all (resolves g) ns \<Longrightarrow> list_all (resolves g) (collects [] ns)"
  by (simp add: list_all_iff set_collects)

lemma bodiesPart_grows:
  assumes "list_all (resolves g) (bodLinks g)"
  shows "\<exists>g'. bodiesPart ext g myName L c = Inr g'
           \<and> bods g' = map (relinkBod (myName @ ''_bdy'')) (bods g)
           \<and> regs g' = regs g \<and> bins g' = bins g
           \<and> set (map name (tras g)) \<subseteq> set (map name (tras g'))
           \<and> ((\<exists>b \<in> set (bods g). \<not> bodIsLinkedToTransform b)
                \<longrightarrow> myName @ ''_bdy'' \<notin> set (map name (tras g))
                \<longrightarrow> map RotDefis (cardsNamed g' (myName @ ''_bdy'')) = [rev L])"
proof -
  let ?T = "myName @ ''_bdy''"
  let ?ns = "collects [] (bodLinks g)"
  let ?lc = "\<exists>b \<in> set (bods g). \<not> bodIsLinkedToTransform b"
  let ?g0 = "g\<lparr>bods := map (relinkBod ?T) (bods g)\<rparr>"
  have na: "\<not> isALL ?T" by (rule not_isALL_suffix4) simp
  have "list_all (resolves ?g0) (bodLinks g)"
    using assms by (simp add: list_all_iff resolves_tras [of ?g0 g])
  then have ra: "list_all (resolves ?g0) ?ns" by (rule resolves_collects)
  have d: "distinct ?ns" by (rule distinct_collects) simp
  have e: "bodiesPart ext g myName L c = recordSteps ext ?g0 ?T ?lc ?ns L None c"
    by (simp add: bodiesPart_def Let_def linkBod_fold bodLinks_def)
  from recordSteps_grows [OF na ra, of ext ?lc L None c] obtain g' where
    r: "recordSteps ext ?g0 ?T ?lc ?ns L None c = Inr g'" and gr: "grows ?g0 g'"
    and oth: "\<forall>T. T \<noteq> ?T \<longrightarrow> T \<notin> set ?ns \<longrightarrow> cardsNamed g' T = cardsNamed ?g0 T"
    and card: "?lc \<longrightarrow> ?T \<notin> set (map name (tras ?g0)) \<longrightarrow> distinct ?ns \<longrightarrow> None = (None :: RotDefi list option)
                \<longrightarrow> map RotDefis (cardsNamed g' ?T) = [rev L]"
    by (elim exE conjE) (rule that)
  from gr have g: "bods g' = map (relinkBod ?T) (bods g)" "regs g' = regs g" "bins g' = bins g"
    "set (map name (tras g)) \<subseteq> set (map name (tras g'))"
    by (simp_all add: grows_def)
  from card d have "?lc \<longrightarrow> ?T \<notin> set (map name (tras g)) \<longrightarrow> map RotDefis (cardsNamed g' ?T) = [rev L]"
    by simp
  with e r g show ?thesis by simp
qed

lemma latticePart_grows:
  assumes "list_all (resolves g) (latLinks g)"
  shows "\<exists>g'. latticePart ext g myName L I w c = Inr g'
           \<and> bods g' = bods g \<and> bins g' = bins g
           \<and> set (map name (tras g)) \<subseteq> set (map name (tras g'))
           \<and> (\<forall>T. T \<noteq> myName @ ''_lat'' \<longrightarrow> T \<notin> set (latLinks g)
                 \<longrightarrow> cardsNamed g' T = cardsNamed g T)"
proof -
  let ?T = "myName @ ''_lat''"
  let ?ns = "collects [] (latLinks g)"
  let ?lc = "\<exists>r \<in> set (regs g). isLattice r \<and> \<not> regIsLinkedToTransform r"
  let ?g0 = "g\<lparr>regs := map (relinkReg ?T) (regs g)\<rparr>"
  let ?w = "if w then Some I else None"
  have na: "\<not> isALL ?T" by (rule not_isALL_suffix4) simp
  have "list_all (resolves ?g0) (latLinks g)"
    using assms by (simp add: list_all_iff resolves_tras [of ?g0 g])
  then have ra: "list_all (resolves ?g0) ?ns" by (rule resolves_collects)
  have e: "latticePart ext g myName L I w c = recordSteps ext ?g0 ?T ?lc ?ns L ?w c"
    by (simp add: latticePart_def Let_def linkReg_fold latLinks_def)
  from recordSteps_grows [OF na ra, of ext ?lc L ?w c] obtain g' where
    r: "recordSteps ext ?g0 ?T ?lc ?ns L ?w c = Inr g'" and gr: "grows ?g0 g'"
    and oth: "\<forall>T. T \<noteq> ?T \<longrightarrow> T \<notin> set ?ns \<longrightarrow> cardsNamed g' T = cardsNamed ?g0 T"
    and card: "?lc \<longrightarrow> ?T \<notin> set (map name (tras ?g0)) \<longrightarrow> distinct ?ns \<longrightarrow> ?w = None
                \<longrightarrow> map RotDefis (cardsNamed g' ?T) = [rev L]"
    by (elim exE conjE) (rule that)
  note o = oth [rule_format]
  from gr have g: "bods g' = bods g" "bins g' = bins g"
    "set (map name (tras g)) \<subseteq> set (map name (tras g'))"
    by (simp_all add: grows_def)
  have "cardsNamed g' T = cardsNamed g T" if "T \<noteq> ?T" "T \<notin> set (latLinks g)" for T
    using o [of T] that by (simp add: set_collects cardsNamed_tras [of ?g0 g])
  with e r g show ?thesis by simp
qed

lemma usrbinPart_grows:
  assumes "list_all (resolves g) (binLinks g)"
  shows "\<exists>g'. usrbinPart ext g myName L None c = Inr g'
           \<and> bods g' = bods g
           \<and> (\<forall>T. T \<noteq> myName @ ''_bin'' \<longrightarrow> T \<notin> set (binLinks g)
                 \<longrightarrow> cardsNamed g' T = cardsNamed g T)"
proof -
  let ?T = "myName @ ''_bin''"
  let ?ns = "collects [] (binLinks g)"
  let ?lc = "\<exists>b \<in> set (bins g). \<not> binIsLinkedToTransform b"
  let ?g0 = "g\<lparr>bins := map (relinkBin ?T) (bins g)\<rparr>"
  have na: "\<not> isALL ?T" by (rule not_isALL_suffix4) simp
  have "list_all (resolves ?g0) (binLinks g)"
    using assms by (simp add: list_all_iff resolves_tras [of ?g0 g])
  then have ra: "list_all (resolves ?g0) ?ns" by (rule resolves_collects)
  have e: "usrbinPart ext g myName L None c = recordSteps ext ?g0 ?T ?lc ?ns L None c"
    by (simp add: usrbinPart_def Let_def linkBin_fold binLinks_def)
  from recordSteps_grows [OF na ra, of ext ?lc L None c] obtain g' where
    r: "recordSteps ext ?g0 ?T ?lc ?ns L None c = Inr g'" and gr: "grows ?g0 g'"
    and oth: "\<forall>T. T \<noteq> ?T \<longrightarrow> T \<notin> set ?ns \<longrightarrow> cardsNamed g' T = cardsNamed ?g0 T"
    and card: "?lc \<longrightarrow> ?T \<notin> set (map name (tras ?g0)) \<longrightarrow> distinct ?ns \<longrightarrow> None = (None :: RotDefi list option)
                \<longrightarrow> map RotDefis (cardsNamed g' ?T) = [rev L]"
    by (elim exE conjE) (rule that)
  note o = oth [rule_format]
  from gr have g: "bods g' = bods g" by (simp add: grows_def)
  have "cardsNamed g' T = cardsNamed g T" if "T \<noteq> ?T" "T \<notin> set (binLinks g)" for T
    using o [of T] that by (simp add: set_collects cardsNamed_tras [of ?g0 g])
  with e r g show ?thesis by simp
qed

lemma resolves_mono:
  "set (map name (tras g)) \<subseteq> set (map name (tras g')) \<Longrightarrow> list_all (resolves g) ns
     \<Longrightarrow> list_all (resolves g') ns"
  by (auto simp: list_all_iff resolves_def)

lemma resolved_not_fresh:
  "list_all (resolves g) ns \<Longrightarrow> T \<notin> set (map name (tras g)) \<Longrightarrow> T \<notin> set ns"
  by (auto simp: list_all_iff resolves_def)

lemma addTransformation_geoDirs:
  assumes "\<exists>b \<in> set (bods g). \<not> bodIsLinkedToTransform b"
    and "myName @ ''_bdy'' \<notin> set (map name (tras g))"
    and "linksResolve g lOnlyGeo"
  shows "\<exists>g'. addTransformation ext g L I None True lOnlyGeo lWrapGeo myName c = Inr g'
           \<and> map RotDefis (cardsNamed g' (myName @ ''_bdy'')) = [rev L]
           \<and> bods g' = map (relinkBod (myName @ ''_bdy'')) (bods g)"
proof -
  let ?T = "myName @ ''_bdy''"
  from assms(3) have rb: "list_all (resolves g) (bodLinks g)"
    and rl: "list_all (resolves g) (latLinks g)"
    and ru: "lOnlyGeo \<or> list_all (resolves g) (binLinks g)"
    by (simp_all add: linksResolve_def)
  from bodiesPart_grows [OF rb, of ext myName L c] obtain g1 where
    p1: "bodiesPart ext g myName L c = Inr g1"
    and b1: "bods g1 = map (relinkBod ?T) (bods g)" "regs g1 = regs g" "bins g1 = bins g"
    and n1: "set (map name (tras g)) \<subseteq> set (map name (tras g1))"
    and c0: "(\<exists>b \<in> set (bods g). \<not> bodIsLinkedToTransform b)
                \<longrightarrow> ?T \<notin> set (map name (tras g))
                \<longrightarrow> map RotDefis (cardsNamed g1 ?T) = [rev L]"
    by (elim exE conjE) (rule that)
  from c0 assms(1,2) have c1: "map RotDefis (cardsNamed g1 ?T) = [rev L]" by simp
  have l1: "latLinks g1 = latLinks g" by (simp add: latLinks_def b1)
  have rl1: "list_all (resolves g1) (latLinks g1)"
    unfolding l1 using n1 rl by (rule resolves_mono)
  from latticePart_grows [OF rl1, of ext myName L I lWrapGeo c] obtain g2 where
    p2: "latticePart ext g1 myName L I lWrapGeo c = Inr g2"
    and b2: "bods g2 = bods g1" "bins g2 = bins g1"
    and n2: "set (map name (tras g1)) \<subseteq> set (map name (tras g2))"
    and oth2: "\<forall>T. T \<noteq> myName @ ''_lat'' \<longrightarrow> T \<notin> set (latLinks g1) \<longrightarrow> cardsNamed g2 T = cardsNamed g1 T"
    by (elim exE conjE) (rule that)
  note o2 = oth2 [rule_format]
  have "?T \<notin> set (latLinks g1)" unfolding l1 using rl assms(2) by (rule resolved_not_fresh)
  then have c2: "cardsNamed g2 ?T = cardsNamed g1 ?T" by (intro o2) simp_all
  show ?thesis
  proof (cases lOnlyGeo)
    case True
    then have "addTransformation ext g L I None True lOnlyGeo lWrapGeo myName c = Inr g2"
      by (simp add: addTransformation_def p1 p2)
    with c1 c2 b1 b2 show ?thesis by simp
  next
    case False
    with ru have rb: "list_all (resolves g) (binLinks g)" by simp
    have l2: "binLinks g2 = binLinks g" by (simp add: binLinks_def b1 b2)
    from n1 n2 have "set (map name (tras g)) \<subseteq> set (map name (tras g2))" by blast
    then have ru2: "list_all (resolves g2) (binLinks g2)"
      unfolding l2 using rb by (rule resolves_mono)
    from usrbinPart_grows [OF ru2, of ext myName L c] obtain g3 where
      p3: "usrbinPart ext g2 myName L None c = Inr g3"
      and b3: "bods g3 = bods g2"
      and oth3: "\<forall>T. T \<noteq> myName @ ''_bin'' \<longrightarrow> T \<notin> set (binLinks g2) \<longrightarrow> cardsNamed g3 T = cardsNamed g2 T"
      by (elim exE conjE) (rule that)
    note o3 = oth3 [rule_format]
    have "?T \<notin> set (binLinks g2)" unfolding l2 using rb assms(2) by (rule resolved_not_fresh)
    then have c3: "cardsNamed g3 ?T = cardsNamed g2 ?T" by (intro o3) simp_all
    from False have "addTransformation ext g L I None True lOnlyGeo lWrapGeo myName c = Inr g3"
      by (simp add: addTransformation_def p1 p2 p3)
    with c1 c2 c3 b1 b2 b3 show ?thesis by simp
  qed
qed

text \<open>
  Claim C1, as the code has it. Take a geometry in which at least one body is not linked
  to a transformation (so that the call records a card for the bodies), no transformation
  carries the name of that card, \<^verbatim>\<open>myName_bdy\<close> (\<^verbatim>\<open>ToFinPos_bdy\<close> by default), and
  every transform link that the call follows resolves (otherwise the call raises). Bodies
  may be linked already, and there may be LATTICE regions and USRBINs, linked or not. A call
  of \<^verbatim>\<open>solidTrasform\<close> in geometry-directive mode with \<^verbatim>\<open>myTheta=90\<close>,
  \<^verbatim>\<open>myAxis=2\<close> and \<^verbatim>\<open>dd=(0,0,10)\<close> returns, and in the geometry it leaves there is
  exactly one transformation of that name, whose card holds exactly two steps in this
  order: first the translation (0,0,-10), then the rotation about axis 2 with the angle as
  passed, 90. Every body that was not linked is linked to it. (The translation is negated;
  the angle is not: the card holds the inverse rotation written in the azimuth convention of
  opposite sign.)
\<close>

theorem solidTrasform_records_translation_then_rotation:
  assumes "\<exists>b \<in> set (bods g). \<not> bodIsLinkedToTransform b"
    and "myName @ ''_bdy'' \<notin> set (map name (tras g))"
    and "linksResolve g lOnlyGeo"
  shows "\<exists>g'. solidTrasform ext g (Some (0, 0, 10)) None (Theta 90 2) lDegs True lOnlyGeo lWrapGeo
                 myName myComment = Inr g'
           \<and> map RotDefis (cardsNamed g' (myName @ ''_bdy''))
               = [[Translation (0, 0, - 10), Rotation 2 90]]
           \<and> bods g' = map (relinkBod (myName @ ''_bdy'')) (bods g)"
proof -
  have "solidTrasform ext g (Some (0, 0, 10)) None (Theta 90 2) lDegs True lOnlyGeo lWrapGeo
          myName myComment
        = addTransformation ext g [Rotation 2 90, Translation (0, 0, - 10)]
            ((if lWrapGeo then [Rotation 2 (- 90)] else []) @ (if lWrapGeo then [Translation (0, 0, 10)] else []))
            None True lOnlyGeo lWrapGeo myName myComment"
    by (simp add: solidTrasform_def rotationPart_def vneg_def)
  with addTransformation_geoDirs [OF assms, of ext "[Rotation 2 90, Translation (0, 0, - 10)]"
         "(if lWrapGeo then [Rotation 2 (- 90)] else []) @ (if lWrapGeo then [Translation (0, 0, 10)] else [])"
         lWrapGeo myComment]
  show ?thesis by simp
qed



lemma ex_geoM_facts:
  "\<exists>b \<in> set (bods ex_geoM). \<not> bodIsLinkedToTransform b"
  "''ToFinPos'' @ ''_bdy'' \<notin> set (map name (tras ex_geoM))"
  "linksResolve ex_geoM False"
  "map (relinkBod (''ToFinPos'' @ ''_bdy'')) (bods ex_geoM)
     = [ex_body ''B1'' ''T0'', ex_body ''B2'' ''ToFinPos_bdy'']"
  by (simp_all add: ex_geoM_def ex_body_def ex_bin_def bodIsLinkedToTransform_def
        binIsLinkedToTransform_def isLattice_def newRegion_def linksResolve_def bodLinks_def
        latLinks_def binLinks_def resolves_def isALL_def upper_def relinkBod_def)

theorem solidTrasform_records_translation_then_rotation_witness:
  "(\<exists>b \<in> set (bods ex_geoM). \<not> bodIsLinkedToTransform b)
   \<and> ''ToFinPos_bdy'' \<notin> set (map name (tras ex_geoM))
   \<and> linksResolve ex_geoM False
   \<and> (\<exists>g'. solidTrasform ex_ext ex_geoM (Some (0, 0, 10)) None (Theta 90 2) True True False False
                 ''ToFinPos'' None = Inr g'
           \<and> map RotDefis (cardsNamed g' ''ToFinPos_bdy'')
               = [[Translation (0, 0, - 10), Rotation 2 90]]
           \<and> bods g' = [ex_body ''B1'' ''T0'', ex_body ''B2'' ''ToFinPos_bdy''])"
  using solidTrasform_records_translation_then_rotation
          [OF ex_geoM_facts(1-3), of ex_ext True False None] ex_geoM_facts
  by simp

text \<open>
  The whole geometry that the call leaves in that example: the transformation T0, which a
  body and a USRBIN are linked to, has the two steps put before its own, once by the bodies
  part and once by the USRBIN part.
\<close>

lemma solidTrasform_mixed_links_example:
  "solidTrasform ex_ext ex_geoM (Some (0, 0, 10)) None (Theta 90 2) True True False False
     ''ToFinPos'' None
   = Inr (ex_geoM\<lparr>bods := [ex_body ''B1'' ''T0'', ex_body ''B2'' ''ToFinPos_bdy''],
            bins := [ex_bin\<lparr>TransfName := ''T0''\<rparr>, ex_bin\<lparr>name := ''Dose'', TransfName := ''ToFinPos_bin''\<rparr>],
            tras := [\<lparr>name = ''T0'', comment = [], ID = 1,
                      RotDefis = [Translation (0, 0, - 10), Rotation 2 90,
                                  Translation (0, 0, - 10), Rotation 2 90, Rotation 1 30]\<rparr>,
                     \<lparr>name = ''ToFinPos_bdy'', comment = [], ID = 2,
                      RotDefis = [Translation (0, 0, - 10), Rotation 2 90]\<rparr>,
                     \<lparr>name = ''ToFinPos_bin'', comment = [], ID = 3,
                      RotDefis = [Translation (0, 0, - 10), Rotation 2 90]\<rparr>]\<rparr>)"
  by code_simp

text \<open>
  What the three conditions on the geometry are for. When every body is linked already, no
  card \<^verbatim>\<open>ToFinPos_bdy\<close> is recorded; when a transformation of that name exists, the
  bodies are linked to it but it is left with the steps it holds (its name does not join
  \<^verbatim>\<open>tTrasfs\<close>); when a link names no transformation, the lookup gives \<^verbatim>\<open>None\<close>
  and the call raises.
\<close>

lemma solidTrasform_all_bodies_linked:
  "map_sum id (\<lambda>g'. map RotDefis (cardsNamed g' ''ToFinPos_bdy''))
     (solidTrasform ex_ext (ex_geoM\<lparr>bods := [ex_body ''B1'' ''T0'']\<rparr>)
        (Some (0, 0, 10)) None (Theta 90 2) True True False False ''ToFinPos'' None)
   = Inr []"
  by code_simp

lemma solidTrasform_card_exists:
  "map_sum id (\<lambda>g'. map RotDefis (cardsNamed g' ''ToFinPos_bdy''))
     (solidTrasform ex_ext
        (ex_geoM\<lparr>tras := tras ex_geoM @ [\<lparr>name = ''ToFinPos_bdy'', comment = [], ID = 2,
                                            RotDefis = [Rotation 3 45]\<rparr>]\<rparr>)
        (Some (0, 0, 10)) None (Theta 90 2) True True False False ''ToFinPos'' None)
   = Inr [[Rotation 3 45]]"
  by code_simp

lemma solidTrasform_dangling_link:
  "solidTrasform ex_ext (ex_geoM\<lparr>tras := []\<rparr>)
     (Some (0, 0, 10)) None (Theta 90 2) True True False False ''ToFinPos'' None
   = Inl AttributeError"
  by code_simp

lemma ex_geoB_facts:
  "bods ex_geoB \<noteq> []" "\<forall>b \<in> set (bods ex_geoB). \<not> bodIsLinkedToTransform b"
  "''ToFinPos_bdy'' \<notin> set (map name (tras ex_geoB))"
  "\<forall>r \<in> set (regs ex_geoB). \<not> isLattice r" "bins ex_geoB = []"
  by (simp_all add: ex_geoB_def ex_body_def bodIsLinkedToTransform_def isLattice_def newRegion_def)

text \<open>
  The claim as stated asks for a rotation step of -90 degrees. For bodies B1 and B2 and a
  region R1 the card that the code records ends with the step built from
  \<^verbatim>\<open>RotDefi(myAx=2,myTh=90)\<close>.
\<close>

theorem solidTrasform_rotation_sign_counterexample:
  "solidTrasform ex_ext ex_geoB (Some (0, 0, 10)) None (Theta 90 2) True True False False
     ''ToFinPos'' None
   = Inr (ex_geoB\<lparr>bods := [ex_body ''B1'' ''ToFinPos_bdy'', ex_body ''B2'' ''ToFinPos_bdy''],
            tras := [\<lparr>name = ''ToFinPos_bdy'', comment = [], ID = 1,
                      RotDefis = [Translation (0, 0, - 10), Rotation 2 90]\<rparr>]\<rparr>)
   \<and> [Translation (0, 0, - 10), Rotation 2 90] \<noteq> [Translation (0, 0, - 10), Rotation 2 (- 90)]"
proof -
  have "solidTrasform ex_ext ex_geoB (Some (0, 0, 10)) None (Theta 90 2) True True False False
     ''ToFinPos'' None
   = Inr (ex_geoB\<lparr>bods := [ex_body ''B1'' ''ToFinPos_bdy'', ex_body ''B2'' ''ToFinPos_bdy''],
            tras := [\<lparr>name = ''ToFinPos_bdy'', comment = [], ID = 1,
                      RotDefis = [Translation (0, 0, - 10), Rotation 2 90]\<rparr>]\<rparr>)"
    using solidTrasform_geoDirs_fresh [of 90 ex_geoB "''ToFinPos''" False ex_ext "(0, 0, 10)" 2 True False None]
      ex_geoB_facts
    by (simp add: vneg_def ex_geoB_def ex_body_def)
  then show ?thesis by simp
qed


section \<open>The null transformation\<close>

text \<open>
  A zero angle alone is skipped by the guard \<^verbatim>\<open>myTheta!=0.0\<close>: nothing is done to any
  geometry.
\<close>

lemma solidTrasform_zero_angle_alone:
  "solidTrasform ext g None None (Theta 0 myAxis) lDegs lGeoDirs lOnlyGeo lWrapGeo myName myComment
     = Inr g"
  by (simp add: solidTrasform_def rotationPart_def)

lemma linkBin_unlinked_None:
  "\<forall>b \<in> set bs. \<not> binIsLinkedToTransform b \<Longrightarrow>
     foldl (linkBin ext T None) (acc, tt, lc) bs
       = (acc @ map (\<lambda>b. b\<lparr>TransfName := T\<rparr>) bs, tt, lc \<or> bs \<noteq> [])"
  by (induction bs arbitrary: acc lc) (simp_all add: linkBin_def)

lemma usrbinPart_fresh:
  assumes "bins g \<noteq> []" and "\<forall>b \<in> set (bins g). \<not> binIsLinkedToTransform b"
    and "myName @ ''_bin'' \<notin> set (map name (tras g))"
  shows "usrbinPart ext g myName L None c
           = Inr (g\<lparr>bins := map (\<lambda>b. b\<lparr>TransfName := myName @ ''_bin''\<rparr>) (bins g),
                    tras := tras g @
                      [\<lparr>name = myName @ ''_bin'',
                        comment = (case c of None \<Rightarrow> [] | Some cmt \<Rightarrow> headMe ext [] cmt),
                        ID = int (length (tras g)) + 1, RotDefis = rev L\<rparr>]\<rparr>)"
proof -
  have na: "\<not> isALL (myName @ ''_bin'')" by (rule not_isALL_suffix4) simp
  let ?g' = "g\<lparr>bins := map (\<lambda>b. b\<lparr>TransfName := myName @ ''_bin''\<rparr>) (bins g)\<rparr>"
  from assms(3) have a3: "myName @ ''_bin'' \<notin> set (map name (tras ?g'))" by simp
  from recordSteps_create [OF na a3, of ext L c]
    linkBin_unlinked_None [OF assms(2), of ext "myName @ ''_bin''" "[]" "[]" False] assms(1)
  show ?thesis by (simp add: usrbinPart_def Let_def)
qed

text \<open>
  Claim C7 asks that \<^verbatim>\<open>solidTrasform\<close> with \<^verbatim>\<open>dd=[0,0,0]\<close> and \<^verbatim>\<open>myTheta=0.0\<close>
  leave every geometry as it is, with no new transformation and no new link. The code at
  the geometry of bodies B1 and B2, region R1 and one USRBIN that is not linked to a
  transformation: the zero rotation is skipped, but the translation has no such guard and
  yields a step, and since \<^verbatim>\<open>myTheta\<close> is not \<^verbatim>\<open>None\<close> the USRBIN is not taken as
  merely translated. A transformation \<^verbatim>\<open>ToFinPos_bin\<close> holding the zero translation is
  created and the USRBIN is linked to it; the state is not the one before the call.
\<close>

theorem solidTrasform_null_creates_transformation:
  "solidTrasform ex_ext ex_geoU (Some (0, 0, 0)) None (Theta 0 3) True False False False
     ''ToFinPos'' None
   = Inr (ex_geoU\<lparr>bins := [ex_bin\<lparr>TransfName := ''ToFinPos_bin''\<rparr>],
            tras := [\<lparr>name = ''ToFinPos_bin'', comment = [], ID = 1,
                      RotDefis = [Translation (0, 0, 0)]\<rparr>]\<rparr>)
   \<and> solidTrasform ex_ext ex_geoU (Some (0, 0, 0)) None (Theta 0 3) True False False False
         ''ToFinPos'' None \<noteq> Inr ex_geoU"
proof -
  let ?g1 = "ex_geoU\<lparr>bods := map (bodyTraslate ex_ext (0, 0, 0)) (bods ex_geoU)\<rparr>"
  have g1: "?g1 = ex_geoU"
    by (simp add: ex_geoU_def ex_geoB_def ex_ext_def ex_body_def vadd_def)
  have nl: "\<forall>r \<in> set (regs ex_geoU). \<not> isLattice r"
    by (simp add: ex_geoU_def ex_geoB_def isLattice_def newRegion_def)
  have l: "latticePart ex_ext ex_geoU ''ToFinPos'' L I False None = Inr ex_geoU" for L I
    by (rule latticePart_no_lattice [OF nl])
  have u: "usrbinPart ex_ext ex_geoU ''ToFinPos'' [Translation (vneg (0, 0, 0))] None None
             = Inr (ex_geoU\<lparr>bins := [ex_bin\<lparr>TransfName := ''ToFinPos_bin''\<rparr>],
                      tras := [\<lparr>name = ''ToFinPos_bin'', comment = [], ID = 1,
                                RotDefis = [Translation (vneg (0, 0, 0))]\<rparr>]\<rparr>)"
    using usrbinPart_fresh [of ex_geoU "''ToFinPos''" ex_ext "[Translation (vneg (0, 0, 0))]" None]
    by (simp add: ex_geoU_def ex_geoB_def ex_bin_def binIsLinkedToTransform_def)
  have "solidTrasform ex_ext ex_geoU (Some (0, 0, 0)) None (Theta 0 3) True False False False
          ''ToFinPos'' None
        = addTransformation ex_ext ?g1 [Translation (vneg (0, 0, 0))] [] None False False False
            ''ToFinPos'' None"
    by (simp add: solidTrasform_def rotationPart_def)
  also have "\<dots> = Inr (ex_geoU\<lparr>bins := [ex_bin\<lparr>TransfName := ''ToFinPos_bin''\<rparr>],
                      tras := [\<lparr>name = ''ToFinPos_bin'', comment = [], ID = 1,
                                RotDefis = [Translation (vneg (0, 0, 0))]\<rparr>]\<rparr>)"
    unfolding g1 by (simp add: addTransformation_def l u)
  finally have r: "solidTrasform ex_ext ex_geoU (Some (0, 0, 0)) None (Theta 0 3) True False False
                     False ''ToFinPos'' None
                   = Inr (ex_geoU\<lparr>bins := [ex_bin\<lparr>TransfName := ''ToFinPos_bin''\<rparr>],
                            tras := [\<lparr>name = ''ToFinPos_bin'', comment = [], ID = 1,
                                      RotDefis = [Translation (0, 0, 0)]\<rparr>]\<rparr>)"
    by (simp add: vneg_def)
  have "tras (ex_geoU\<lparr>bins := [ex_bin\<lparr>TransfName := ''ToFinPos_bin''\<rparr>],
                      tras := [\<lparr>name = ''ToFinPos_bin'', comment = [], ID = 1,
                                RotDefis = [Translation (0, 0, 0)]\<rparr>]\<rparr>) \<noteq> tras ex_geoU"
    by (simp add: ex_geoU_def ex_geoB_def)
  then have "ex_geoU\<lparr>bins := [ex_bin\<lparr>TransfName := ''ToFinPos_bin''\<rparr>],
                      tras := [\<lparr>name = ''ToFinPos_bin'', comment = [], ID = 1,
                                RotDefis = [Translation (0, 0, 0)]\<rparr>]\<rparr> \<noteq> ex_geoU"
    by metis
  with r show ?thesis by simp
qed

text \<open>
  The same zero translation without any angle (\<^verbatim>\<open>myTheta=None\<close>) creates nothing: the
  USRBIN is passed to \<^verbatim>\<open>Usrbin.move\<close> (which the example externals mark in the comment).
\<close>

lemma solidTrasform_zero_translation_alone:
  "solidTrasform ex_ext ex_geoU (Some (0, 0, 0)) None NoTheta True False False False
     ''ToFinPos'' None
   = Inr (ex_geoU\<lparr>bins := [ex_bin\<lparr>comment := ''* moved''\<rparr>]\<rparr>)"
  by code_simp


section \<open>Geometry.BuildGriddedGeo in lattice mode\<close>

text \<open>
  Claim C2 at a concrete grid. Two placements of the prototype P, at (1,0,0) and at
  (6,0,0), given by matrices (the identity), in lattice mode. The second placement yields
  a single LATTICE stand-in region, but the steps of its transformation are the
  translation (-6,0,0) followed by the translation (6,0,0): the matrix branch reads
  \<^verbatim>\<open>myGrid.ret(what="LOC",iEl=iLoc)\<close>, the placement itself, where the angle branch
  reads the placement of the first occurrence, so the chain composes to no translation
  at all and not to the delta (5,0,0).
\<close>

theorem BuildGriddedGeo_matrix_lattice_no_delta:
  "BuildGriddedGeo ex_ext ex_relabel ex_gridM [''P'', ''P''] ex_protos [] True [True, True] False
   = Inr [ex_geoB\<lparr>bods := [(ex_body ''B1'' [])\<lparr>P := (1, 0, 0)\<rparr>, (ex_body ''B2'' [])\<lparr>P := (1, 0, 0)\<rparr>]\<rparr>,
          ex_standin [Translation (- 6, 0, 0), Translation (6, 0, 0)] (6, 0, 0)]
   \<and> netTranslation [Translation (- 6, 0, 0), Translation (6, 0, 0)] = (0, 0, 0)"
  by code_simp

text \<open>
  The same two placements given by an angle of zero about axis 3: the steps of the
  stand-in are the translation (-6,0,0) followed by the translation (1,0,0), the delta
  (5,0,0) in the negated form in which a card records a translation.
\<close>

lemma BuildGriddedGeo_angle_lattice_delta:
  "BuildGriddedGeo ex_ext ex_relabel ex_gridA [''P'', ''P''] ex_protos [] True [True, True] False
   = Inr [ex_geoB\<lparr>bods := [(ex_body ''B1'' [])\<lparr>P := (1, 0, 0)\<rparr>, (ex_body ''B2'' [])\<lparr>P := (1, 0, 0)\<rparr>]\<rparr>,
          ex_standin [Translation (- 6, 0, 0), Translation (1, 0, 0)] (6, 0, 0)]
   \<and> netTranslation [Translation (- 6, 0, 0), Translation (1, 0, 0)] = (- 5, 0, 0)"
  by code_simp

end
